(* ===== verification/Prelude.thy ===== *)
theory Prelude
  imports Main "HOL-Library.Word"
begin

text \<open>
  Shared vocabulary of the development.

  Machine integers are words read through \<open>sint\<close> or \<open>unat\<close>; a nilable \<open>*big.Int\<close> is an
  \<open>int option\<close>; a slice that the code compares with nil is a \<open>'a list option\<close>.
  An instant is its number of nanoseconds since the Unix epoch.

  Go errors are values of \<open>gerror\<close>: \<open>New\<close> is \<open>errors.New\<close> or a \<open>fmt.Errorf\<close> without
  \<open>%w\<close>, \<open>Var\<close> is one of the package-level error variables (which \<open>errors.Is\<close> compares by
  identity), \<open>Wrap\<close> is a \<open>fmt.Errorf\<close> with one \<open>%w\<close> (text before, the wrapped error,
  text after) and \<open>Join\<close> is \<open>errors.Join\<close>. A nil error is \<open>None\<close>.

  A call that has effects is a function of an abstract world \<open>'w\<close> that returns its result
  and the next world, \<open>('w, 'a) io\<close>. \<open>tryE\<close> and \<open>onErr\<close> are the code's
  \<open>if err != nil\<close> after a call; they come with elimination rules (\<open>io_elims\<close>), which
  recover the sequence of calls from a finished computation, and unfold by \<open>io_simps\<close>.
\<close>

named_theorems io_simps \<open>unfolding of the effect combinators\<close>

named_theorems io_elims \<open>inversion of finished computations\<close>

subsection \<open>Types shared by all components\<close>

type_synonym int64 = "64 word"
type_synonym uint64 = "64 word"
type_synonym uint8 = "8 word"
type_synonym bytes = "8 word list"
type_synonym address = "160 word"
type_synonym hash = "256 word"
type_synonym bigint = "int option"
type_synonym 'a slice = "'a list option"
type_synonym Time = int
type_synonym Duration = int

definition elems :: "'a slice \<Rightarrow> 'a list" where
  "elems s = (case s of None \<Rightarrow> [] | Some xs \<Rightarrow> xs)"

lemma elems_simps [simp]: "elems None = []" "elems (Some xs) = xs"
  by (simp_all add: elems_def)

subsection \<open>Errors\<close>

datatype sentinel =
    ErrSimulationFailed | ErrSignerOwnerMismatch
  | ErrZeroVault | ErrVaultClientMismatch | ErrZeroOwner | ErrZeroReceiver | ErrInvalidShares
  | ErrInvalidMonitorModule | ErrMonitorModuleFailure | ErrMonitorResultHandler
  | ErrMonitorStorage | ErrTelegramBotRequired | ErrUnauthorizedTelegramCommand
  | ErrPreBroadcast | ErrContextDone

fun sentinel_text :: "sentinel \<Rightarrow> string" where
  "sentinel_text ErrSimulationFailed = ''full-exit simulation failed''"
| "sentinel_text ErrSignerOwnerMismatch = ''signer address does not match position owner''"
| "sentinel_text ErrZeroVault = ''vault address is required''"
| "sentinel_text ErrVaultClientMismatch = ''vault client mismatch''"
| "sentinel_text ErrZeroOwner = ''owner address is required''"
| "sentinel_text ErrZeroReceiver = ''receiver address is required''"
| "sentinel_text ErrInvalidShares = ''shares must be positive''"
| "sentinel_text ErrInvalidMonitorModule = ''invalid monitor module''"
| "sentinel_text ErrMonitorModuleFailure = ''monitor module failure''"
| "sentinel_text ErrMonitorResultHandler = ''monitor result handler failure''"
| "sentinel_text ErrMonitorStorage = ''monitor storage failure''"
| "sentinel_text ErrTelegramBotRequired = ''telegram bot is required''"
| "sentinel_text ErrUnauthorizedTelegramCommand = ''telegram authorization failed''"
| "sentinel_text ErrPreBroadcast = ''transaction failed before broadcast''"
| "sentinel_text ErrContextDone = ''context canceled''"

datatype gerror =
    New string
  | Var sentinel
  | Wrap string gerror string
  | Join "gerror list"

text \<open>\<open>strings.Join\<close>\<close>

fun strings_Join :: "string list \<Rightarrow> string \<Rightarrow> string" where
  "strings_Join [] sep = []"
| "strings_Join [x] sep = x"
| "strings_Join (x # y # ys) sep = x @ sep @ strings_Join (y # ys) sep"

fun error_text :: "gerror \<Rightarrow> string" where
  "error_text (New s) = s"
| "error_text (Var v) = sentinel_text v"
| "error_text (Wrap pre e post) = pre @ error_text e @ post"
| "error_text (Join es) = strings_Join (map error_text es) [CHR 0x0A]"

text \<open>\<open>errors.Is(err, target)\<close> for one of the package-level variables.\<close>

fun errors_Is :: "gerror \<Rightarrow> sentinel \<Rightarrow> bool" where
  "errors_Is (New s) t = False"
| "errors_Is (Var v) t = (v = t)"
| "errors_Is (Wrap pre e post) t = errors_Is e t"
| "errors_Is (Join es) t = (\<exists>e \<in> set es. errors_Is e t)"

definition error_is :: "gerror option \<Rightarrow> sentinel \<Rightarrow> bool" where
  "error_is r t = (case r of None \<Rightarrow> False | Some e \<Rightarrow> errors_Is e t)"

text \<open>\<open>errors.Join\<close> drops nil errors and is nil when nothing is left.\<close>

definition errors_Join :: "gerror option list \<Rightarrow> gerror option" where
  "errors_Join rs =
     (case filter (\<lambda>r. r \<noteq> None) rs of
        [] \<Rightarrow> None
      | es \<Rightarrow> Some (Join (map the es)))"

text \<open>
  An error that a library returns, of which nothing is known but its text: it wraps none of the
  variables of this program.
\<close>

definition library :: "string + 'a \<Rightarrow> gerror + 'a" where
  "library r = (case r of Inl s \<Rightarrow> Inl (New s) | Inr x \<Rightarrow> Inr x)"

definition libraryE :: "string option \<Rightarrow> gerror option" where
  "libraryE r = (case r of None \<Rightarrow> None | Some s \<Rightarrow> Some (New s))"

lemma library_simps [simp]:
  "library (Inl s) = Inl (New s)" "library (Inr x) = Inr x"
  "libraryE None = None" "libraryE (Some s) = Some (New s)"
  by (simp_all add: library_def libraryE_def)

lemma library_results:
  "library r = Inl e \<longleftrightarrow> (\<exists>s. r = Inl s \<and> e = New s)" "library r = Inr x \<longleftrightarrow> r = Inr x"
  "libraryE o' = None \<longleftrightarrow> o' = None" "libraryE o' = Some e \<longleftrightarrow> (\<exists>s. o' = Some s \<and> e = New s)"
  by (auto simp: library_def libraryE_def split: sum.splits option.splits)

lemma error_is_simps [simp]:
  "error_is None t = False"
  "error_is (Some e) t = errors_Is e t"
  by (simp_all add: error_is_def)

lemma errors_Join_eq:
  "errors_Join rs =
     (if \<forall>r \<in> set rs. r = None then None else Some (Join (map the (filter (\<lambda>r. r \<noteq> None) rs))))"
  by (auto simp: errors_Join_def filter_empty_conv split: list.splits)

lemma errors_Join_None [simp]: "errors_Join rs = None \<longleftrightarrow> (\<forall>r \<in> set rs. r = None)"
  by (auto simp: errors_Join_eq)

lemma errors_Join_is [simp]: "error_is (errors_Join rs) t = (\<exists>r \<in> set rs. error_is r t)"
proof -
  have "(\<exists>e \<in> the ` {r \<in> set rs. r \<noteq> None}. errors_Is e t) = (\<exists>r \<in> set rs. error_is r t)"
    by (auto simp: error_is_def split: option.splits intro: rev_bexI)
  then show ?thesis
    by (auto simp: errors_Join_eq)
qed

subsection \<open>Effects\<close>

type_synonym ('w, 'a) io = "'w \<Rightarrow> 'a \<times> 'w"

definition ret :: "'a \<Rightarrow> ('w, 'a) io" where
  "ret x w = (x, w)"

definition bindIO :: "('w, 'a) io \<Rightarrow> ('a \<Rightarrow> ('w, 'b) io) \<Rightarrow> ('w, 'b) io" where
  "bindIO m k w = (case m w of (x, w') \<Rightarrow> k x w')"

text \<open>\<open>x, err := m(); if err != nil { h(err) }; k(x)\<close>\<close>

definition tryE :: "('w, gerror + 'a) io \<Rightarrow> (gerror \<Rightarrow> ('w, 'r) io) \<Rightarrow> ('a \<Rightarrow> ('w, 'r) io)
    \<Rightarrow> ('w, 'r) io" where
  "tryE m h k = bindIO m (\<lambda>r. case r of Inl e \<Rightarrow> h e | Inr x \<Rightarrow> k x)"

text \<open>\<open>if err := m(); err != nil { h(err) }; k()\<close>\<close>

definition onErr :: "('w, gerror option) io \<Rightarrow> (gerror \<Rightarrow> ('w, 'r) io) \<Rightarrow> ('w, 'r) io
    \<Rightarrow> ('w, 'r) io" where
  "onErr m h k = bindIO m (\<lambda>r. case r of Some e \<Rightarrow> h e | None \<Rightarrow> k)"

text \<open>The common case: return the error and no value.\<close>

definition bindE :: "('w, gerror + 'a) io \<Rightarrow> ('a \<Rightarrow> ('w, gerror + 'b) io) \<Rightarrow> ('w, gerror + 'b) io"
  where "bindE m k = tryE m (\<lambda>e. ret (Inl e)) k"

text \<open>An operation on the environment, run by a component that also has a state of its own.\<close>

definition envIO :: "('w, 'a) io \<Rightarrow> ('p \<times> 'w, 'a) io" where
  "envIO m s = (case m (snd s) of (x, w') \<Rightarrow> (x, (fst s, w')))"

lemma ret_eq [io_simps]: "ret x w = (x, w)"
  by (simp add: ret_def)

lemma bindIO_eq [io_simps]: "bindIO m k w = (case m w of (x, w') \<Rightarrow> k x w')"
  by (simp add: bindIO_def)

lemma tryE_eq [io_simps]:
  "tryE m h k w = (case m w of (Inl e, w') \<Rightarrow> h e w' | (Inr x, w') \<Rightarrow> k x w')"
  by (simp add: tryE_def bindIO_def split: prod.splits sum.splits)

lemma onErr_eq [io_simps]:
  "onErr m h k w = (case m w of (Some e, w') \<Rightarrow> h e w' | (None, w') \<Rightarrow> k w')"
  by (simp add: onErr_def bindIO_def split: prod.splits option.splits)

lemma bindE_eq [io_simps]:
  "bindE m k w = (case m w of (Inl e, w') \<Rightarrow> (Inl e, w') | (Inr x, w') \<Rightarrow> k x w')"
  by (simp add: bindE_def tryE_eq ret_def split: prod.splits sum.splits)

lemma envIO_eq [io_simps]: "envIO m (p, w) = (case m w of (x, w') \<Rightarrow> (x, (p, w')))"
  by (simp add: envIO_def)

lemma ret_elim [io_elims]:
  assumes "ret x w = (y, w')"
  obtains "y = x" "w' = w"
  using assms by (simp add: ret_def)

lemma bindIO_elim [io_elims]:
  assumes "bindIO m k w = (y, w')"
  obtains x w1 where "m w = (x, w1)" "k x w1 = (y, w')"
  using assms by (auto simp: bindIO_def split: prod.splits)

lemma tryE_elim [io_elims]:
  assumes "tryE m h k w = (y, w')"
  obtains e w1 where "m w = (Inl e, w1)" "h e w1 = (y, w')"
    | x w1 where "m w = (Inr x, w1)" "k x w1 = (y, w')"
  using assms by (auto simp: tryE_eq split: prod.splits sum.splits)

lemma onErr_elim [io_elims]:
  assumes "onErr m h k w = (y, w')"
  obtains e w1 where "m w = (Some e, w1)" "h e w1 = (y, w')"
    | w1 where "m w = (None, w1)" "k w1 = (y, w')"
  using assms by (auto simp: onErr_eq split: prod.splits option.splits)

lemma bindE_elim [io_elims]:
  assumes "bindE m k w = (y, w')"
  obtains e where "m w = (Inl e, w')" "y = Inl e"
    | x w1 where "m w = (Inr x, w1)" "k x w1 = (y, w')"
  using assms by (auto simp: bindE_eq split: prod.splits sum.splits)

lemma envIO_elim [io_elims]:
  assumes "envIO m s = (y, s')"
  obtains w1 where "m (snd s) = (y, w1)" "s' = (fst s, w1)"
  using assms by (auto simp: envIO_def split: prod.splits)

text \<open>An effect preserves a property of the world, whatever it returns.\<close>

definition preserves :: "('w \<Rightarrow> bool) \<Rightarrow> ('w, 'a) io \<Rightarrow> bool" where
  "preserves P m \<longleftrightarrow> (\<forall>w. P w \<longrightarrow> P (snd (m w)))"

named_theorems preserves_intros \<open>effects that preserve a property of the world\<close>

lemma preservesD: "preserves P m \<Longrightarrow> m w = (r, w') \<Longrightarrow> P w \<Longrightarrow> P w'"
  by (auto simp: preserves_def dest!: spec [of _ w])

lemma preservesI: "(\<And>w r w'. m w = (r, w') \<Longrightarrow> P w \<Longrightarrow> P w') \<Longrightarrow> preserves P m"
  unfolding preserves_def by (metis surj_pair snd_conv)

lemma preserves_ret [preserves_intros]: "preserves P (ret x)"
  by (simp add: preserves_def ret_def)

lemma preserves_bindIO [preserves_intros]:
  "preserves P m \<Longrightarrow> (\<And>x. preserves P (k x)) \<Longrightarrow> preserves P (bindIO m k)"
  by (rule preservesI) (elim bindIO_elim; metis preservesD)

lemma preserves_tryE [preserves_intros]:
  "preserves P m \<Longrightarrow> (\<And>e. preserves P (h e)) \<Longrightarrow> (\<And>x. preserves P (k x)) \<Longrightarrow> preserves P (tryE m h k)"
  by (rule preservesI) (elim tryE_elim; metis preservesD)

lemma preserves_bindE [preserves_intros]:
  "preserves P m \<Longrightarrow> (\<And>x. preserves P (k x)) \<Longrightarrow> preserves P (bindE m k)"
  by (simp add: bindE_def preserves_intros)

lemma preserves_onErr [preserves_intros]:
  "preserves P m \<Longrightarrow> (\<And>e. preserves P (h e)) \<Longrightarrow> preserves P k \<Longrightarrow> preserves P (onErr m h k)"
  by (rule preservesI) (elim onErr_elim; metis preservesD)

lemma preserves_envIO [preserves_intros]:
  "preserves P m \<Longrightarrow> preserves (\<lambda>s. P (snd s)) (envIO m)"
  by (rule preservesI) (auto elim!: envIO_elim dest: preservesD)

lemma preserves_if [preserves_intros]:
  "(b \<Longrightarrow> preserves P m) \<Longrightarrow> (\<not> b \<Longrightarrow> preserves P n) \<Longrightarrow> preserves P (if b then m else n)"
  by simp

lemma preserves_option [preserves_intros]:
  "preserves P m \<Longrightarrow> (\<And>y. x = Some y \<Longrightarrow> preserves P (k y)) \<Longrightarrow>
   preserves P (case x of None \<Rightarrow> m | Some y \<Rightarrow> k y)"
  by (cases x) simp_all

lemma preserves_sum [preserves_intros]:
  "(\<And>a. x = Inl a \<Longrightarrow> preserves P (h a)) \<Longrightarrow> (\<And>b. x = Inr b \<Longrightarrow> preserves P (k b)) \<Longrightarrow>
   preserves P (case x of Inl a \<Rightarrow> h a | Inr b \<Rightarrow> k b)"
  by (cases x) simp_all

lemma list_all2_mem2: "list_all2 P xs ys \<Longrightarrow> y \<in> set ys \<Longrightarrow> \<exists>x \<in> set xs. P x y"
  by (induction rule: list_all2_induct) auto

end
