(* ===== verification/Core_Types.thy ===== *)
theory Core_Types
  imports Prelude "HOL-Library.Finite_Map"
begin

text \<open>
  The domain types of \<open>internal/core\<close>: identifiers and statuses (\<open>ids.go\<close>,
  \<open>status.go\<close>), the value objects (\<open>types.go\<close>), the clock (\<open>time.go\<close>) and the
  stored-override and simulator interfaces (\<open>protocol.go\<close>).

  Go's named string types are strings and their constants are definitions of their
  literals, so that a value that is none of the constants is representable, as it is in the
  code. A Go map with string keys is a finite map, \<open>None\<close> for the nil map. Value objects
  are immutable here, so a \<open>Clone\<close> is the identity on them; that the clones of
  \<open>clone.go\<close> share no memory with their originals is the subject of theory
  \<open>Core_Clone\<close>, where the heap is explicit.
\<close>

subsection \<open>Identifiers and statuses\<close>

type_synonym MonitorModuleID = string
type_synonym FindingKey = string
type_synonym EventType = string
type_synonym Severity = string
type_synonym MonitorStatus = string

named_theorems name_defs \<open>the literals behind the named string constants\<close>

definition ModuleSharePriceLoss :: string where [name_defs]: "ModuleSharePriceLoss = ''share_price_loss''"
definition ModuleWithdrawLiquidity :: string where [name_defs]: "ModuleWithdrawLiquidity = ''withdraw_liquidity''"
definition ModuleVaultState :: string where [name_defs]: "ModuleVaultState = ''vault_state_baseline''"

definition FindingSharePriceLoss :: string where [name_defs]: "FindingSharePriceLoss = ''share_price_loss''"
definition FindingIdleLiquidity :: string where [name_defs]: "FindingIdleLiquidity = ''idle_liquidity''"
definition FindingExitSimulation :: string where [name_defs]: "FindingExitSimulation = ''exit_simulation''"
definition FindingVaultStateDiff :: string where [name_defs]: "FindingVaultStateDiff = ''vault_state_diff''"
definition FindingStaleData :: string where [name_defs]: "FindingStaleData = ''stale_data''"

definition EventInfo :: string where [name_defs]: "EventInfo = ''info''"
definition EventWarning :: string where [name_defs]: "EventWarning = ''warning''"
definition EventError :: string where [name_defs]: "EventError = ''error''"
definition EventSecurity :: string where [name_defs]: "EventSecurity = ''security''"
definition EventWithdrawal :: string where [name_defs]: "EventWithdrawal = ''withdrawal''"

definition CommandStats :: string where [name_defs]: "CommandStats = ''/stats''"
definition CommandWithdraw :: string where [name_defs]: "CommandWithdraw = ''/withdraw''"
definition CommandConfirm :: string where [name_defs]: "CommandConfirm = ''/confirm''"
definition CommandThresholds :: string where [name_defs]: "CommandThresholds = ''/thresholds''"
definition CommandThresholdSet :: string where [name_defs]: "CommandThresholdSet = ''/threshold''"
definition CommandLogs :: string where [name_defs]: "CommandLogs = ''/logs''"
definition CommandHelp :: string where [name_defs]: "CommandHelp = ''/help''"

definition SeverityWarn :: string where [name_defs]: "SeverityWarn = ''warn''"
definition SeverityUrgent :: string where [name_defs]: "SeverityUrgent = ''urgent''"

definition MonitorStatusOK :: string where [name_defs]: "MonitorStatusOK = ''OK''"
definition MonitorStatusWarn :: string where [name_defs]: "MonitorStatusWarn = ''WARN''"
definition MonitorStatusUrgent :: string where [name_defs]: "MonitorStatusUrgent = ''URGENT''"
definition MonitorStatusUnknown :: string where [name_defs]: "MonitorStatusUnknown = ''UNKNOWN''"

text \<open>The constants the code compares with each other are different strings.\<close>

lemma status_names_distinct [simp]:
  "MonitorStatusOK \<noteq> MonitorStatusWarn" "MonitorStatusWarn \<noteq> MonitorStatusOK"
  "MonitorStatusOK \<noteq> MonitorStatusUrgent" "MonitorStatusUrgent \<noteq> MonitorStatusOK"
  "MonitorStatusOK \<noteq> MonitorStatusUnknown" "MonitorStatusUnknown \<noteq> MonitorStatusOK"
  "MonitorStatusWarn \<noteq> MonitorStatusUrgent" "MonitorStatusUrgent \<noteq> MonitorStatusWarn"
  "MonitorStatusWarn \<noteq> MonitorStatusUnknown" "MonitorStatusUnknown \<noteq> MonitorStatusWarn"
  "MonitorStatusUrgent \<noteq> MonitorStatusUnknown" "MonitorStatusUnknown \<noteq> MonitorStatusUrgent"
  by (simp_all add: name_defs)

lemma severity_names_distinct [simp]:
  "SeverityWarn \<noteq> SeverityUrgent" "SeverityUrgent \<noteq> SeverityWarn"
  "SeverityWarn \<noteq> []" "SeverityUrgent \<noteq> []"
  by (simp_all add: name_defs)

lemma module_names_distinct [simp]:
  "ModuleSharePriceLoss \<noteq> ModuleWithdrawLiquidity"
  "ModuleWithdrawLiquidity \<noteq> ModuleSharePriceLoss"
  "ModuleSharePriceLoss \<noteq> ModuleVaultState" "ModuleVaultState \<noteq> ModuleSharePriceLoss"
  "ModuleWithdrawLiquidity \<noteq> ModuleVaultState" "ModuleVaultState \<noteq> ModuleWithdrawLiquidity"
  "ModuleSharePriceLoss \<noteq> []" "ModuleWithdrawLiquidity \<noteq> []" "ModuleVaultState \<noteq> []"
  by (simp_all add: name_defs)

subsection \<open>Value objects\<close>

type_synonym 'v gomap = "(string, 'v) fmap option"

record Metric =
  m_Key :: string
  m_Value :: string
  m_Unit :: string

record Finding =
  f_Key :: FindingKey
  f_Severity :: Severity
  f_Message :: string
  f_Evidence :: "string gomap"

record MonitorResult =
  mr_ModuleID :: MonitorModuleID
  mr_Status :: MonitorStatus
  mr_ObservedAt :: Time
  mr_Metrics :: "Metric slice"
  mr_Findings :: "Finding slice"

record PositionSnapshot =
  ps_Vault :: address
  ps_Owner :: address
  ps_Receiver :: address
  ps_ShareBalance :: bigint
  ps_AssetSymbol :: string
  ps_AssetDecimals :: uint8
  ps_ObservedAt :: Time

record FullExitRequest =
  rq_Vault :: address
  rq_Owner :: address
  rq_Receiver :: address
  rq_Shares :: bigint

record TxCandidate =
  tc_To :: address
  tc_Data :: "bytes option"
  tc_Value :: bigint

record FullExitSimulation =
  sim_Success :: bool
  sim_ExpectedAssetUnits :: bigint
  sim_GasUnits :: uint64
  sim_RevertReason :: string

definition zeroSimulation :: FullExitSimulation where
  "zeroSimulation = \<lparr>sim_Success = False, sim_ExpectedAssetUnits = None, sim_GasUnits = 0,
     sim_RevertReason = []\<rparr>"

lemma zeroSimulation_simps [simp]:
  "sim_Success zeroSimulation = False"
  "sim_ExpectedAssetUnits zeroSimulation = None"
  "sim_GasUnits zeroSimulation = 0"
  by (simp_all add: zeroSimulation_def)

record ThresholdOverride =
  to_ModuleID :: string
  to_Key :: string
  to_Value :: string

subsection \<open>Clocks\<close>

text \<open>
  \<open>SystemClock\<close> is the environment's clock, a parameter \<open>sys\<close> of every operation that may
  fall back on it; a nil \<open>core.Clock\<close> field is \<open>None\<close>. \<open>FixedClock\<close> always reads its
  value.
\<close>

type_synonym 'w Clock = "('w, Time) io"

definition FixedClock_Now :: "Time \<Rightarrow> 'w Clock" where
  "FixedClock_Now v = ret v"

definition clock_now :: "'w Clock \<Rightarrow> 'w Clock option \<Rightarrow> 'w Clock" where
  "clock_now sys c = (case c of None \<Rightarrow> sys | Some k \<Rightarrow> k)"

text \<open>
  \<open>t.Sub(u)\<close> of package time saturates at the bounds of a Duration (an int64 of
  nanoseconds).
\<close>

definition time_Sub :: "Time \<Rightarrow> Time \<Rightarrow> Duration" where
  "time_Sub t u = max (- (2 ^ 63)) (min (2 ^ 63 - 1) (t - u))"

subsection \<open>The exit simulator\<close>

text \<open>
  \<open>core.ExitSimulator\<close> and the readers of the monitor modules are interfaces: records of
  operations on the environment. \<open>SimulateFullExit\<close> may return a value along with an
  error, so it is a pair.
\<close>

record 'w ExitSimulator =
  es_Position :: "('w, gerror + PositionSnapshot) io"
  es_SimulateFullExit :: "FullExitRequest \<Rightarrow> ('w, FullExitSimulation \<times> gerror option) io"

subsection \<open>Worst known status\<close>

text \<open>
  The loop of \<open>WorstKnownStatus\<close> over its statuses, with \<open>worst\<close> and \<open>seenKnown\<close>; the
  urgent case returns from inside the loop.
\<close>

fun worstKnownLoop :: "MonitorStatus list \<Rightarrow> MonitorStatus \<Rightarrow> bool \<Rightarrow> MonitorStatus" where
  "worstKnownLoop [] worst seenKnown = (if seenKnown then worst else MonitorStatusUnknown)"
| "worstKnownLoop (status # rest) worst seenKnown =
     (if status = MonitorStatusUrgent then MonitorStatusUrgent
      else if status = MonitorStatusWarn then worstKnownLoop rest MonitorStatusWarn True
      else if status = MonitorStatusOK then worstKnownLoop rest worst True
      else worstKnownLoop rest worst seenKnown)"

definition WorstKnownStatus :: "MonitorStatus list \<Rightarrow> MonitorStatus" where
  "WorstKnownStatus statuses = worstKnownLoop statuses MonitorStatusOK False"

text \<open>
  The contract: statuses are ranked, unknown lowest, and the worst one is the status of the
  greatest rank that occurs.
\<close>

definition status_rank :: "MonitorStatus \<Rightarrow> nat" where
  "status_rank s = (if s = MonitorStatusUrgent then 3 else if s = MonitorStatusWarn then 2
     else if s = MonitorStatusOK then 1 else 0)"

definition rank_status :: "nat \<Rightarrow> MonitorStatus" where
  "rank_status n = (if n = 3 then MonitorStatusUrgent else if n = 2 then MonitorStatusWarn
     else if n = 1 then MonitorStatusOK else MonitorStatusUnknown)"

definition worst_spec :: "MonitorStatus list \<Rightarrow> MonitorStatus" where
  "worst_spec ss = rank_status (foldr (\<lambda>s n. max (status_rank s) n) ss 0)"

lemma status_rank_le: "status_rank s \<le> 3"
  by (simp add: status_rank_def)

lemma foldr_rank_le: "foldr (\<lambda>s n. max (status_rank s) n) ss (k::nat) \<le> max 3 k"
proof (induction ss)
  case (Cons s ss)
  then show ?case using status_rank_le [of s] by auto
qed simp

lemma worstKnownLoop_rank:
  assumes "worst = MonitorStatusOK \<or> worst = MonitorStatusWarn"
    and "worst = MonitorStatusWarn \<longrightarrow> seen"
  shows "worstKnownLoop ss worst seen =
    rank_status (max (if seen then status_rank worst else 0)
      (foldr (\<lambda>s n. max (status_rank s) n) ss 0))"
  using assms
proof (induction ss arbitrary: worst seen)
  case Nil
  then show ?case by (auto simp: rank_status_def status_rank_def)
next
  case (Cons s ss)
  let ?m = "foldr (\<lambda>s n. max (status_rank s) n) ss 0"
  have le: "?m \<le> 3" using foldr_rank_le [of ss 0] by simp
  consider "s = MonitorStatusUrgent" | "s = MonitorStatusWarn" | "s = MonitorStatusOK"
    | "s \<noteq> MonitorStatusUrgent" "s \<noteq> MonitorStatusWarn" "s \<noteq> MonitorStatusOK"
    by blast
  then show ?case
  proof cases
    case 1
    have "max (if seen then status_rank worst else 0) (max 3 ?m) = 3"
      using le status_rank_le [of worst] by auto
    with 1 show ?thesis by (simp add: status_rank_def rank_status_def)
  next
    case 2
    have "max (status_rank MonitorStatusWarn) ?m =
        max (if seen then status_rank worst else 0) (max 2 ?m)"
      using Cons.prems by (auto simp: status_rank_def)
    with 2 Cons.IH [of MonitorStatusWarn True] show ?thesis
      by (simp add: status_rank_def)
  next
    case 3
    have "max (status_rank worst) ?m = max (if seen then status_rank worst else 0) (max 1 ?m)"
      using Cons.prems by (auto simp: status_rank_def)
    with 3 Cons.IH [of worst True] Cons.prems show ?thesis
      by (simp add: status_rank_def)
  next
    case 4
    with Cons.IH [of worst seen] Cons.prems show ?thesis
      by (simp add: status_rank_def)
  qed
qed

lemma WorstKnownStatus_refines: "WorstKnownStatus ss = worst_spec ss"
  by (simp add: WorstKnownStatus_def worst_spec_def worstKnownLoop_rank)

lemma WorstKnownStatus_urgent:
  "WorstKnownStatus ss = MonitorStatusUrgent \<longleftrightarrow> MonitorStatusUrgent \<in> set ss"
proof -
  have "worstKnownLoop ss w b = MonitorStatusUrgent \<longleftrightarrow> MonitorStatusUrgent \<in> set ss"
    if "w = MonitorStatusOK \<or> w = MonitorStatusWarn" for w b
    using that by (induction ss w b rule: worstKnownLoop.induct) auto
  then show ?thesis by (simp add: WorstKnownStatus_def)
qed

subsection \<open>Properties\<close>

text \<open>\<open>WorstKnownStatus\<close> returns the status of the greatest rank among those given
  (urgent over warn over ok, everything else and the empty list being unknown), whatever their
  order; it is urgent exactly when one of them is.\<close>

theorem worst_status_is_greatest_rank:
  "WorstKnownStatus ss = worst_spec ss
    \<and> (WorstKnownStatus ss = MonitorStatusUrgent \<longleftrightarrow> MonitorStatusUrgent \<in> set ss)"
  using WorstKnownStatus_urgent [of ss] by (simp add: WorstKnownStatus_refines)

end
