(* ===== verification/Gas_Policy.thy ===== *)
theory Gas_Policy
  imports Core_Types
begin

text \<open>
  \<open>internal/withdraw/gas.go\<close>: EIP-1559 fee caps, their validation, the replacement bump in
  basis points and the configured ceilings, and \<open>bufferedGas\<close> of \<open>service.go\<close>.

  Fees are big integers. The basis points are an int64 and \<open>10_000 + bps\<close> is an int64
  addition, so it is written on words and wraps; the code then widens it to a big integer.
  \<open>big.Int.Div\<close> is Euclidean division, which for the positive divisor used here is
  \<open>div\<close>. \<open>big.Int.Uint64\<close> keeps the low 64 bits.
\<close>

record FeeCaps =
  MaxFeePerGas :: bigint
  MaxPriorityFeePerGas :: bigint

record GasPolicy =
  BumpBPS :: int64
  MaxFeeCap :: bigint
  MaxTipCap :: bigint

definition zeroFeeCaps :: FeeCaps where
  "zeroFeeCaps = \<lparr>MaxFeePerGas = None, MaxPriorityFeePerGas = None\<rparr>"

definition cloneBigInt :: "bigint \<Rightarrow> bigint" where
  "cloneBigInt value = (case value of None \<Rightarrow> None | Some v \<Rightarrow> Some v)"

definition cloneBytes :: "bytes option \<Rightarrow> bytes option" where
  "cloneBytes value = (case value of None \<Rightarrow> None | Some bs \<Rightarrow> Some bs)"

definition FeeCaps_Clone :: "FeeCaps \<Rightarrow> FeeCaps" where
  "FeeCaps_Clone fees = \<lparr>MaxFeePerGas = cloneBigInt (MaxFeePerGas fees),
     MaxPriorityFeePerGas = cloneBigInt (MaxPriorityFeePerGas fees)\<rparr>"

lemma clone_id [simp]:
  "cloneBigInt v = v" "cloneBytes b = b" "FeeCaps_Clone f = f"
  by (simp_all add: cloneBigInt_def cloneBytes_def FeeCaps_Clone_def split: option.splits)

definition validateCaps :: "GasPolicy \<Rightarrow> gerror option" where
  "validateCaps policy =
     (if (case MaxFeeCap policy of Some c \<Rightarrow> c \<le> 0 | None \<Rightarrow> False)
        then Some (New ''max fee cap must be positive'')
      else if (case MaxTipCap policy of Some c \<Rightarrow> c \<le> 0 | None \<Rightarrow> False)
        then Some (New ''max tip cap must be positive'')
      else None)"

definition FeeCaps_Validate :: "FeeCaps \<Rightarrow> gerror option" where
  "FeeCaps_Validate fees =
     (case MaxFeePerGas fees of
        None \<Rightarrow> Some (New ''max fee per gas is required'')
      | Some maxFee \<Rightarrow>
          (case MaxPriorityFeePerGas fees of
             None \<Rightarrow> Some (New ''max priority fee per gas is required'')
           | Some tip \<Rightarrow>
               if maxFee \<le> 0 then Some (New ''max fee per gas must be positive'')
               else if tip \<le> 0 then Some (New ''max priority fee per gas must be positive'')
               else if maxFee < tip then Some (New
                 ''max fee per gas must be greater than or equal to max priority fee per gas'')
               else None))"

definition bumpBPS :: "int \<Rightarrow> int64 \<Rightarrow> int" where
  "bumpBPS value bps = (value * sint (10000 + bps)) div 10000"

definition capBig :: "int \<Rightarrow> bigint \<Rightarrow> int" where
  "capBig value cap = (case cap of Some c \<Rightarrow> if value > c then c else value | None \<Rightarrow> value)"

text \<open>After \<open>fees.Validate()\<close> returned nil both pointers are non-nil, so \<open>the\<close> reads them.\<close>

definition BumpChecked :: "GasPolicy \<Rightarrow> FeeCaps \<Rightarrow> gerror + FeeCaps" where
  "BumpChecked policy fees =
     (case validateCaps policy of
        Some err \<Rightarrow> Inl err
      | None \<Rightarrow>
          (case FeeCaps_Validate fees of
             Some err \<Rightarrow> Inl err
           | None \<Rightarrow>
               (let result = \<lparr>
                  MaxFeePerGas = Some (capBig (bumpBPS (the (MaxFeePerGas fees)) (BumpBPS policy))
                    (MaxFeeCap policy)),
                  MaxPriorityFeePerGas = Some (capBig
                    (bumpBPS (the (MaxPriorityFeePerGas fees)) (BumpBPS policy))
                    (MaxTipCap policy))\<rparr>
                in case FeeCaps_Validate result of Some err \<Rightarrow> Inl err | None \<Rightarrow> Inr result)))"

definition Bump :: "GasPolicy \<Rightarrow> FeeCaps \<Rightarrow> FeeCaps" where
  "Bump policy fees = (case BumpChecked policy fees of Inl err \<Rightarrow> zeroFeeCaps | Inr r \<Rightarrow> r)"

definition bufferedGas :: "uint64 \<Rightarrow> int64 \<Rightarrow> uint64" where
  "bufferedGas gas bufferBPS =
     (if sint bufferBPS \<le> 0 then gas
      else word_of_int ((uint gas * sint (10000 + bufferBPS)) div 10000))"

subsection \<open>Validity and ceilings\<close>

definition fees_ok :: "FeeCaps \<Rightarrow> bool" where
  "fees_ok fees \<longleftrightarrow> FeeCaps_Validate fees = None"

definition within_caps :: "GasPolicy \<Rightarrow> FeeCaps \<Rightarrow> bool" where
  "within_caps policy fees \<longleftrightarrow>
     (\<forall>c f. MaxFeeCap policy = Some c \<and> MaxFeePerGas fees = Some f \<longrightarrow> f \<le> c) \<and>
     (\<forall>c t. MaxTipCap policy = Some c \<and> MaxPriorityFeePerGas fees = Some t \<longrightarrow> t \<le> c)"

lemma fees_ok_iff:
  "fees_ok fees \<longleftrightarrow> (\<exists>f t. MaxFeePerGas fees = Some f \<and> MaxPriorityFeePerGas fees = Some t \<and>
     0 < t \<and> t \<le> f)"
  by (auto simp: fees_ok_def FeeCaps_Validate_def split: option.splits if_splits)

lemma fees_okE:
  assumes "fees_ok fees"
  obtains f t where "MaxFeePerGas fees = Some f" "MaxPriorityFeePerGas fees = Some t"
    "0 < t" "t \<le> f"
  using assms by (auto simp: fees_ok_iff)

lemma validateCaps_None:
  "validateCaps policy = None \<longleftrightarrow>
     (\<forall>c. MaxFeeCap policy = Some c \<longrightarrow> 0 < c) \<and> (\<forall>c. MaxTipCap policy = Some c \<longrightarrow> 0 < c)"
  by (auto simp: validateCaps_def split: option.splits)

lemma capBig_le_cap [simp]: "capBig v (Some c) \<le> c"
  by (simp add: capBig_def)

lemma capBig_le: "capBig v cap \<le> v"
  by (simp add: capBig_def split: option.splits)

lemma capBig_mono: "v \<le> w \<Longrightarrow> capBig v cap \<le> capBig w cap"
  by (auto simp: capBig_def split: option.splits)

lemma capBig_eq: "(\<And>c. cap = Some c \<Longrightarrow> v \<le> c) \<Longrightarrow> capBig v cap = v"
  by (auto simp: capBig_def split: option.splits)

lemma BumpChecked_Inr:
  assumes "BumpChecked policy fees = Inr r"
  shows "validateCaps policy = None" "fees_ok fees" "fees_ok r"
    "MaxFeePerGas r = Some (capBig (bumpBPS (the (MaxFeePerGas fees)) (BumpBPS policy)) (MaxFeeCap policy))"
    "MaxPriorityFeePerGas r =
       Some (capBig (bumpBPS (the (MaxPriorityFeePerGas fees)) (BumpBPS policy)) (MaxTipCap policy))"
  using assms by (auto simp: BumpChecked_def fees_ok_def Let_def split: option.splits)

lemma BumpChecked_within_caps: "BumpChecked policy fees = Inr r \<Longrightarrow> within_caps policy r"
  by (simp add: within_caps_def BumpChecked_Inr(4,5) capBig_le_cap)

subsection \<open>The bump in basis points\<close>

text \<open>
  The addition does not wrap for the basis points a validated configuration can hold.
\<close>

lemma sint_add_10000:
  fixes b :: int64
  assumes "0 \<le> sint b" "sint b \<le> 2 ^ 62"
  shows "sint (10000 + b) = 10000 + sint b"
proof -
  have "signed_take_bit 63 (10000 + sint b) = 10000 + sint b"
    using assms by (intro signed_take_bit_int_eq_self) auto
  then show ?thesis
    by (simp add: sint_word_ariths(1))
qed

lemma bumpBPS_exact:
  assumes "0 \<le> sint b" "sint b \<le> 2 ^ 62"
  shows "bumpBPS v b = v + (v * sint b) div 10000"
proof -
  have "v * (10000 + sint b) = v * sint b + v * 10000"
    by (simp add: algebra_simps)
  then show ?thesis
    using assms by (simp add: bumpBPS_def sint_add_10000)
qed

lemma bumpBPS_mono:
  assumes "0 \<le> sint b" "sint b \<le> 2 ^ 62" "v \<le> w"
  shows "bumpBPS v b \<le> bumpBPS w b"
proof -
  have "v * (10000 + sint b) \<le> w * (10000 + sint b)"
    using assms by (intro mult_right_mono) auto
  then show ?thesis
    using assms by (simp add: bumpBPS_def sint_add_10000 zdiv_mono1)
qed

lemma bumpBPS_ge:
  assumes "0 \<le> sint b" "sint b \<le> 2 ^ 62" "0 \<le> v"
  shows "v \<le> bumpBPS v b"
  using assms by (simp add: bumpBPS_exact pos_imp_zdiv_nonneg_iff)

lemma bumpBPS_gr:
  assumes "0 \<le> sint b" "sint b \<le> 2 ^ 62" "10000 \<le> v * sint b"
  shows "v < bumpBPS v b"
proof -
  have "1 \<le> (v * sint b) div 10000"
    using zdiv_mono1 [OF assms(3), of 10000] by simp
  then show ?thesis using assms by (simp add: bumpBPS_exact)
qed

text \<open>
  A bump succeeds whenever the fees are valid and the ceilings are positive and consistent.
\<close>

definition caps_consistent :: "GasPolicy \<Rightarrow> bool" where
  "caps_consistent policy \<longleftrightarrow> validateCaps policy = None \<and>
     (\<forall>c d. MaxFeeCap policy = Some c \<and> MaxTipCap policy = Some d \<longrightarrow> d \<le> c) \<and>
     (MaxTipCap policy = None \<longrightarrow> MaxFeeCap policy = None)"

definition bump_ok :: "int64 \<Rightarrow> bool" where
  "bump_ok b \<longleftrightarrow> 0 \<le> sint b \<and> sint b \<le> 2 ^ 62"

lemma caps_consistent_le:
  assumes "caps_consistent policy" "t \<le> f"
  shows "capBig t (MaxTipCap policy) \<le> capBig f (MaxFeeCap policy)"
  using assms by (auto simp: caps_consistent_def capBig_def split: option.splits)

lemma BumpChecked_total:
  assumes "caps_consistent policy" "bump_ok (BumpBPS policy)" "fees_ok fees"
  obtains r where "BumpChecked policy fees = Inr r"
proof -
  from assms(3) obtain f t where ft: "MaxFeePerGas fees = Some f"
      "MaxPriorityFeePerGas fees = Some t" "0 < t" "t \<le> f"
    by (rule fees_okE)
  let ?f = "capBig (bumpBPS f (BumpBPS policy)) (MaxFeeCap policy)"
  let ?t = "capBig (bumpBPS t (BumpBPS policy)) (MaxTipCap policy)"
  have b: "0 \<le> sint (BumpBPS policy)" "sint (BumpBPS policy) \<le> 2 ^ 62"
    using assms(2) by (auto simp: bump_ok_def)
  have "0 < bumpBPS t (BumpBPS policy)"
    using bumpBPS_ge [OF b, of t] ft by simp
  then have "0 < ?t"
    using assms(1) by (auto simp: capBig_def caps_consistent_def validateCaps_None split: option.splits)
  moreover have "?t \<le> ?f"
    using bumpBPS_mono [OF b \<open>t \<le> f\<close>] by (rule caps_consistent_le [OF assms(1)])
  ultimately have "fees_ok \<lparr>MaxFeePerGas = Some ?f, MaxPriorityFeePerGas = Some ?t\<rparr>"
    by (simp add: fees_ok_iff)
  then show ?thesis
    using that assms ft by (simp add: BumpChecked_def caps_consistent_def fees_ok_def)
qed

lemma BumpChecked_ge:
  assumes "BumpChecked policy fees = Inr r" "bump_ok (BumpBPS policy)" "within_caps policy fees"
  shows "the (MaxFeePerGas fees) \<le> the (MaxFeePerGas r)"
    "the (MaxPriorityFeePerGas fees) \<le> the (MaxPriorityFeePerGas r)"
proof -
  note r = BumpChecked_Inr [OF assms(1)]
  obtain f t where ft: "MaxFeePerGas fees = Some f" "MaxPriorityFeePerGas fees = Some t"
      "0 < t" "t \<le> f"
    using r(2) by (rule fees_okE)
  have b: "0 \<le> sint (BumpBPS policy)" "sint (BumpBPS policy) \<le> 2 ^ 62"
    using assms(2) by (auto simp: bump_ok_def)
  have "f = capBig f (MaxFeeCap policy)" "t = capBig t (MaxTipCap policy)"
    using assms(3) ft by (auto simp: within_caps_def capBig_eq)
  moreover have "capBig f (MaxFeeCap policy) \<le> capBig (bumpBPS f (BumpBPS policy)) (MaxFeeCap policy)"
    "capBig t (MaxTipCap policy) \<le> capBig (bumpBPS t (BumpBPS policy)) (MaxTipCap policy)"
    using ft capBig_mono [OF bumpBPS_ge [OF b]] by simp_all
  ultimately show "the (MaxFeePerGas fees) \<le> the (MaxFeePerGas r)"
    "the (MaxPriorityFeePerGas fees) \<le> the (MaxPriorityFeePerGas r)"
    using r(4,5) ft by auto
qed

subsection \<open>The gas limit buffer\<close>

lemma bufferedGas_exact:
  assumes "0 \<le> sint b" "sint b \<le> 10000" "uint gas < 2 ^ 63"
  shows "uint (bufferedGas gas b) = uint gas + (uint gas * sint b) div 10000"
proof -
  have s: "sint (10000 + b) = 10000 + sint b"
    using assms(1,2) by (intro sint_add_10000) simp_all
  have g: "0 \<le> uint gas" "uint gas < 2 ^ 63"
    using assms(3) by simp_all
  have e: "uint gas * (10000 + sint b) = uint gas * sint b + uint gas * 10000"
    by (simp add: algebra_simps)
  have le: "(uint gas * sint b) div 10000 \<le> uint gas"
  proof -
    have "uint gas * sint b \<le> uint gas * 10000"
      using assms(2) g by (intro mult_left_mono) auto
    from zdiv_mono1 [OF this, of 10000] show ?thesis by simp
  qed
  have nn: "0 \<le> (uint gas * sint b) div 10000"
    using assms(1) g by (simp add: pos_imp_zdiv_nonneg_iff)
  show ?thesis
  proof (cases "sint b \<le> 0")
    case True
    with assms(1) have "sint b = 0" by simp
    then show ?thesis by (simp add: bufferedGas_def)
  next
    case False
    let ?v = "uint gas + (uint gas * sint b) div 10000"
    have "bufferedGas gas b = word_of_int ?v"
      using False by (simp add: bufferedGas_def s e)
    moreover have "take_bit 64 ?v = ?v"
      using le nn g by (intro take_bit_int_eq_self) auto
    ultimately show ?thesis
      by (simp only: uint_word_of_int_eq) simp
  qed
qed

subsection \<open>Properties\<close>

text \<open>C37: A replacement of usable fees always succeeds when the ceilings are positive, both set,
  consistent and the basis points in range, and its fees are exactly the old ones plus
  \<open>bps / 10000\<close> of them, rounded down, cut at the ceilings; they are usable again.\<close>

theorem fee_bump_exact:
  assumes "caps_consistent policy" "bump_ok (BumpBPS policy)"
    and "fees_ok \<lparr>MaxFeePerGas = Some f, MaxPriorityFeePerGas = Some t\<rparr>"
  shows "\<exists>r. BumpChecked policy \<lparr>MaxFeePerGas = Some f, MaxPriorityFeePerGas = Some t\<rparr> = Inr r \<and>
    fees_ok r \<and>
    MaxFeePerGas r = Some (capBig (f + (f * sint (BumpBPS policy)) div 10000) (MaxFeeCap policy)) \<and>
    MaxPriorityFeePerGas r =
      Some (capBig (t + (t * sint (BumpBPS policy)) div 10000) (MaxTipCap policy))"
proof -
  obtain r where "BumpChecked policy \<lparr>MaxFeePerGas = Some f, MaxPriorityFeePerGas = Some t\<rparr> = Inr r"
    using assms by (rule BumpChecked_total)
  with BumpChecked_Inr [OF this] assms(2) show ?thesis
    by (simp add: bumpBPS_exact bump_ok_def)
qed

theorem fee_bump_exact_witness:
  "\<exists>r. BumpChecked \<lparr>BumpBPS = 1250, MaxFeeCap = Some 100, MaxTipCap = Some 10\<rparr>
      \<lparr>MaxFeePerGas = Some 95, MaxPriorityFeePerGas = Some 8\<rparr> = Inr r \<and> fees_ok r \<and>
    MaxFeePerGas r = Some 100 \<and> MaxPriorityFeePerGas r = Some 9"
  using fee_bump_exact [of "\<lparr>BumpBPS = 1250, MaxFeeCap = Some 100, MaxTipCap = Some 10\<rparr>" 95 8]
  by (simp add: caps_consistent_def validateCaps_def bump_ok_def fees_ok_iff capBig_def)

text \<open>The gas limit of a transaction is the estimate plus the buffer in basis points, rounded
  down, with no wrap-around, for every estimate below \<open>2 ^ 63\<close> and every buffer the
  configuration accepts.\<close>

theorem gas_buffer_exact:
  assumes "0 \<le> sint b" "sint b \<le> 10000" "uint gas < 2 ^ 63"
  shows "uint (bufferedGas gas b) = uint gas + (uint gas * sint b) div 10000"
  using assms by (rule bufferedGas_exact)

theorem gas_buffer_exact_witness: "uint (bufferedGas 200001 2000) = 240001"
  using gas_buffer_exact [of 2000 200001] by simp

end
