(* ===== verification/Go_Strings.thy ===== *)
theory Go_Strings
  imports Prelude "HOL-Library.Sublist" "HOL-Library.List_Lexorder" "HOL-Library.Char_ord"
begin

text \<open>
  The string functions of the Go standard library that the program calls, on byte strings
  (\<open>string\<close> is a list of bytes, as a Go string is).

  \<open>runes\<close> decodes UTF-8 the way a \<open>range\<close> loop and \<open>[]rune(s)\<close> do: an invalid byte is
  the replacement rune with a width of one byte. \<open>TrimSpace\<close> and \<open>Fields\<close> work on runes
  and the Unicode white space that \<open>unicode.IsSpace\<close> knows. \<open>ReplaceAll\<close> replaces the
  leftmost non-overlapping occurrences; the program never calls it with an empty pattern.
  The order on strings (from the library's \<open>List_Lexorder\<close> and \<open>Char_ord\<close>) is the
  bytewise order of \<open>sort.Strings\<close> and of SQLite's binary collation.
\<close>

subsection \<open>Decimal numbers\<close>

definition digit_char :: "nat \<Rightarrow> char" where
  "digit_char d = char_of (48 + d)"

fun dec_nat :: "nat \<Rightarrow> string" where
  "dec_nat n = (if n < 10 then [digit_char n] else dec_nat (n div 10) @ [digit_char (n mod 10)])"

declare dec_nat.simps [simp del]

definition dec_int :: "int \<Rightarrow> string" where
  "dec_int i = (if i < 0 then CHR ''-'' # dec_nat (nat (- i)) else dec_nat (nat i))"

definition is_digit :: "char \<Rightarrow> bool" where
  "is_digit c \<longleftrightarrow> 48 \<le> (of_char c :: nat) \<and> of_char c \<le> (57 :: nat)"

definition digit_val :: "char \<Rightarrow> nat" where
  "digit_val c = of_char c - 48"

fun nat_of_digits :: "nat \<Rightarrow> string \<Rightarrow> nat" where
  "nat_of_digits acc [] = acc"
| "nat_of_digits acc (c # cs) = nat_of_digits (10 * acc + digit_val c) cs"

lemma digit_chars:
  "digit_char 0 = CHR ''0''" "digit_char 1 = CHR ''1''" "digit_char (Suc 0) = CHR ''1''"
  "digit_char 2 = CHR ''2''" "digit_char 3 = CHR ''3''" "digit_char 4 = CHR ''4''"
  "digit_char 5 = CHR ''5''" "digit_char 6 = CHR ''6''" "digit_char 7 = CHR ''7''"
  "digit_char 8 = CHR ''8''" "digit_char 9 = CHR ''9''"
  by (simp_all add: digit_char_def char_of_def bit_simps)

lemma of_char_digit_char: "d < 10 \<Longrightarrow> of_char (digit_char d) = 48 + d"
  by (simp add: digit_char_def)

lemma is_digit_digit_char [simp]: "d < 10 \<Longrightarrow> is_digit (digit_char d)"
  by (simp add: is_digit_def of_char_digit_char)

lemma digit_val_digit_char [simp]: "d < 10 \<Longrightarrow> digit_val (digit_char d) = d"
  by (simp add: digit_val_def of_char_digit_char)

lemma nat_of_digits_append:
  "nat_of_digits acc (xs @ ys) = nat_of_digits (nat_of_digits acc xs) ys"
  by (induction xs arbitrary: acc) auto

lemma nat_of_digits_eq:
  "nat_of_digits acc xs = acc * 10 ^ length xs + nat_of_digits 0 xs"
proof (induction xs arbitrary: acc)
  case (Cons x xs)
  show ?case
    using Cons.IH [of "10 * acc + digit_val x"] Cons.IH [of "digit_val x"]
    by (simp add: algebra_simps)
qed simp

lemma dec_nat_digits: "\<forall>c \<in> set (dec_nat n). is_digit c"
proof (induction n rule: dec_nat.induct)
  case (1 n)
  then show ?case by (subst dec_nat.simps) auto
qed

lemma dec_nat_nonempty [simp]: "dec_nat n \<noteq> []"
  by (subst dec_nat.simps) simp

lemma nat_of_digits_dec_nat: "nat_of_digits 0 (dec_nat n) = n"
proof (induction n rule: dec_nat.induct)
  case (1 n)
  then show ?case by (subst dec_nat.simps) (auto simp: nat_of_digits_append)
qed

lemma dec_nat_inject [simp]: "dec_nat m = dec_nat n \<longleftrightarrow> m = n"
  by (metis nat_of_digits_dec_nat)

lemma hyphen_not_digit [simp]: "\<not> is_digit CHR ''-''"
  by (simp add: is_digit_def)

lemma dec_nat_no_hyphen: "dec_nat n \<noteq> CHR ''-'' # xs"
  using dec_nat_digits [of n] by (auto simp: Ball_def)

lemma dec_int_inject [simp]: "dec_int i = dec_int j \<longleftrightarrow> i = j"
  by (auto simp: dec_int_def dec_nat_no_hyphen dec_nat_no_hyphen [symmetric])

definition pad_zero :: "nat \<Rightarrow> string \<Rightarrow> string" where
  "pad_zero w s = replicate (w - length s) CHR ''0'' @ s"

subsection \<open>UTF-8\<close>

definition cont_byte :: "nat \<Rightarrow> bool" where
  "cont_byte b \<longleftrightarrow> 0x80 \<le> b \<and> b \<le> 0xBF"

definition byte_at :: "string \<Rightarrow> nat \<Rightarrow> nat" where
  "byte_at s i = (if i < length s then of_char (s ! i) else 0)"

text \<open>
  One step of decoding a non-empty string: the rune and its width in bytes. A byte that
  starts no valid sequence is U+FFFD with width 1. \<open>byte_at\<close> past the end is 0, which is
  no continuation byte.
\<close>

definition decode_rune :: "string \<Rightarrow> nat \<times> nat" where
  "decode_rune s =
     (let b0 = byte_at s 0; b1 = byte_at s 1; b2 = byte_at s 2; b3 = byte_at s 3 in
      if b0 < 0x80 then (b0, 1)
      else if 0xC2 \<le> b0 \<and> b0 \<le> 0xDF \<and> cont_byte b1
        then ((b0 - 0xC0) * 64 + (b1 - 0x80), 2)
      else if 0xE0 \<le> b0 \<and> b0 \<le> 0xEF \<and> cont_byte b1 \<and> cont_byte b2
          \<and> (b0 = 0xE0 \<longrightarrow> 0xA0 \<le> b1) \<and> (b0 = 0xED \<longrightarrow> b1 \<le> 0x9F)
        then ((b0 - 0xE0) * 4096 + (b1 - 0x80) * 64 + (b2 - 0x80), 3)
      else if 0xF0 \<le> b0 \<and> b0 \<le> 0xF4 \<and> cont_byte b1 \<and> cont_byte b2 \<and> cont_byte b3
          \<and> (b0 = 0xF0 \<longrightarrow> 0x90 \<le> b1) \<and> (b0 = 0xF4 \<longrightarrow> b1 \<le> 0x8F)
        then ((b0 - 0xF0) * 262144 + (b1 - 0x80) * 4096 + (b2 - 0x80) * 64 + (b3 - 0x80), 4)
      else (0xFFFD, 1))"

lemma decode_rune_width: "0 < snd (decode_rune s)"
  by (simp add: decode_rune_def Let_def)

lemma decode_rune_pos [dest]: "(r, w) = decode_rune s \<Longrightarrow> 0 < w"
  using decode_rune_width [of s] by (metis snd_conv)

text \<open>The runes of a string, each with the bytes it was decoded from.\<close>

function runes :: "string \<Rightarrow> (nat \<times> string) list" where
  "runes s = (if s = [] then []
     else (case decode_rune s of (r, w) \<Rightarrow> (r, take w s) # runes (drop w s)))"
  by pat_completeness auto
termination
  by (relation "measure length") (auto dest!: decode_rune_pos)

declare runes.simps [simp del]

definition rune_bytes :: "(nat \<times> string) list \<Rightarrow> string" where
  "rune_bytes rs = concat (map snd rs)"

lemma runes_Nil [simp]: "runes [] = []"
  by (simp add: runes.simps)

lemma rune_bytes_runes [simp]: "rune_bytes (runes s) = s"
proof (induction s rule: runes.induct)
  case (1 s)
  then show ?case
    by (subst runes.simps) (auto simp: rune_bytes_def split: prod.splits)
qed

text \<open>\<open>string(runes)\<close> encodes code points again.\<close>

definition encode_rune :: "nat \<Rightarrow> string" where
  "encode_rune r =
     (if r < 0x80 then [char_of r]
      else if r < 0x800 then [char_of (0xC0 + r div 64), char_of (0x80 + r mod 64)]
      else if r \<le> 0xFFFF then [char_of (0xE0 + r div 4096), char_of (0x80 + r div 64 mod 64),
        char_of (0x80 + r mod 64)]
      else [char_of (0xF0 + r div 262144), char_of (0x80 + r div 4096 mod 64),
        char_of (0x80 + r div 64 mod 64), char_of (0x80 + r mod 64)])"

definition encode_runes :: "nat list \<Rightarrow> string" where
  "encode_runes rs = concat (map encode_rune rs)"

subsection \<open>White space\<close>

definition is_space :: "nat \<Rightarrow> bool" where
  "is_space r \<longleftrightarrow> r \<in> {0x09, 0x0A, 0x0B, 0x0C, 0x0D, 0x20, 0x85, 0xA0, 0x1680, 0x2028, 0x2029,
     0x202F, 0x205F, 0x3000} \<or> (0x2000 \<le> r \<and> r \<le> 0x200A)"

definition trim_left :: "(nat \<times> string) list \<Rightarrow> (nat \<times> string) list" where
  "trim_left = dropWhile (\<lambda>x. is_space (fst x))"

definition TrimSpace :: "string \<Rightarrow> string" where
  "TrimSpace s = rune_bytes (rev (trim_left (rev (trim_left (runes s)))))"

text \<open>\<open>strings.Fields\<close>: the maximal runs of runes that are not white space.\<close>

fun fields_loop :: "(nat \<times> string) list \<Rightarrow> string \<Rightarrow> string list" where
  "fields_loop [] cur = (if cur = [] then [] else [cur])"
| "fields_loop ((r, bs) # rest) cur =
     (if is_space r then (if cur = [] then fields_loop rest [] else cur # fields_loop rest [])
      else fields_loop rest (cur @ bs))"

definition Fields :: "string \<Rightarrow> string list" where
  "Fields s = fields_loop (runes s) []"

lemma fields_loop_nonempty:
  "\<forall>(r, bs) \<in> set rs. bs \<noteq> [] \<Longrightarrow> [] \<notin> set (fields_loop rs cur)"
  by (induction rs cur rule: fields_loop.induct) auto

lemma runes_bytes_nonempty: "(r, bs) \<in> set (runes s) \<Longrightarrow> bs \<noteq> []"
proof (induction s rule: runes.induct)
  case (1 s)
  then show ?case
    by (subst (asm) (2) runes.simps) (auto split: if_splits prod.splits dest: decode_rune_pos)
qed

lemma Fields_nonempty: "[] \<notin> set (Fields s)"
  unfolding Fields_def by (rule fields_loop_nonempty) (auto dest: runes_bytes_nonempty)

subsection \<open>Searching and replacing\<close>

function ReplaceAll :: "string \<Rightarrow> string \<Rightarrow> string \<Rightarrow> string" where
  "ReplaceAll s old new =
     (if old \<noteq> [] \<and> prefix old s then new @ ReplaceAll (drop (length old) s) old new
      else (case s of [] \<Rightarrow> [] | c # cs \<Rightarrow> c # ReplaceAll cs old new))"
  by pat_completeness auto
termination
  by (relation "measure (\<lambda>(s, old, new). length s)") (auto simp: prefix_def)

declare ReplaceAll.simps [simp del]

lemma ReplaceAll_Nil [simp]: "ReplaceAll [] old new = []"
  by (subst ReplaceAll.simps) (auto simp: prefix_def)

lemma ReplaceAll_char:
  "ReplaceAll s [c] new = concat (map (\<lambda>x. if x = c then new else [x]) s)"
proof (induction s)
  case (Cons a s)
  then show ?case by (subst ReplaceAll.simps) (auto simp: prefix_def)
qed simp

lemma ReplaceAll_head:
  "ReplaceAll s old (x # new) = s \<or> (\<exists>k t. ReplaceAll s old (x # new) = take k s @ x # t)"
proof (induction s)
  case (Cons c s)
  show ?case
  proof (cases "old \<noteq> [] \<and> prefix old (c # s)")
    case True
    then show ?thesis
      by (subst ReplaceAll.simps, subst ReplaceAll.simps)
        (auto intro: exI [of _ 0] simp del: ReplaceAll.simps)
  next
    case False
    then have "ReplaceAll (c # s) old (x # new) = c # ReplaceAll s old (x # new)"
      by (subst ReplaceAll.simps) auto
    moreover have "\<exists>k' t. c # take k s @ x # u = take k' (c # s) @ x # t" for k u
      by (intro exI [of _ "Suc k"] exI [of _ u]) simp
    ultimately show ?thesis using Cons by auto
  qed
qed simp

lemma sublist_char:
  assumes "c \<notin> set old"
  shows "sublist old (p @ c # q) \<longleftrightarrow> sublist old p \<or> sublist old q"
proof
  assume "sublist old (p @ c # q)"
  then obtain a b where ab: "p @ c # q = a @ old @ b" by (auto simp: sublist_def)
  show "sublist old p \<or> sublist old q"
  proof (cases "length (a @ old) \<le> length p")
    case True
    then have "take (length (a @ old)) p = a @ old"
      using ab by (metis append_assoc append_eq_append_conv_if append_eq_conv_conj)
    then have "p = a @ old @ drop (length (a @ old)) p" by (metis append_assoc append_take_drop_id)
    then show ?thesis by (metis sublist_appendI)
  next
    case False
    show ?thesis
    proof (cases "length p < length a")
      case True
      then have "q = drop (Suc (length p)) a @ old @ b"
        using arg_cong [OF ab, of "drop (Suc (length p))"] by simp
      then show ?thesis by (metis sublist_appendI)
    next
      case le: False
      have "length p - length a < length old" using False le by simp
      have "(p @ c # q) ! length p = c" by simp
      moreover have "(a @ old @ b) ! length p = old ! (length p - length a)"
        using \<open>length p - length a < length old\<close> le by (simp add: nth_append)
      ultimately have "c \<in> set old" using ab \<open>length p - length a < length old\<close> by (metis nth_mem)
      with assms show ?thesis by simp
    qed
  qed
next
  assume "sublist old p \<or> sublist old q"
  then show "sublist old (p @ c # q)"
    by (metis append_Cons append_Nil sublist_append_leftI sublist_append_rightI sublist_order.order_trans)
qed


lemma sublist_redaction:
  assumes "l \<notin> set old" "r \<notin> set old"
  shows "sublist old (p @ l # mid @ r # q) \<longleftrightarrow> sublist old p \<or> sublist old mid \<or> sublist old q"
  using sublist_char [OF assms(1), of p "mid @ r # q"] sublist_char [OF assms(2), of mid q] by simp

text \<open>
  Replacing by a text in brackets: a word without brackets occurs in the result only if it
  is in the inserted text, or it occurred before and is not the one that is replaced.
\<close>

lemma prefix_char:
  assumes "c \<notin> set w" "prefix w (p @ c # t)"
  shows "prefix w p"
proof -
  from assms(2) have "prefix w p \<or> (\<exists>u. w = p @ u \<and> prefix u (c # t))"
    by (auto simp: prefix_append)
  with assms(1) show ?thesis
    by (auto simp: prefix_Cons)
qed

lemma ReplaceAll_absent:
  assumes "l \<notin> set w" "r \<notin> set w" "\<not> sublist w mid" "w \<noteq> []"
    and "old = w \<or> \<not> sublist w s"
  shows "\<not> sublist w (ReplaceAll s old (l # mid @ [r]))"
  using assms(5)
proof (induction s rule: length_induct)
  case (1 s)
  show ?case
  proof (cases "old \<noteq> [] \<and> prefix old s")
    case True
    then have e: "ReplaceAll s old (l # mid @ [r]) =
        [] @ l # mid @ r # ReplaceAll (drop (length old) s) old (l # mid @ [r])"
      by (subst ReplaceAll.simps) simp
    have "length (drop (length old) s) < length s"
      using True by (cases s) (auto simp: prefix_def)
    moreover have "old = w \<or> \<not> sublist w (drop (length old) s)"
      using 1(2) by (metis append_take_drop_id sublist_append_leftI sublist_order.order_trans)
    ultimately have "\<not> sublist w (ReplaceAll (drop (length old) s) old (l # mid @ [r]))"
      using 1(1) by blast
    with assms(3,4) show ?thesis
      unfolding e sublist_redaction [OF assms(1,2)] by simp
  next
    case False
    show ?thesis
    proof (cases s)
      case Nil
      with assms(4) show ?thesis by simp
    next
      case (Cons c cs)
      let ?Y = "ReplaceAll cs old (l # mid @ [r])"
      have e: "ReplaceAll s old (l # mid @ [r]) = c # ?Y"
        using False Cons by (subst ReplaceAll.simps) auto
      have np: "\<not> prefix w (c # cs)"
        using 1(2) False Cons assms(4) by (auto dest: prefix_imp_sublist)
      have "\<not> sublist w ?Y"
        using 1 Cons by (auto simp: sublist_Cons_right)
      moreover have "\<not> prefix w (c # ?Y)"
      proof
        assume a: "prefix w (c # ?Y)"
        from ReplaceAll_head [of cs old l "mid @ [r]"] consider "?Y = cs"
          | k t where "?Y = take k cs @ l # t" by auto
        then show False
        proof cases
          case 1
          with a np show False by simp
        next
          case 2
          with a have "prefix w ((c # take k cs) @ l # t)" by simp
          then have "prefix w (c # take k cs)" by (rule prefix_char [OF assms(1)])
          then have "prefix w (c # cs)"
            by (metis append_Cons append_take_drop_id prefix_def prefix_order.order_trans)
          with np show False by simp
        qed
      qed
      ultimately show ?thesis unfolding e by (simp add: sublist_Cons_right)
    qed
  qed
qed

text \<open>\<open>strings.Split\<close> with a one-byte separator.\<close>

fun split_loop :: "char \<Rightarrow> string \<Rightarrow> string \<Rightarrow> string list" where
  "split_loop sep cur [] = [cur]"
| "split_loop sep cur (c # cs) =
     (if c = sep then cur # split_loop sep [] cs else split_loop sep (cur @ [c]) cs)"

definition Split :: "string \<Rightarrow> char \<Rightarrow> string list" where
  "Split s sep = split_loop sep [] s"

lemma split_loop_no_sep:
  "sep \<notin> set cur \<Longrightarrow> \<forall>f \<in> set (split_loop sep cur s). sep \<notin> set f"
  by (induction sep cur s rule: split_loop.induct) auto

subsection \<open>ParseInt\<close>

text \<open>
  \<open>strconv.ParseInt(s, 10, 64)\<close>: an optional sign, then at least one digit; a value out of
  the range of int64 is an error. The error is \<open>None\<close>: the program replaces it.
\<close>

definition ParseInt :: "string \<Rightarrow> int option" where
  "ParseInt s =
     (let (neg, ds) = (case s of
          c # cs \<Rightarrow> if c = CHR ''+'' then (False, cs) else if c = CHR ''-'' then (True, cs)
                    else (False, s)
        | [] \<Rightarrow> (False, []))
      in if ds = [] \<or> \<not> list_all is_digit ds then None
         else let n = int (nat_of_digits 0 ds); v = (if neg then - n else n)
              in if - (2 ^ 63) \<le> v \<and> v \<le> 2 ^ 63 - 1 then Some v else None)"

lemma ParseInt_range: "ParseInt s = Some v \<Longrightarrow> - (2 ^ 63) \<le> v \<and> v < 2 ^ 63"
  by (auto simp: ParseInt_def Let_def split: if_splits prod.splits)

subsection \<open>Quoting\<close>

text \<open>
  \<open>strconv.Quote\<close> (the \<open>%q\<close> verb): exact on ASCII; a valid rune beyond ASCII is written as
  it is, and a byte that is no UTF-8 as \<open>\x\<close> and two digits.
\<close>

definition low_hex :: "nat \<Rightarrow> char" where
  "low_hex d = (if d < 10 then char_of (48 + d) else char_of (87 + d))"

definition quote_rune :: "nat \<times> string \<Rightarrow> string" where
  "quote_rune rb =
     (case rb of (r, bs) \<Rightarrow>
        if r = 34 \<or> r = 92 then [CHR 0x5C, char_of r]
        else if r = 7 then [CHR 0x5C, CHR ''a'']
        else if r = 8 then [CHR 0x5C, CHR ''b'']
        else if r = 12 then [CHR 0x5C, CHR ''f'']
        else if r = 10 then [CHR 0x5C, CHR ''n'']
        else if r = 13 then [CHR 0x5C, CHR ''r'']
        else if r = 9 then [CHR 0x5C, CHR ''t'']
        else if r = 11 then [CHR 0x5C, CHR ''v'']
        else if r < 32 \<or> r = 127 then CHR 0x5C # CHR ''x'' # [low_hex (r div 16), low_hex (r mod 16)]
        else if r = 0xFFFD \<and> length bs = 1
          then CHR 0x5C # CHR ''x'' # concat (map (\<lambda>c. [low_hex (of_char c div 16), low_hex (of_char c mod 16)]) bs)
        else bs)"

definition Quote :: "string \<Rightarrow> string" where
  "Quote s = CHR 0x22 # concat (map quote_rune (runes s)) @ [CHR 0x22]"

end
