(* ===== verification/Go_Time.thy ===== *)
theory Go_Time
  imports Go_Strings Core_Types
begin

text \<open>
  The part of package time that the program uses to write instants down and read them back:
  \<open>t.UTC().Format(time.RFC3339Nano)\<close>, \<open>time.Parse(time.RFC3339Nano, s)\<close> and the layout of
  the withdrawal attempt identifiers.

  An instant is a number of nanoseconds since 1970-01-01T00:00:00Z. The Gregorian date of a
  day number is computed by splitting off 400-, 100-, 4- and 1-year cycles; \<open>days_of_date\<close>
  is its inverse, so no two days share a date and the written form of an instant determines
  it (for the years 0 to 9999, which RFC 3339 can write).
\<close>

subsection \<open>The calendar\<close>

definition leap_year :: "int \<Rightarrow> bool" where
  "leap_year y \<longleftrightarrow> y mod 4 = 0 \<and> (y mod 100 \<noteq> 0 \<or> y mod 400 = 0)"

text \<open>Days before the month of a common year, months counted from 1.\<close>

definition days_before :: "bool \<Rightarrow> int \<Rightarrow> int" where
  "days_before lp m =
     (if m \<le> 1 then 0 else if m = 2 then 31
      else (if lp then 1 else 0) +
        (if m = 3 then 59 else if m = 4 then 90 else if m = 5 then 120 else if m = 6 then 151
         else if m = 7 then 181 else if m = 8 then 212 else if m = 9 then 243
         else if m = 10 then 273 else if m = 11 then 304 else if m = 12 then 334 else 365))"

definition month_of :: "bool \<Rightarrow> int \<Rightarrow> int" where
  "month_of lp yday =
     (if yday < days_before lp 2 then 1 else if yday < days_before lp 3 then 2
      else if yday < days_before lp 4 then 3 else if yday < days_before lp 5 then 4
      else if yday < days_before lp 6 then 5 else if yday < days_before lp 7 then 6
      else if yday < days_before lp 8 then 7 else if yday < days_before lp 9 then 8
      else if yday < days_before lp 10 then 9 else if yday < days_before lp 11 then 10
      else if yday < days_before lp 12 then 11 else 12)"

text \<open>Year and day of the year (both from 0, the year counted from year 1) of a day number
  counted from 0001-01-01.\<close>

definition year_yday :: "int \<Rightarrow> int \<times> int" where
  "year_yday d =
     (let n400 = d div 146097; d = d mod 146097;
          n100 = min 3 (d div 36524); d = d - 36524 * n100;
          n4 = d div 1461; d = d mod 1461;
          n1 = min 3 (d div 365); d = d - 365 * n1
      in (400 * n400 + 100 * n100 + 4 * n4 + n1, d))"

definition epoch_day :: int where
  "epoch_day = 719162"

definition date_of_days :: "int \<Rightarrow> int \<times> int \<times> int" where
  "date_of_days d =
     (case year_yday (d + epoch_day) of (y, yd) \<Rightarrow>
        let m = month_of (leap_year (y + 1)) yd
        in (y + 1, m, yd - days_before (leap_year (y + 1)) m + 1))"

definition days_of_date :: "int \<Rightarrow> int \<Rightarrow> int \<Rightarrow> int" where
  "days_of_date y m d =
     365 * (y - 1) + (y - 1) div 4 - (y - 1) div 100 + (y - 1) div 400
       + days_before (leap_year y) m + (d - 1) - epoch_day"

definition days_in_month :: "int \<Rightarrow> int \<Rightarrow> int" where
  "days_in_month y m = days_before (leap_year y) (m + 1) - days_before (leap_year y) m"

lemma epoch_is_1970: "date_of_days 0 = (1970, 1, 1)"
  by code_simp

text \<open>Cutting \<open>c\<close>-day cycles off \<open>r\<close> days, at most three of them.\<close>

lemma cut_cycles:
  fixes r c n :: int
  assumes "0 < c" "0 \<le> r" "r \<le> 4 * c" "n = min 3 (r div c)"
  shows "0 \<le> n" "n \<le> 3" "0 \<le> r - c * n" "r - c * n \<le> c" "n < 3 \<longrightarrow> r - c * n < c"
proof -
  have q: "0 \<le> r div c" "r = c * (r div c) + r mod c" "0 \<le> r mod c" "r mod c < c"
    using assms by (simp_all add: pos_imp_zdiv_nonneg_iff)
  show "0 \<le> n" "n \<le> 3" using assms(4) q(1) by (simp_all add: min_def)
  show "n < 3 \<longrightarrow> r - c * n < c"
  proof
    assume "n < 3"
    then have "n = r div c" using assms(4) by (simp add: min_def split: if_splits)
    then show "r - c * n < c" using q unfolding \<open>n = r div c\<close> by linarith
  qed
  have "c * n \<le> c * (r div c)"
    using assms by (intro mult_left_mono) auto
  then show "0 \<le> r - c * n" using q by linarith
  show "r - c * n \<le> c"
  proof (cases "n < 3")
    case True
    then have "n = r div c" using assms(4) by (simp add: min_def split: if_splits)
    then show ?thesis using q unfolding \<open>n = r div c\<close> by linarith
  next
    case False
    then have "n = 3" using assms(4) by simp
    then show ?thesis using assms(3) by simp
  qed
qed

lemma year_yday_inverse:
  assumes "year_yday d = (y, yd)"
  shows "d = 365 * y + y div 4 - y div 100 + y div 400 + yd"
    "0 \<le> yd" "yd < (if leap_year (y + 1) then 366 else 365)"
proof -
  define n400 where "n400 = d div 146097"
  define r400 where "r400 = d mod 146097"
  define n100 where "n100 = min 3 (r400 div 36524)"
  define r100 where "r100 = r400 - 36524 * n100"
  define n4 where "n4 = r100 div 1461"
  define r4 where "r4 = r100 mod 1461"
  define n1 where "n1 = min 3 (r4 div 365)"
  have y: "y = 400 * n400 + 100 * n100 + 4 * n4 + n1" and yd: "yd = r4 - 365 * n1"
    using assms unfolding year_yday_def Let_def n400_def r400_def n100_def r100_def n4_def r4_def
      n1_def by (simp_all only: prod.inject)
  have d: "d = 146097 * n400 + r400" "0 \<le> r400" "r400 < 146097"
    by (simp_all add: n400_def r400_def)
  have n100: "0 \<le> n100" "n100 \<le> 3" "0 \<le> r100" "r100 \<le> 36524" "n100 < 3 \<longrightarrow> r100 < 36524"
    using cut_cycles [of 36524 r400 n100] d(2,3) by (simp_all add: n100_def r100_def)
  have n4: "r100 = 1461 * n4 + r4" "0 \<le> r4" "r4 < 1461" "0 \<le> n4" "n4 \<le> 24"
    using n100(3,4) by (simp_all add: n4_def r4_def pos_imp_zdiv_nonneg_iff)
  have n1: "0 \<le> n1" "n1 \<le> 3" "0 \<le> yd" "yd \<le> 365" "n1 < 3 \<longrightarrow> yd < 365"
    using cut_cycles [of 365 r4 n1] n4(2,3) by (simp_all add: n1_def yd)
  have q4: "y div 4 = 100 * n400 + 25 * n100 + n4"
    using y n1(1,2) by (intro int_div_pos_eq [where r = n1]) simp_all
  have q100: "y div 100 = 4 * n400 + n100"
    using y n1(1,2) n4(4,5) by (intro int_div_pos_eq [where r = "4 * n4 + n1"]) simp_all
  have q400: "y div 400 = n400"
    using y n1(1,2) n4(4,5) n100(1,2)
    by (intro int_div_pos_eq [where r = "100 * n100 + 4 * n4 + n1"]) simp_all
  show "d = 365 * y + y div 4 - y div 100 + y div 400 + yd"
    using d(1) n4(1) yd q4 q100 q400 y r100_def by linarith
  show "0 \<le> yd" by (rule n1)
  have "yd = 365 \<Longrightarrow> leap_year (y + 1)"
  proof -
    assume 365: "yd = 365"
    then have n1: "n1 = 3" using n1(2,5) by linarith
    have "n4 < 24 \<or> n100 = 3"
    proof (rule ccontr)
      assume "\<not> (n4 < 24 \<or> n100 = 3)"
      then have "n4 = 24" "n100 < 3" using n4(5) n100(2) by simp_all
      then have "r100 < 36524" using n100(5) by blast
      moreover have "r4 = 1460" using yd 365 n1 by simp
      ultimately show False using n4(1) \<open>n4 = 24\<close> by simp
    qed
    have "y + 1 = 4 * (100 * n400 + 25 * n100 + n4 + 1)" using y n1 by simp
    then have "(y + 1) mod 4 = 0" by (simp only: mod_mult_self1_is_0)
    show "leap_year (y + 1)"
    proof (cases "n4 = 24")
      case True
      then have "n100 = 3" using \<open>n4 < 24 \<or> n100 = 3\<close> by simp
      then have "y + 1 = 400 * (n400 + 1)" using y n1 True by simp
      then have "(y + 1) mod 400 = 0" by (simp only: mod_mult_self1_is_0)
      then show ?thesis using \<open>(y + 1) mod 4 = 0\<close> by (simp add: leap_year_def)
    next
      case False
      then have small: "0 < 4 * n4 + n1 + 1" "4 * n4 + n1 + 1 < 100" using n4 n1 by auto
      have "y + 1 = (4 * n4 + n1 + 1) + 100 * (4 * n400 + n100)" using y by simp
      then have "(y + 1) mod 100 = (4 * n4 + n1 + 1) mod 100"
        by (simp only: mod_mult_self2)
      also have "\<dots> = 4 * n4 + n1 + 1"
        using small by simp
      finally have "(y + 1) mod 100 \<noteq> 0" using small by simp
      then show ?thesis using \<open>(y + 1) mod 4 = 0\<close> n4 n1 by (simp add: leap_year_def)
    qed
  qed
  then show "yd < (if leap_year (y + 1) then 366 else 365)"
    using n1(4) by (cases "yd = 365") simp_all
qed

lemma days_before_simps:
  "days_before lp 1 = 0" "days_before lp 2 = 31"
  "days_before lp 3 = (if lp then 60 else 59)" "days_before lp 4 = (if lp then 91 else 90)"
  "days_before lp 5 = (if lp then 121 else 120)" "days_before lp 6 = (if lp then 152 else 151)"
  "days_before lp 7 = (if lp then 182 else 181)" "days_before lp 8 = (if lp then 213 else 212)"
  "days_before lp 9 = (if lp then 244 else 243)" "days_before lp 10 = (if lp then 274 else 273)"
  "days_before lp 11 = (if lp then 305 else 304)" "days_before lp 12 = (if lp then 335 else 334)"
  "days_before lp 13 = (if lp then 366 else 365)"
  by (simp_all add: days_before_def)

lemma month_of_bounds:
  assumes "0 \<le> yd" "yd < (if lp then 366 else 365)"
  shows "1 \<le> month_of lp yd" "month_of lp yd \<le> 12"
    "days_before lp (month_of lp yd) \<le> yd" "yd < days_before lp (month_of lp yd + 1)"
  using assms by (auto simp: month_of_def days_before_simps)

lemma date_of_days_inverse:
  assumes "date_of_days n = (y, m, d)"
  shows "days_of_date y m d = n" "1 \<le> m" "m \<le> 12" "1 \<le> d" "d \<le> days_in_month y m"
proof -
  obtain y0 yd where yy: "year_yday (n + epoch_day) = (y0, yd)"
    by (cases "year_yday (n + epoch_day)")
  note inv = year_yday_inverse [OF yy]
  have eqs: "y = y0 + 1" "m = month_of (leap_year (y0 + 1)) yd"
    "d = yd - days_before (leap_year (y0 + 1)) m + 1"
    using assms yy by (auto simp: date_of_days_def Let_def)
  note mb = month_of_bounds [OF inv(2,3)]
  show "days_of_date y m d = n"
    using inv(1) eqs by (simp add: days_of_date_def)
  show "1 \<le> m" "m \<le> 12" "1 \<le> d" "d \<le> days_in_month y m"
    using mb eqs by (auto simp: days_in_month_def)
qed

subsection \<open>Zero-padded fields\<close>

definition field :: "nat \<Rightarrow> int \<Rightarrow> string" where
  "field w n = pad_zero w (dec_nat (nat n))"

lemma nat_of_digits_zeros [simp]: "nat_of_digits 0 (replicate k CHR ''0'' @ s) = nat_of_digits 0 s"
  by (induction k) (auto simp: digit_val_def)

lemma length_dec_nat: "n < 10 ^ w \<Longrightarrow> 0 < w \<Longrightarrow> length (dec_nat n) \<le> w"
proof (induction w arbitrary: n)
  case (Suc w)
  show ?case
  proof (cases "n < 10")
    case True
    then show ?thesis by (simp add: dec_nat.simps)
  next
    case False
    then have "0 < w" using Suc.prems(1) by (cases w) auto
    moreover have "n div 10 < 10 ^ w" using Suc.prems(1) by auto
    ultimately show ?thesis
      using Suc.IH [of "n div 10"] False by (subst dec_nat.simps) simp
  qed
qed simp

lemma field_length [simp]: "0 < w \<Longrightarrow> n < 10 ^ w \<Longrightarrow> length (field w n) = w"
proof -
  assume "0 < w" "n < 10 ^ w"
  then have "nat n < 10 ^ w" by (simp add: nat_less_iff)
  then show ?thesis
    using length_dec_nat [of "nat n" w] \<open>0 < w\<close> by (simp add: field_def pad_zero_def)
qed

lemma field_value [simp]: "0 \<le> n \<Longrightarrow> int (nat_of_digits 0 (field w n)) = n"
  by (simp add: field_def pad_zero_def nat_of_digits_dec_nat)

lemma field_digits: "list_all is_digit (field w n)"
  using dec_nat_digits [of "nat n"]
  by (auto simp: field_def pad_zero_def list_all_iff is_digit_def)

lemma field_inject: "0 \<le> m \<Longrightarrow> 0 \<le> n \<Longrightarrow> field w m = field w n \<Longrightarrow> m = n"
  by (metis field_value)

subsection \<open>Instants\<close>

text \<open>Day number, hour, minute, second and nanosecond of an instant, in UTC.\<close>

definition ns_per_s :: int where "ns_per_s = 1000000000"

definition day_of :: "Time \<Rightarrow> int" where "day_of t = t div ns_per_s div 86400"
definition second_of_day :: "Time \<Rightarrow> int" where "second_of_day t = t div ns_per_s mod 86400"
definition nanos_of :: "Time \<Rightarrow> int" where "nanos_of t = t mod ns_per_s"
definition hour_of :: "Time \<Rightarrow> int" where "hour_of t = second_of_day t div 3600"
definition minute_of :: "Time \<Rightarrow> int" where "minute_of t = second_of_day t mod 3600 div 60"
definition second_of :: "Time \<Rightarrow> int" where "second_of t = second_of_day t mod 60"

definition instant_of :: "int \<Rightarrow> int \<Rightarrow> int \<Rightarrow> int \<Rightarrow> int \<Rightarrow> Time" where
  "instant_of day h mi s n = (day * 86400 + h * 3600 + mi * 60 + s) * ns_per_s + n"

definition year_of :: "Time \<Rightarrow> int" where
  "year_of t = fst (date_of_days (day_of t))"

text \<open>The instants with a four-digit year, those RFC 3339 can write.\<close>

definition writable :: "Time \<Rightarrow> bool" where
  "writable t \<longleftrightarrow> 0 \<le> year_of t \<and> year_of t \<le> 9999"

lemma clock_ranges:
  "0 \<le> hour_of t" "hour_of t < 24" "0 \<le> minute_of t" "minute_of t < 60"
  "0 \<le> second_of t" "second_of t < 60" "0 \<le> nanos_of t" "nanos_of t < 1000000000"
proof -
  have s: "0 \<le> second_of_day t" "second_of_day t < 86400"
    by (simp_all add: second_of_day_def)
  show "0 \<le> hour_of t" "hour_of t < 24"
    using s by (simp_all add: hour_of_def pos_imp_zdiv_nonneg_iff)
  have "0 \<le> second_of_day t mod 3600" "second_of_day t mod 3600 < 3600" by simp_all
  then show "0 \<le> minute_of t" "minute_of t < 60"
    by (simp_all add: minute_of_def pos_imp_zdiv_nonneg_iff)
  show "0 \<le> second_of t" "second_of t < 60" "0 \<le> nanos_of t" "nanos_of t < 1000000000"
    by (simp_all add: second_of_def nanos_of_def ns_per_s_def)
qed

lemma instant_of_parts:
  "instant_of (day_of t) (hour_of t) (minute_of t) (second_of t) (nanos_of t) = t"
proof -
  let ?s = "t div ns_per_s"
  have "?s mod 86400 = ?s mod 86400 div 3600 * 3600 + ?s mod 86400 mod 3600"
    by simp
  moreover have "?s mod 86400 mod 3600 = ?s mod 86400 mod 3600 div 60 * 60 + ?s mod 86400 mod 60"
    using div_mult_mod_eq [of "?s mod 86400 mod 3600" 60] by (simp add: mod_mod_cancel)
  ultimately have "?s mod 86400 = hour_of t * 3600 + minute_of t * 60 + second_of t"
    unfolding hour_of_def minute_of_def second_of_def second_of_day_def by linarith
  moreover have "?s = day_of t * 86400 + ?s mod 86400"
    by (simp add: day_of_def)
  ultimately have "?s = day_of t * 86400 + hour_of t * 3600 + minute_of t * 60 + second_of t"
    by linarith
  then show ?thesis
    unfolding instant_of_def nanos_of_def by (metis div_mult_mod_eq)
qed

subsection \<open>The layouts\<close>

definition year_text :: "int \<Rightarrow> string" where
  "year_text y = (if y < 0 then CHR ''-'' # field 4 (- y) else field 4 y)"

definition trim_zeros :: "string \<Rightarrow> string" where
  "trim_zeros s = rev (dropWhile (\<lambda>c. c = CHR ''0'') (rev s))"

definition frac_text :: "int \<Rightarrow> string" where
  "frac_text n = (if n = 0 then [] else CHR ''.'' # trim_zeros (field 9 n))"

text \<open>\<open>t.UTC().Format(time.RFC3339Nano)\<close>\<close>

definition RFC3339Nano :: "Time \<Rightarrow> string" where
  "RFC3339Nano t =
     (case date_of_days (day_of t) of (y, m, d) \<Rightarrow>
        year_text y @ ''-'' @ field 2 m @ ''-'' @ field 2 d @ ''T'' @
        field 2 (hour_of t) @ '':'' @ field 2 (minute_of t) @ '':'' @ field 2 (second_of t) @
        frac_text (nanos_of t) @ ''Z'')"

text \<open>\<open>t.UTC().Format("20060102T150405.000000000Z0700")\<close>\<close>

definition attempt_time_text :: "Time \<Rightarrow> string" where
  "attempt_time_text t =
     (case date_of_days (day_of t) of (y, m, d) \<Rightarrow>
        year_text y @ field 2 m @ field 2 d @ ''T'' @
        field 2 (hour_of t) @ field 2 (minute_of t) @ field 2 (second_of t) @
        ''.'' @ field 9 (nanos_of t) @ ''Z'')"

text \<open>
  \<open>time.Parse(time.RFC3339Nano, s)\<close> on the full-width UTC form that \<open>Format\<close> writes; the
  error text is not used by the program and is dropped (\<open>None\<close>).
\<close>

definition parse_field :: "string \<Rightarrow> int option" where
  "parse_field s = (if list_all is_digit s then Some (int (nat_of_digits 0 s)) else None)"

definition parse_frac :: "string \<Rightarrow> int option" where
  "parse_frac s =
     (if s = ''Z'' then Some 0
      else if take 1 s = ''.'' \<and> length s \<ge> 3 \<and> last s = CHR ''Z''
        then (let ds = take 9 (butlast (tl s))
              in if list_all is_digit (butlast (tl s))
                 then Some (int (nat_of_digits 0 ds) * 10 ^ (9 - length ds)) else None)
      else None)"

definition parse_RFC3339 :: "string \<Rightarrow> Time option" where
  "parse_RFC3339 s =
     (if length s < 20 \<or> take 1 (drop 4 s) \<noteq> ''-'' \<or> take 1 (drop 7 s) \<noteq> ''-''
         \<or> take 1 (drop 10 s) \<noteq> ''T'' \<or> take 1 (drop 13 s) \<noteq> '':'' \<or> take 1 (drop 16 s) \<noteq> '':''
      then None
      else (case (parse_field (take 4 s), parse_field (take 2 (drop 5 s)),
                  parse_field (take 2 (drop 8 s)), parse_field (take 2 (drop 11 s)),
                  parse_field (take 2 (drop 14 s)), parse_field (take 2 (drop 17 s)),
                  parse_frac (drop 19 s)) of
              (Some y, Some m, Some d, Some h, Some mi, Some sec, Some n) \<Rightarrow>
                if 1 \<le> m \<and> m \<le> 12 \<and> 1 \<le> d \<and> d \<le> days_in_month y m \<and> h < 24 \<and> mi < 60 \<and> sec < 60
                then Some (instant_of (days_of_date y m d) h mi sec n) else None
            | _ \<Rightarrow> None))"

subsection \<open>Writing an instant down and reading it back\<close>

lemma days_in_month_le: "days_in_month y m \<le> 31"
  by (auto simp: days_in_month_def days_before_def)

lemma trim_zeros_append: "\<exists>k. s = trim_zeros s @ replicate k CHR ''0''"
proof -
  let ?z = "takeWhile (\<lambda>c. c = CHR ''0'') (rev s)"
  have "?z = replicate (length ?z) CHR ''0''"
    by (rule replicate_eqI) (auto dest: set_takeWhileD)
  moreover have "s = trim_zeros s @ rev ?z"
    unfolding trim_zeros_def by (metis rev_append rev_rev_ident takeWhile_dropWhile_id)
  ultimately show ?thesis by (metis rev_replicate)
qed

lemma nat_of_digits_shift: "nat_of_digits acc (replicate k CHR ''0'') = acc * 10 ^ k"
  by (induction k arbitrary: acc) (auto simp: digit_val_def)

lemma parse_frac_text:
  assumes "0 \<le> n" "n < 1000000000"
  shows "parse_frac (frac_text n @ ''Z'') = Some n"
proof (cases "n = 0")
  case False
  let ?f = "field 9 n"
  obtain k where k: "?f = trim_zeros ?f @ replicate k CHR ''0''"
    using trim_zeros_append by blast
  have len: "length ?f = 9" using assms by simp
  then have lt: "length (trim_zeros ?f) + k = 9" using arg_cong [OF k, of length] by simp
  have digs: "list_all is_digit (trim_zeros ?f)"
    using field_digits [of 9 n] k by (metis list_all_append)
  have val: "n = int (nat_of_digits 0 (trim_zeros ?f)) * 10 ^ k"
  proof -
    have "nat_of_digits 0 ?f = nat_of_digits 0 (trim_zeros ?f) * 10 ^ k"
      by (subst k) (simp add: nat_of_digits_append nat_of_digits_shift)
    then show ?thesis using field_value [OF assms(1), of 9] by simp
  qed
  have "trim_zeros ?f \<noteq> []"
    using val False by auto
  then have "3 \<le> length (CHR ''.'' # trim_zeros ?f @ ''Z'')"
    by (cases "trim_zeros ?f") auto
  moreover have "9 - length (trim_zeros ?f) = k" using lt by simp
  ultimately show ?thesis
    using False digs lt val [symmetric]
    by (simp add: frac_text_def parse_frac_def butlast_append Let_def)
qed (simp add: frac_text_def parse_frac_def)

lemma date_of_writable:
  assumes "writable t" "date_of_days (day_of t) = (y, m, d)"
  shows "days_of_date y m d = day_of t" "0 \<le> y" "y < 10000" "1 \<le> m" "m \<le> 12" "1 \<le> d"
    "d \<le> days_in_month y m" "d < 100"
  using date_of_days_inverse [OF assms(2)] assms days_in_month_le [of y m]
  by (auto simp: writable_def year_of_def)

text \<open>The written form, as five separators between digit fields of fixed width.\<close>

lemma parse_fixed_form:
  assumes "list_all is_digit Y" "list_all is_digit M" "list_all is_digit D"
    "list_all is_digit H" "list_all is_digit I" "list_all is_digit S"
    "length Y = 4" "length M = 2" "length D = 2" "length H = 2" "length I = 2" "length S = 2"
    "parse_frac F = Some n" "F \<noteq> []"
    "int (nat_of_digits 0 Y) = y" "int (nat_of_digits 0 M) = m" "int (nat_of_digits 0 D) = d"
    "int (nat_of_digits 0 H) = h" "int (nat_of_digits 0 I) = i" "int (nat_of_digits 0 S) = s"
    "1 \<le> m" "m \<le> 12" "1 \<le> d" "d \<le> days_in_month y m" "h < 24" "i < 60" "s < 60"
  shows "parse_RFC3339
      (Y @ ''-'' @ M @ ''-'' @ D @ ''T'' @ H @ '':'' @ I @ '':'' @ S @ F) =
    Some (instant_of (days_of_date y m d) h i s n)"
  using assms by (cases F) (simp_all add: parse_RFC3339_def parse_field_def)

lemma parse_RFC3339Nano:
  assumes "writable t"
  shows "parse_RFC3339 (RFC3339Nano t) = Some t"
proof -
  obtain y m d where ymd: "date_of_days (day_of t) = (y, m, d)"
    by (cases "date_of_days (day_of t)")
  note w = date_of_writable [OF assms ymd]
  note c = clock_ranges [of t]
  have "parse_RFC3339 (RFC3339Nano t) = parse_RFC3339
      (field 4 y @ ''-'' @ field 2 m @ ''-'' @ field 2 d @ ''T'' @ field 2 (hour_of t) @ '':'' @
       field 2 (minute_of t) @ '':'' @ field 2 (second_of t) @ (frac_text (nanos_of t) @ ''Z''))"
    using w by (simp add: RFC3339Nano_def ymd year_text_def)
  also have "\<dots> = Some (instant_of (days_of_date y m d) (hour_of t) (minute_of t) (second_of t)
      (nanos_of t))"
    using w c by (intro parse_fixed_form) (simp_all add: field_digits parse_frac_text)
  finally show ?thesis using w instant_of_parts [of t] by simp
qed

lemma RFC3339Nano_inject:
  assumes "writable t" "writable u" "RFC3339Nano t = RFC3339Nano u"
  shows "t = u"
  using assms by (metis parse_RFC3339Nano option.inject)

lemma attempt_time_inject:
  assumes "writable t" "writable u" "attempt_time_text t @ a = attempt_time_text u @ b"
  shows "t = u \<and> a = b"
proof -
  obtain y m d where t: "date_of_days (day_of t) = (y, m, d)"
    by (cases "date_of_days (day_of t)")
  obtain y' m' d' where u: "date_of_days (day_of u) = (y', m', d')"
    by (cases "date_of_days (day_of u)")
  note w = date_of_writable [OF assms(1) t]
  note w' = date_of_writable [OF assms(2) u]
  note c = clock_ranges [of t]
  note c' = clock_ranges [of u]
  have "field 4 y = field 4 y' \<and> field 2 m = field 2 m' \<and> field 2 d = field 2 d' \<and>
      field 2 (hour_of t) = field 2 (hour_of u) \<and> field 2 (minute_of t) = field 2 (minute_of u) \<and>
      field 2 (second_of t) = field 2 (second_of u) \<and>
      field 9 (nanos_of t) = field 9 (nanos_of u) \<and> a = b"
    using assms(3) w w' c c' by (simp add: attempt_time_text_def t u year_text_def)
  then have "y = y'" "m = m'" "d = d'" "hour_of t = hour_of u" "minute_of t = minute_of u"
    "second_of t = second_of u" "nanos_of t = nanos_of u" "a = b"
    using w w' c c' by (auto dest!: field_inject [rotated 2])
  then show ?thesis
    using w(1) w'(1) instant_of_parts [of t] instant_of_parts [of u] by simp
qed

text \<open>
  Strings compare bytewise, and a trimmed fraction ends in a \<open>Z\<close> that is larger than any
  digit: a later instant of the same second can be written as a smaller string.
\<close>

lemmas time_eval = RFC3339Nano_def date_of_days_def year_yday_def Let_def day_of_def hour_of_def
  minute_of_def second_of_def second_of_day_def nanos_of_def ns_per_s_def epoch_day_def
  leap_year_def month_of_def days_before_def year_text_def field_def pad_zero_def dec_nat.simps
  digit_chars frac_text_def trim_zeros_def

lemma RFC3339Nano_tenth: "RFC3339Nano 1778288523100000000 = ''2026-05-09T01:02:03.1Z''"
  by (simp add: time_eval)

lemma RFC3339Nano_later: "RFC3339Nano 1778288523150000000 = ''2026-05-09T01:02:03.15Z''"
  by (simp add: time_eval)

lemma RFC3339Nano_not_monotone:
  "(1778288523100000000 :: Time) < 1778288523150000000 \<and>
   RFC3339Nano 1778288523150000000 < RFC3339Nano 1778288523100000000"
  by (simp add: RFC3339Nano_tenth RFC3339Nano_later less_list_code)

end
