(* ===== verification/Withdraw_Service.thy ===== *)
theory Withdraw_Service
  imports Gas_Policy Go_Time
begin

text \<open>
  \<open>internal/withdraw/service.go\<close>: the full-exit service. Its collaborators (\<open>Adapter\<close>,
  \<open>signer.Service\<close>, \<open>TransactionSubmitter\<close>, \<open>AttemptRepository\<close>) are Go interfaces:
  records of operations on an abstract world \<open>'w\<close>, optional because the fields may be nil.
  The mutable field \<open>pending\<close> is the first component of the state; the mutex makes a whole
  \<open>ExecuteFullExit\<close> one step, so it is one function of the state.

  \<open>Platform\<close> holds what is neither under src/ nor in the standard library: the hash of a
  transaction (go-ethereum), and the reading of the system clock.
\<close>

subsection \<open>Interfaces and data\<close>

record Transaction =
  tx_ChainID :: int
  tx_Nonce :: uint64
  tx_GasTipCap :: bigint
  tx_GasFeeCap :: bigint
  tx_Gas :: uint64
  tx_To :: address
  tx_Value :: bigint
  tx_Data :: "bytes option"
  tx_Signature :: bytes

record 'w Platform =
  pl_SystemClock :: "'w Clock"
  pl_TxHash :: "Transaction \<Rightarrow> hash"

record 'w Adapter =
  ad_Position :: "('w, gerror + PositionSnapshot) io"
  ad_BuildFullExit :: "FullExitRequest \<Rightarrow> ('w, gerror + TxCandidate) io"
  ad_SimulateFullExit :: "FullExitRequest \<Rightarrow> ('w, FullExitSimulation \<times> gerror option) io"

record 'w Signer =
  sg_Address :: "('w, gerror + address) io"
  sg_SignTransaction :: "Transaction \<Rightarrow> int \<Rightarrow> ('w, gerror + Transaction) io"

record 'w Submitter =
  sb_PendingNonceAt :: "address \<Rightarrow> ('w, gerror + uint64) io"
  sb_SuggestGasPrice :: "('w, gerror + bigint) io"
  sb_SuggestGasTipCap :: "('w, gerror + bigint) io"
  sb_SendTransaction :: "Transaction \<Rightarrow> ('w, gerror option) io"

type_synonym TriggerKind = string
type_synonym WithdrawalStatus = string

definition TriggerKindUrgent :: string where [name_defs]: "TriggerKindUrgent = ''urgent''"
definition WithdrawalStatusNoop :: string where [name_defs]: "WithdrawalStatusNoop = ''noop''"
definition WithdrawalStatusSimulationFailed :: string where
  [name_defs]: "WithdrawalStatusSimulationFailed = ''simulation_failed''"
definition WithdrawalStatusSimulated :: string where
  [name_defs]: "WithdrawalStatusSimulated = ''simulated''"
definition WithdrawalStatusSubmitted :: string where
  [name_defs]: "WithdrawalStatusSubmitted = ''submitted''"

record WithdrawalTrigger =
  tr_Kind :: TriggerKind
  tr_ModuleID :: MonitorModuleID
  tr_FindingKey :: FindingKey

record WithdrawalResult =
  wr_Status :: WithdrawalStatus
  wr_Noop :: bool
  wr_TxHash :: hash
  wr_Nonce :: uint64
  wr_GasUnits :: uint64
  wr_FeeCaps :: FeeCaps
  wr_ExpectedAssetUnits :: bigint

record WithdrawalAttempt =
  wa_ID :: string
  wa_Trigger :: WithdrawalTrigger
  wa_Status :: WithdrawalStatus
  wa_TxHash :: hash
  wa_Nonce :: uint64
  wa_GasUnits :: uint64
  wa_FeeCaps :: FeeCaps
  wa_ExpectedAssetUnits :: bigint
  wa_SimulationSuccess :: bool
  wa_FailureReason :: string
  wa_CreatedAt :: Time
  wa_UpdatedAt :: Time

type_synonym 'w AttemptRepository = "WithdrawalAttempt \<Rightarrow> ('w, gerror option) io"

record 'w Service =
  svc_Adapter :: "'w Adapter option"
  svc_Signer :: "'w Signer option"
  svc_ChainID :: bigint
  svc_Clock :: "'w Clock option"
  svc_Submitter :: "'w Submitter option"
  svc_Repository :: "'w AttemptRepository option"
  svc_GasPolicy :: GasPolicy
  svc_GasLimitBufferBPS :: int64
  svc_ReplacementTimeout :: Duration

record pendingWithdrawal =
  pw_Nonce :: uint64
  pw_FeeCaps :: FeeCaps
  pw_SubmittedAt :: Time
  pw_TxHash :: hash

type_synonym 'w wstate = "pendingWithdrawal option \<times> 'w"

definition zeroResult :: WithdrawalResult where
  "zeroResult = \<lparr>wr_Status = [], wr_Noop = False, wr_TxHash = 0, wr_Nonce = 0, wr_GasUnits = 0,
     wr_FeeCaps = zeroFeeCaps, wr_ExpectedAssetUnits = None\<rparr>"

subsection \<open>Pure helpers\<close>

definition fullExitRequest :: "PositionSnapshot \<Rightarrow> FullExitRequest" where
  "fullExitRequest position = \<lparr>rq_Vault = ps_Vault position, rq_Owner = ps_Owner position,
     rq_Receiver = ps_Receiver position, rq_Shares = cloneBigInt (ps_ShareBalance position)\<rparr>"

definition buildDynamicFeeTx :: "TxCandidate \<Rightarrow> int \<Rightarrow> uint64 \<Rightarrow> uint64 \<Rightarrow> FeeCaps \<Rightarrow> Transaction"
  where
  "buildDynamicFeeTx candidate chainID nonce gas fees =
     (let value = (case tc_Value candidate of None \<Rightarrow> Some 0 | Some v \<Rightarrow> Some v) in
      \<lparr>tx_ChainID = chainID, tx_Nonce = nonce,
       tx_GasTipCap = cloneBigInt (MaxPriorityFeePerGas fees),
       tx_GasFeeCap = cloneBigInt (MaxFeePerGas fees),
       tx_Gas = gas, tx_To = tc_To candidate, tx_Value = cloneBigInt value,
       tx_Data = cloneBytes (tc_Data candidate), tx_Signature = []\<rparr>)"

definition statusForSimulation :: "FullExitSimulation \<Rightarrow> WithdrawalStatus" where
  "statusForSimulation simulation =
     (if sim_Success simulation then WithdrawalStatusSimulated
      else WithdrawalStatusSimulationFailed)"

definition withdrawalAttemptID :: "Time \<Rightarrow> WithdrawalTrigger \<Rightarrow> string" where
  "withdrawalAttemptID now trigger =
     attempt_time_text now @ ''-'' @ tr_Kind trigger @ ''-'' @ tr_ModuleID trigger @ ''-'' @
       tr_FindingKey trigger"

definition no_shares :: "PositionSnapshot \<Rightarrow> bool" where
  "no_shares position \<longleftrightarrow> ps_ShareBalance position = None \<or> ps_ShareBalance position = Some 0"

subsection \<open>Dry run\<close>

definition DryRunFullExit :: "'w Service \<Rightarrow> ('w, WithdrawalResult \<times> gerror option) io" where
  "DryRunFullExit svc =
     (case svc_Adapter svc of
        None \<Rightarrow> ret (zeroResult, Some (New ''withdraw adapter is required''))
      | Some adapter \<Rightarrow>
          tryE (ad_Position adapter) (\<lambda>err. ret (zeroResult, Some err)) (\<lambda>position.
            if no_shares position
            then ret (zeroResult\<lparr>wr_Status := WithdrawalStatusNoop, wr_Noop := True\<rparr>, None)
            else bindIO (ad_SimulateFullExit adapter (fullExitRequest position))
              (\<lambda>(simulation, err).
                 case err of
                   Some e \<Rightarrow> ret (zeroResult, Some e)
                 | None \<Rightarrow> ret (zeroResult\<lparr>wr_Status := statusForSimulation simulation,
                     wr_ExpectedAssetUnits := cloneBigInt (sim_ExpectedAssetUnits simulation),
                     wr_GasUnits := sim_GasUnits simulation\<rparr>, None))))"

subsection \<open>The full exit\<close>

definition validateExecuteConfig :: "'w Service \<Rightarrow> gerror option" where
  "validateExecuteConfig svc =
     (if svc_Adapter svc = None then Some (New ''withdraw adapter is required'')
      else if svc_Signer svc = None then Some (New ''withdraw signer is required'')
      else if svc_Submitter svc = None then Some (New ''withdraw submitter is required'')
      else if svc_Repository svc = None then Some (New ''withdraw repository is required'')
      else if svc_ChainID svc = None then Some (New ''chain ID is required'')
      else None)"

definition service_now :: "'w Platform \<Rightarrow> 'w Service \<Rightarrow> 'w Clock" where
  "service_now pl svc = clock_now (pl_SystemClock pl) (svc_Clock svc)"

definition recordAttempt :: "'w AttemptRepository \<Rightarrow> WithdrawalTrigger \<Rightarrow> WithdrawalResult
    \<Rightarrow> FullExitSimulation \<Rightarrow> string \<Rightarrow> Time \<Rightarrow> ('w, gerror option) io" where
  "recordAttempt insert_attempt trigger result simulation failureReason now =
     insert_attempt \<lparr>
       wa_ID = withdrawalAttemptID now trigger, wa_Trigger = trigger,
       wa_Status = wr_Status result, wa_TxHash = wr_TxHash result, wa_Nonce = wr_Nonce result,
       wa_GasUnits = wr_GasUnits result, wa_FeeCaps = FeeCaps_Clone (wr_FeeCaps result),
       wa_ExpectedAssetUnits = cloneBigInt (wr_ExpectedAssetUnits result),
       wa_SimulationSuccess = sim_Success simulation, wa_FailureReason = failureReason,
       wa_CreatedAt = now, wa_UpdatedAt = now\<rparr>"

definition initialFeeCaps :: "GasPolicy \<Rightarrow> 'w Submitter \<Rightarrow> ('w, gerror + FeeCaps) io" where
  "initialFeeCaps policy submitter =
     (case validateCaps policy of
        Some err \<Rightarrow> ret (Inl err)
      | None \<Rightarrow>
          tryE (sb_SuggestGasPrice submitter)
            (\<lambda>err. ret (Inl (Wrap ''suggest gas price: '' err []))) (\<lambda>gasPrice.
            case gasPrice of
              None \<Rightarrow> ret (Inl (New ''suggested gas price must be positive''))
            | Some price \<Rightarrow>
                if price \<le> 0 then ret (Inl (New ''suggested gas price must be positive''))
                else tryE (sb_SuggestGasTipCap submitter)
                  (\<lambda>err. ret (Inl (Wrap ''suggest gas tip cap: '' err []))) (\<lambda>tipCap.
                  case tipCap of
                    None \<Rightarrow> ret (Inl (New ''suggested gas tip cap must be positive''))
                  | Some tip \<Rightarrow>
                      if tip \<le> 0 then ret (Inl (New ''suggested gas tip cap must be positive''))
                      else (let priorityFee = capBig tip (MaxTipCap policy);
                                maxFee = price + priorityFee;
                                feeCaps = \<lparr>MaxFeePerGas = Some (capBig maxFee (MaxFeeCap policy)),
                                           MaxPriorityFeePerGas = Some priorityFee\<rparr>
                            in case FeeCaps_Validate feeCaps of
                                 Some err \<Rightarrow> ret (Inl err)
                               | None \<Rightarrow> ret (Inr feeCaps)))))"

definition nonceAndFeeCaps :: "'w Service \<Rightarrow> 'w Submitter \<Rightarrow> pendingWithdrawal option \<Rightarrow> address
    \<Rightarrow> Time \<Rightarrow> ('w, gerror + uint64 \<times> FeeCaps) io" where
  "nonceAndFeeCaps svc submitter pending signerAddress now =
     (case pending of
        Some p \<Rightarrow>
          if svc_ReplacementTimeout svc \<le> 0
             \<or> time_Sub now (pw_SubmittedAt p) \<ge> svc_ReplacementTimeout svc
          then (case BumpChecked (svc_GasPolicy svc) (pw_FeeCaps p) of
                  Inl err \<Rightarrow> ret (Inl err)
                | Inr feeCaps \<Rightarrow> ret (Inr (pw_Nonce p, feeCaps)))
          else ret (Inr (pw_Nonce p, FeeCaps_Clone (pw_FeeCaps p)))
      | None \<Rightarrow>
          tryE (sb_PendingNonceAt submitter signerAddress)
            (\<lambda>err. ret (Inl (Wrap ''read pending nonce: '' err []))) (\<lambda>nonce.
            bindE (initialFeeCaps (svc_GasPolicy svc) submitter)
              (\<lambda>feeCaps. ret (Inr (nonce, feeCaps)))))"

definition failWith :: "gerror \<Rightarrow> ('s, WithdrawalResult \<times> gerror option) io" where
  "failWith err = ret (zeroResult, Some err)"

definition getPending :: "('w wstate, pendingWithdrawal option) io" where
  "getPending s = (fst s, s)"

definition setPending :: "pendingWithdrawal option \<Rightarrow> ('w wstate, unit) io" where
  "setPending p s = ((), (p, snd s))"

text \<open>The part of \<open>ExecuteFullExit\<close> after the checks: build, price, sign, send, record.\<close>

definition submitFullExit :: "'w Platform \<Rightarrow> 'w Service \<Rightarrow> WithdrawalTrigger \<Rightarrow> Time \<Rightarrow> address
    \<Rightarrow> FullExitRequest \<Rightarrow> FullExitSimulation \<Rightarrow> ('w wstate, WithdrawalResult \<times> gerror option) io"
  where
  "submitFullExit pl svc trigger now signerAddress request simulation =
     (let adapter = the (svc_Adapter svc); signer = the (svc_Signer svc);
          submitter = the (svc_Submitter svc); repository = the (svc_Repository svc);
          chainID = the (svc_ChainID svc) in
      tryE (envIO (ad_BuildFullExit adapter request)) failWith (\<lambda>candidate.
      bindIO getPending (\<lambda>pending.
      tryE (envIO (nonceAndFeeCaps svc submitter pending signerAddress now)) failWith
        (\<lambda>(nonce, feeCaps).
      let tx = buildDynamicFeeTx candidate chainID nonce
                 (bufferedGas (sim_GasUnits simulation) (svc_GasLimitBufferBPS svc)) feeCaps in
      tryE (envIO (sg_SignTransaction signer tx chainID))
        (\<lambda>err. failWith (Wrap ''sign full-exit transaction: '' err [])) (\<lambda>signed.
      onErr (envIO (sb_SendTransaction submitter signed))
        (\<lambda>err. failWith (Wrap ''submit full-exit transaction: '' err []))
        (let result = zeroResult\<lparr>
               wr_Status := WithdrawalStatusSubmitted, wr_TxHash := pl_TxHash pl signed,
               wr_Nonce := nonce, wr_GasUnits := tx_Gas tx, wr_FeeCaps := FeeCaps_Clone feeCaps,
               wr_ExpectedAssetUnits := cloneBigInt (sim_ExpectedAssetUnits simulation)\<rparr> in
         bindIO (setPending (Some \<lparr>pw_Nonce = nonce, pw_FeeCaps = FeeCaps_Clone feeCaps,
           pw_SubmittedAt = now, pw_TxHash = pl_TxHash pl signed\<rparr>)) (\<lambda>_.
         onErr (envIO (recordAttempt repository trigger result simulation [] now))
           (\<lambda>err. ret (result, Some err))
           (ret (result, None)))))))))"

definition pendingResult :: "pendingWithdrawal \<Rightarrow> FullExitSimulation \<Rightarrow> WithdrawalResult" where
  "pendingResult p simulation = zeroResult\<lparr>
     wr_Status := WithdrawalStatusSubmitted, wr_TxHash := pw_TxHash p, wr_Nonce := pw_Nonce p,
     wr_GasUnits := sim_GasUnits simulation, wr_FeeCaps := FeeCaps_Clone (pw_FeeCaps p),
     wr_ExpectedAssetUnits := cloneBigInt (sim_ExpectedAssetUnits simulation)\<rparr>"

definition ExecuteFullExit :: "'w Platform \<Rightarrow> 'w Service \<Rightarrow> WithdrawalTrigger
    \<Rightarrow> ('w wstate, WithdrawalResult \<times> gerror option) io" where
  "ExecuteFullExit pl svc trigger =
     (case validateExecuteConfig svc of
        Some err \<Rightarrow> failWith err
      | None \<Rightarrow>
     (let adapter = the (svc_Adapter svc); signer = the (svc_Signer svc);
          repository = the (svc_Repository svc) in
      bindIO (envIO (service_now pl svc)) (\<lambda>now.
      tryE (envIO (ad_Position adapter)) failWith (\<lambda>position.
      if no_shares position
      then (let result = zeroResult\<lparr>wr_Status := WithdrawalStatusNoop, wr_Noop := True\<rparr> in
            onErr (envIO (recordAttempt repository trigger result zeroSimulation [] now)) failWith
              (bindIO (setPending None) (\<lambda>_. ret (result, None))))
      else if the (ps_ShareBalance position) < 0
      then failWith (New ''share balance must be non-negative'')
      else tryE (envIO (sg_Address signer))
        (\<lambda>err. failWith (Wrap ''read signer address: '' err [])) (\<lambda>signerAddress.
      if signerAddress \<noteq> ps_Owner position then failWith (Var ErrSignerOwnerMismatch)
      else (let request = fullExitRequest position in
      bindIO (envIO (ad_SimulateFullExit adapter request)) (\<lambda>(simulation, simErr).
      if simErr \<noteq> None \<or> \<not> sim_Success simulation
      then (let result = zeroResult\<lparr>wr_Status := WithdrawalStatusSimulationFailed,
              wr_ExpectedAssetUnits := cloneBigInt (sim_ExpectedAssetUnits simulation),
              wr_GasUnits := sim_GasUnits simulation\<rparr> in
            onErr (envIO (recordAttempt repository trigger result simulation
                (sentinel_text ErrSimulationFailed) now)) failWith
              (ret (result, Some (Var ErrSimulationFailed))))
      else bindIO getPending (\<lambda>pending.
        case pending of
          Some p \<Rightarrow>
            if svc_ReplacementTimeout svc > 0
               \<and> time_Sub now (pw_SubmittedAt p) < svc_ReplacementTimeout svc
            then ret (pendingResult p simulation, None)
            else submitFullExit pl svc trigger now signerAddress request simulation
        | None \<Rightarrow> submitFullExit pl svc trigger now signerAddress request simulation))))))))"

subsection \<open>Properties\<close>

text \<open>Attempts made at different instants have different identifiers, whatever triggered
  them, and attempts of one instant have the same identifier exactly when the joined texts of
  their triggers are the same.\<close>

theorem attempt_ids_tell_instants_apart:
  assumes "writable t" "writable u"
  shows "withdrawalAttemptID t a = withdrawalAttemptID u b \<longleftrightarrow> t = u \<and>
    tr_Kind a @ ''-'' @ tr_ModuleID a @ ''-'' @ tr_FindingKey a =
    tr_Kind b @ ''-'' @ tr_ModuleID b @ ''-'' @ tr_FindingKey b"
  using attempt_time_inject [OF assms] by (auto simp: withdrawalAttemptID_def)

theorem attempt_ids_tell_instants_apart_witness:
  "withdrawalAttemptID 0 \<lparr>tr_Kind = ''urgent'', tr_ModuleID = ''m'', tr_FindingKey = ''f''\<rparr> \<noteq>
   withdrawalAttemptID 1 \<lparr>tr_Kind = ''urgent'', tr_ModuleID = ''m'', tr_FindingKey = ''f''\<rparr>"
proof -
  have "writable 0" "writable 1" by (simp_all add: writable_def year_of_def time_eval)
  from attempt_ids_tell_instants_apart [OF this] show ?thesis by simp
qed

end
