(* ===== verification/Json.thy ===== *)
theory Json
  imports Go_Strings
begin

text \<open>
  \<open>encoding/json\<close> of the standard library, as far as the program uses it: \<open>Marshal\<close> with
  HTML escaping (compact output, map keys sorted by the caller of \<open>JObj\<close>) and the parser
  behind \<open>Unmarshal\<close>. Numbers keep their literal. Strings are byte strings: \<open>Marshal\<close>
  replaces bytes that are no UTF-8 by U+FFFD, so a string comes back as \<open>scrub s\<close>, which is
  \<open>s\<close> itself when \<open>s\<close> is valid UTF-8 (\<open>scrub_valid\<close>).
\<close>

datatype json =
    JNull
  | JBool bool
  | JNum string
  | JStr string
  | JArr "json list"
  | JObj "(string \<times> json) list"

subsection \<open>Encoding\<close>

definition hex_digit :: "nat \<Rightarrow> char" where
  "hex_digit d = (if d < 10 then char_of (48 + d) else char_of (87 + d))"

definition hex2 :: "nat \<Rightarrow> string" where
  "hex2 b = [hex_digit (b div 16), hex_digit (b mod 16)]"

definition json_escape_ascii :: "nat \<Rightarrow> string" where
  "json_escape_ascii b =
     (if b = 34 \<or> b = 92 then [CHR 0x5C, char_of b]
      else if b = 8 then [CHR 0x5C, CHR ''b'']
      else if b = 12 then [CHR 0x5C, CHR ''f'']
      else if b = 10 then [CHR 0x5C, CHR ''n'']
      else if b = 13 then [CHR 0x5C, CHR ''r'']
      else if b = 9 then [CHR 0x5C, CHR ''t'']
      else if b < 32 \<or> b = 60 \<or> b = 62 \<or> b = 38 then CHR 0x5C # ''u00'' @ hex2 b
      else [char_of b])"

definition json_escape :: "nat \<times> string \<Rightarrow> string" where
  "json_escape rb =
     (case rb of (r, bs) \<Rightarrow>
        if r < 128 then json_escape_ascii r
        else if r = 0xFFFD \<and> length bs = 1 then CHR 0x5C # ''ufffd''
        else if r = 0x2028 then CHR 0x5C # ''u2028''
        else if r = 0x2029 then CHR 0x5C # ''u2029''
        else bs)"

definition json_body :: "string \<Rightarrow> string" where
  "json_body s = concat (map json_escape (runes s))"

definition json_string :: "string \<Rightarrow> string" where
  "json_string s = CHR 0x22 # json_body s @ [CHR 0x22]"

fun json_encode :: "json \<Rightarrow> string" where
  "json_encode JNull = ''null''"
| "json_encode (JBool b) = (if b then ''true'' else ''false'')"
| "json_encode (JNum l) = l"
| "json_encode (JStr s) = json_string s"
| "json_encode (JArr vs) = ''['' @ strings_Join (map json_encode vs) '','' @ '']''"
| "json_encode (JObj kvs) =
     ''{'' @ strings_Join (map (\<lambda>(k, v). json_string k @ '':'' @ json_encode v) kvs) '','' @ ''}''"

subsection \<open>Decoding\<close>

definition hex_val :: "char \<Rightarrow> nat option" where
  "hex_val c =
     (let b = of_char c :: nat in
      if 48 \<le> b \<and> b \<le> 57 then Some (b - 48)
      else if 97 \<le> b \<and> b \<le> 102 then Some (b - 87)
      else if 65 \<le> b \<and> b \<le> 70 then Some (b - 55)
      else None)"

definition hex4 :: "string \<Rightarrow> nat option" where
  "hex4 s =
     (case s of
        a # b # c # d # _ \<Rightarrow>
          (case (hex_val a, hex_val b, hex_val c, hex_val d) of
             (Some w, Some x, Some y, Some z) \<Rightarrow> Some (((w * 16 + x) * 16 + y) * 16 + z)
           | _ \<Rightarrow> None)
      | _ \<Rightarrow> None)"

definition is_surrogate :: "nat \<Rightarrow> bool" where
  "is_surrogate r \<longleftrightarrow> 0xD800 \<le> r \<and> r < 0xE000"

text \<open>
  The escape after \<open>\u\<close>: the code point and the number of bytes read; a surrogate pair is
  one code point, a lone surrogate is U+FFFD.
\<close>

definition unicode_escape :: "string \<Rightarrow> (nat \<times> nat) option" where
  "unicode_escape s =
     (case hex4 s of
        None \<Rightarrow> None
      | Some r \<Rightarrow>
          if \<not> is_surrogate r then Some (r, 4)
          else (case drop 4 s of
              x # y # t \<Rightarrow>
                (case hex4 t of
                   Some r1 \<Rightarrow>
                     if x = CHR 0x5C \<and> y = CHR ''u'' \<and> r < 0xDC00 \<and> 0xDC00 \<le> r1 \<and> r1 < 0xE000
                     then Some ((r - 0xD800) * 1024 + (r1 - 0xDC00) + 0x10000, 10)
                     else Some (0xFFFD, 4)
                 | None \<Rightarrow> Some (0xFFFD, 4))
            | _ \<Rightarrow> Some (0xFFFD, 4)))"

definition simple_escape :: "char \<Rightarrow> char option" where
  "simple_escape e =
     (if e = CHR 0x22 \<or> e = CHR 0x5C \<or> e = CHR ''/'' then Some e
      else if e = CHR ''b'' then Some (CHR 0x08)
      else if e = CHR ''f'' then Some (CHR 0x0C)
      else if e = CHR ''n'' then Some (CHR 0x0A)
      else if e = CHR ''r'' then Some (CHR 0x0D)
      else if e = CHR ''t'' then Some (CHR 0x09)
      else None)"

definition prepend :: "string \<Rightarrow> (string \<times> string) option \<Rightarrow> (string \<times> string) option" where
  "prepend p r = map_option (\<lambda>(s, rest). (p @ s, rest)) r"

text \<open>The body of a string literal, up to and including the closing quote.\<close>

function parse_body :: "string \<Rightarrow> (string \<times> string) option" where
  "parse_body s =
     (case s of
        [] \<Rightarrow> None
      | c # cs \<Rightarrow>
          if c = CHR 0x22 then Some ([], cs)
          else if c = CHR 0x5C then
            (case cs of
               [] \<Rightarrow> None
             | e # t \<Rightarrow>
                 if e = CHR ''u''
                 then (case unicode_escape t of
                         None \<Rightarrow> None
                       | Some (r, n) \<Rightarrow> prepend (encode_rune r) (parse_body (drop n t)))
                 else (case simple_escape e of
                         None \<Rightarrow> None
                       | Some x \<Rightarrow> prepend [x] (parse_body t)))
          else if (of_char c :: nat) < 32 then None
          else if (of_char c :: nat) < 128 then prepend [c] (parse_body cs)
          else (case decode_rune s of
                  (r, w) \<Rightarrow> prepend (encode_rune r) (parse_body (drop w s))))"
  by pat_completeness auto
termination
  by (relation "measure length") (auto dest!: decode_rune_pos)

declare parse_body.simps [simp del]

definition json_space :: "char \<Rightarrow> bool" where
  "json_space c \<longleftrightarrow> c = CHR '' '' \<or> c = CHR 0x09 \<or> c = CHR 0x0A \<or> c = CHR 0x0D"

definition skip_space :: "string \<Rightarrow> string" where
  "skip_space = dropWhile json_space"

text \<open>A number literal of the JSON grammar.\<close>

definition digits_of :: "string \<Rightarrow> string \<times> string" where
  "digits_of s = (takeWhile is_digit s, dropWhile is_digit s)"

definition number_sign :: "string \<Rightarrow> string \<times> string" where
  "number_sign s =
     (case s of c # cs \<Rightarrow> if c = CHR ''-'' then ([c], cs) else ([], s) | [] \<Rightarrow> ([], []))"

definition parse_number :: "string \<Rightarrow> (string \<times> string) option" where
  "parse_number s =
     (let (sign, s1) = number_sign s;
          (int_part, s2) = digits_of s1 in
      if int_part = [] \<or> (hd int_part = CHR ''0'' \<and> length int_part > 1) then None
      else
        (let frac = (case s2 of
               c # cs \<Rightarrow> if c = CHR ''.''
                 then (let (ds, t) = digits_of cs in if ds = [] then None else Some (c # ds, t))
                 else Some ([], s2)
             | [] \<Rightarrow> Some ([], [])) in
         case frac of None \<Rightarrow> None
         | Some (fpart, s3) \<Rightarrow>
             (case s3 of
                c # cs \<Rightarrow>
                  if c = CHR ''e'' \<or> c = CHR ''E''
                  then (let (esign, t) = (case cs of d # ds \<Rightarrow>
                               if d = CHR ''+'' \<or> d = CHR ''-'' then ([d], ds) else ([], cs)
                             | [] \<Rightarrow> ([], []));
                            (ds, t') = digits_of t in
                        if ds = [] then None
                        else Some (sign @ int_part @ fpart @ c # esign @ ds, t'))
                  else Some (sign @ int_part @ fpart, s3)
              | [] \<Rightarrow> Some (sign @ int_part @ fpart, []))))"

definition literal :: "string \<Rightarrow> 'a \<Rightarrow> string \<Rightarrow> ('a \<times> string) option" where
  "literal l v s = (if prefix l s then Some (v, drop (length l) s) else None)"

text \<open>
  Values. The fuel bounds the number of values read; the length of the input is enough, since
  every value takes at least one byte.
\<close>

fun parse_value :: "nat \<Rightarrow> string \<Rightarrow> (json \<times> string) option"
  and parse_elems :: "nat \<Rightarrow> string \<Rightarrow> (json list \<times> string) option"
  and parse_members :: "nat \<Rightarrow> string \<Rightarrow> ((string \<times> json) list \<times> string) option" where
  "parse_value 0 s = None"
| "parse_value (Suc n) s =
     (case skip_space s of
        [] \<Rightarrow> None
      | c # cs \<Rightarrow>
          if c = CHR 0x22 then map_option (\<lambda>(x, t). (JStr x, t)) (parse_body cs)
          else if c = CHR ''['' then
            (case skip_space cs of
               [] \<Rightarrow> None
             | d # ds \<Rightarrow>
                 if d = CHR '']'' then Some (JArr [], ds)
                 else map_option (\<lambda>(vs, t). (JArr vs, t)) (parse_elems n cs))
          else if c = CHR ''{'' then
            (case skip_space cs of
               [] \<Rightarrow> None
             | d # ds \<Rightarrow>
                 if d = CHR ''}'' then Some (JObj [], ds)
                 else map_option (\<lambda>(kvs, t). (JObj kvs, t)) (parse_members n cs))
          else if c = CHR ''n'' then literal ''null'' JNull (c # cs)
          else if c = CHR ''t'' then literal ''true'' (JBool True) (c # cs)
          else if c = CHR ''f'' then literal ''false'' (JBool False) (c # cs)
          else map_option (\<lambda>(l, t). (JNum l, t)) (parse_number (c # cs)))"
| "parse_elems 0 s = None"
| "parse_elems (Suc n) s =
     (case parse_value n s of
        None \<Rightarrow> None
      | Some (v, t) \<Rightarrow>
          (case skip_space t of
             [] \<Rightarrow> None
           | c # cs \<Rightarrow>
               if c = CHR '','' then map_option (\<lambda>(vs, u). (v # vs, u)) (parse_elems n cs)
               else if c = CHR '']'' then Some ([v], cs)
               else None))"
| "parse_members 0 s = None"
| "parse_members (Suc n) s =
     (case skip_space s of
        [] \<Rightarrow> None
      | q # t \<Rightarrow>
          if q \<noteq> CHR 0x22 then None
          else
            (case parse_body t of
               None \<Rightarrow> None
             | Some (k, t1) \<Rightarrow>
                 (case skip_space t1 of
                    [] \<Rightarrow> None
                  | c # t2 \<Rightarrow>
                      if c \<noteq> CHR '':'' then None
                      else
                        (case parse_value n t2 of
                           None \<Rightarrow> None
                         | Some (v, t3) \<Rightarrow>
                             (case skip_space t3 of
                                [] \<Rightarrow> None
                              | d # t4 \<Rightarrow>
                                  if d = CHR '',''
                                  then map_option (\<lambda>(kvs, u). ((k, v) # kvs, u)) (parse_members n t4)
                                  else if d = CHR ''}'' then Some ([(k, v)], t4)
                                  else None)))))"

definition json_decode :: "string \<Rightarrow> json option" where
  "json_decode s =
     (case parse_value (Suc (2 * length s)) s of
        Some (v, t) \<Rightarrow> if skip_space t = [] then Some v else None
      | None \<Rightarrow> None)"

subsection \<open>UTF-8 round trip\<close>

lemma byte_at_pos: "0 < byte_at s i \<Longrightarrow> i < length s"
  by (auto simp: byte_at_def split: if_splits)

lemma cont_byte_pos: "cont_byte (byte_at s i) \<Longrightarrow> i < length s"
  by (auto simp: cont_byte_def intro: byte_at_pos)

lemma char_of_byte_at: "i < length s \<Longrightarrow> char_of (byte_at s i) = s ! i"
  by (simp add: byte_at_def)

lemma take_eq_byte_at:
  assumes "w \<le> length s"
  shows "take w s = map (\<lambda>i. char_of (byte_at s i)) [0..<w]"
  using assms by (intro nth_equalityI) (auto simp: char_of_byte_at)

lemma div_mod_64:
  fixes a b :: nat
  assumes "b < 64"
  shows "(a * 64 + b) div 64 = a" "(a * 64 + b) mod 64 = b"
  using assms by auto

lemma nested_div:
  "r div 4096 = r div 64 div (64::nat)" "r div 262144 = r div 64 div 64 div (64::nat)"
  by (simp_all add: div_mult2_eq [symmetric])

text \<open>A valid sequence of at least two bytes is encoded back to the same bytes.\<close>

lemma decode_valid:
  assumes "decode_rune s = (r, w)" "128 \<le> r" "\<not> (r = 0xFFFD \<and> w = 1)"
  shows "2 \<le> w" "w \<le> length s" "encode_rune r = take w s" "decode_rune (take w s @ t) = (r, w)"
proof -
  let ?b = "\<lambda>i. byte_at s i"
  have b: "byte_at (take w s @ t) i = ?b i" if "i < w" "w \<le> length s" for i
    using that by (auto simp: byte_at_def nth_append)
  consider (two) "0xC2 \<le> ?b 0" "?b 0 \<le> 0xDF" "cont_byte (?b 1)" "w = 2"
      "r = (?b 0 - 0xC0) * 64 + (?b 1 - 0x80)"
    | (three) "0xE0 \<le> ?b 0" "?b 0 \<le> 0xEF" "cont_byte (?b 1)" "cont_byte (?b 2)"
      "?b 0 = 0xE0 \<longrightarrow> 0xA0 \<le> ?b 1" "?b 0 = 0xED \<longrightarrow> ?b 1 \<le> 0x9F" "w = 3"
      "r = (?b 0 - 0xE0) * 4096 + (?b 1 - 0x80) * 64 + (?b 2 - 0x80)"
    | (four) "0xF0 \<le> ?b 0" "?b 0 \<le> 0xF4" "cont_byte (?b 1)" "cont_byte (?b 2)" "cont_byte (?b 3)"
      "?b 0 = 0xF0 \<longrightarrow> 0x90 \<le> ?b 1" "?b 0 = 0xF4 \<longrightarrow> ?b 1 \<le> 0x8F" "w = 4"
      "r = (?b 0 - 0xF0) * 262144 + (?b 1 - 0x80) * 4096 + (?b 2 - 0x80) * 64 + (?b 3 - 0x80)"
  proof -
    let ?A = "0xC2 \<le> ?b 0 \<and> ?b 0 \<le> 0xDF \<and> cont_byte (?b 1)"
    let ?B = "0xE0 \<le> ?b 0 \<and> ?b 0 \<le> 0xEF \<and> cont_byte (?b 1) \<and> cont_byte (?b 2)
          \<and> (?b 0 = 0xE0 \<longrightarrow> 0xA0 \<le> ?b 1) \<and> (?b 0 = 0xED \<longrightarrow> ?b 1 \<le> 0x9F)"
    let ?C = "0xF0 \<le> ?b 0 \<and> ?b 0 \<le> 0xF4 \<and> cont_byte (?b 1) \<and> cont_byte (?b 2) \<and> cont_byte (?b 3)
          \<and> (?b 0 = 0xF0 \<longrightarrow> 0x90 \<le> ?b 1) \<and> (?b 0 = 0xF4 \<longrightarrow> ?b 1 \<le> 0x8F)"
    note d = assms(1) [unfolded decode_rune_def Let_def]
    have n: "\<not> ?b 0 < 0x80" using d assms(2) by (simp split: if_splits)
    show ?thesis
    proof (cases ?A)
      case True
      with d n that(1) show ?thesis by simp
    next
      case A: False
      show ?thesis
      proof (cases ?B)
        case True
        with A d n that(2) show ?thesis by simp
      next
        case B: False
        show ?thesis
        proof (cases ?C)
          case True
          with A B d n that(3) show ?thesis by (simp split: if_splits)
        next
          case False
          with A B d n assms(3) show ?thesis by (simp only: if_False if_True prod.inject) simp
        qed
      qed
    qed
  qed
  then have "2 \<le> w \<and> w \<le> length s \<and> encode_rune r = take w s \<and> decode_rune (take w s @ t) = (r, w)"
  proof cases
    case two
    have l: "w \<le> length s" using cont_byte_pos [OF two(3)] two(4) by simp
    have tk: "take w s = [char_of (?b 0), char_of (?b 1)]"
      using take_eq_byte_at [OF l] two(4) by (simp add: upt_rec numeral_eq_Suc)
    define x where "x = ?b 0 - 0xC0"
    define y where "y = ?b 1 - 0x80"
    have xy: "?b 0 = 0xC0 + x" "?b 1 = 0x80 + y" "y < 64" "2 \<le> x" "x < 32"
      using two by (auto simp: x_def y_def cont_byte_def)
    have "encode_rune r = take w s"
      using xy two(4,5) tk by (simp add: encode_rune_def div_mod_64)
    moreover have "decode_rune (take w s @ t) = (r, w)"
      using two b [OF _ l] by (simp add: decode_rune_def Let_def)
    ultimately show ?thesis using two(4) l by simp
  next
    case three
    have l: "w \<le> length s" using cont_byte_pos [OF three(4)] three(7) by simp
    have tk: "take w s = [char_of (?b 0), char_of (?b 1), char_of (?b 2)]"
      using take_eq_byte_at [OF l] three(7) by (simp add: upt_rec numeral_eq_Suc)
    define x where "x = ?b 0 - 0xE0"
    define y where "y = ?b 1 - 0x80"
    define z where "z = ?b 2 - 0x80"
    have xy: "?b 0 = 0xE0 + x" "?b 1 = 0x80 + y" "?b 2 = 0x80 + z" "y < 64" "z < 64" "x < 16"
      "x = 0 \<Longrightarrow> 32 \<le> y"
      using three by (auto simp: x_def y_def z_def cont_byte_def)
    have r: "r = (x * 64 + y) * 64 + z" using three(8) by (simp add: x_def y_def z_def)
    have d1: "r div 64 = x * 64 + y" "r mod 64 = z"
      using div_mod_64 [OF xy(5), of "x * 64 + y"] by (simp_all only: r)
    have d2: "r div 64 div 64 = x" "r div 64 mod 64 = y"
      using div_mod_64 [OF xy(4), of x] by (simp_all only: d1)
    have d: "r div 4096 = x" "r div 64 mod 64 = y" "r mod 64 = z"
      using d1(2) d2 by (simp_all only: nested_div)
    have "0x800 \<le> r" "r \<le> 0xFFFF" using xy unfolding r by (cases "x = 0"; simp)+
    then have "encode_rune r = take w s"
      using three(7) d xy(1-3) tk by (simp add: encode_rune_def)
    moreover have "decode_rune (take w s @ t) = (r, w)"
      using three b [OF _ l] by (simp add: decode_rune_def Let_def)
    ultimately show ?thesis using three(7) l by simp
  next
    case four
    have l: "w \<le> length s" using cont_byte_pos [OF four(5)] four(8) by simp
    have tk: "take w s = [char_of (?b 0), char_of (?b 1), char_of (?b 2), char_of (?b 3)]"
      using take_eq_byte_at [OF l] four(8) by (simp add: upt_rec numeral_eq_Suc)
    define x where "x = ?b 0 - 0xF0"
    define y where "y = ?b 1 - 0x80"
    define z where "z = ?b 2 - 0x80"
    define u where "u = ?b 3 - 0x80"
    have xy: "?b 0 = 0xF0 + x" "?b 1 = 0x80 + y" "?b 2 = 0x80 + z" "?b 3 = 0x80 + u"
      "y < 64" "z < 64" "u < 64" "x < 8" "x = 0 \<Longrightarrow> 16 \<le> y"
      using four by (auto simp: x_def y_def z_def u_def cont_byte_def)
    have r: "r = ((x * 64 + y) * 64 + z) * 64 + u" using four(9) by (simp add: x_def y_def z_def u_def)
    have d1: "r div 64 = (x * 64 + y) * 64 + z" "r mod 64 = u"
      using div_mod_64 [OF xy(7), of "(x * 64 + y) * 64 + z"] by (simp_all only: r)
    have d2: "r div 64 div 64 = x * 64 + y" "r div 64 mod 64 = z"
      using div_mod_64 [OF xy(6), of "x * 64 + y"] by (simp_all only: d1)
    have d3: "r div 64 div 64 div 64 = x" "r div 64 div 64 mod 64 = y"
      using div_mod_64 [OF xy(5), of x] by (simp_all only: d2)
    have d: "r div 262144 = x" "r div 4096 mod 64 = y" "r div 64 mod 64 = z" "r mod 64 = u"
      using d1(2) d2(2) d3 by (simp_all only: nested_div)
    have "0x10000 \<le> r" using xy unfolding r by (cases "x = 0"; simp)
    then have "encode_rune r = take w s"
      using four(8) d xy(1-4) tk by (simp add: encode_rune_def)
    moreover have "decode_rune (take w s @ t) = (r, w)"
      using four b [OF _ l] by (simp add: decode_rune_def Let_def)
    ultimately show ?thesis using four(8) l by simp
  qed
  then show "2 \<le> w" "w \<le> length s" "encode_rune r = take w s" "decode_rune (take w s @ t) = (r, w)"
    by blast+
qed

subsection \<open>Strings\<close>

definition scrub :: "string \<Rightarrow> string" where
  "scrub s = encode_runes (map fst (runes s))"

definition valid_utf8 :: "string \<Rightarrow> bool" where
  "valid_utf8 s \<longleftrightarrow> (\<forall>(r, bs) \<in> set (runes s). \<not> (r = 0xFFFD \<and> length bs = 1))"

lemma valid_utf8_Nil [simp]: "valid_utf8 []"
  by (simp add: valid_utf8_def)

lemma valid_utf8_ascii [simp]:
  assumes "(of_char c :: nat) < 128"
  shows "valid_utf8 (c # s) \<longleftrightarrow> valid_utf8 s"
proof -
  have "decode_rune (c # s) = (of_char c, 1)"
    using assms by (simp add: decode_rune_def byte_at_def)
  then show ?thesis using assms by (auto simp: valid_utf8_def runes.simps [of "c # s"])
qed

lemma decode_multi:
  assumes "128 \<le> byte_at s 0"
  shows "128 \<le> fst (decode_rune s)"
proof -
  have a: "128 \<le> (b0 - 192) * 64 + k" if "194 \<le> b0" for b0 k :: nat
    using that by arith
  have b: "128 \<le> (b0 - 224) * 4096 + (b1 - 128) * 64 + k"
    if "224 \<le> b0" "b0 = 224 \<longrightarrow> 160 \<le> b1" for b0 b1 k :: nat
    using that by (cases "b0 = 224") arith+
  have c: "128 \<le> (b0 - 240) * 262144 + (b1 - 128) * 4096 + l * 64 + k"
    if "240 \<le> b0" "b0 = 240 \<longrightarrow> 144 \<le> b1" for b0 b1 k l :: nat
    using that by (cases "b0 = 240") arith+
  show ?thesis
    using assms a b c unfolding decode_rune_def Let_def
    by (simp del: One_nat_def)
qed

lemma decode_ascii:
  assumes "decode_rune s = (r, w)" "r < 128" "s \<noteq> []"
  shows "w = 1" "take w s = [char_of r]"
proof -
  have b: "byte_at s 0 < 128 \<and> r = byte_at s 0 \<and> w = 1"
  proof (rule ccontr)
    assume n: "\<not> ?thesis"
    then have "\<not> byte_at s 0 < 0x80"
      using assms(1) by (auto simp: decode_rune_def Let_def)
    with assms(1,2) show False
      using decode_multi [of s] by simp
  qed
  with assms(3) show "w = 1" "take w s = [char_of r]"
    by (auto simp: byte_at_def neq_Nil_conv)
qed

lemma scrub_valid: "valid_utf8 s \<Longrightarrow> scrub s = s"
proof (induction s rule: runes.induct)
  case (1 s)
  show ?case
  proof (cases "s = []")
    case False
    obtain r w where d: "decode_rune s = (r, w)" by (cases "decode_rune s")
    from False d have rs: "runes s = (r, take w s) # runes (drop w s)"
      by (subst runes.simps) simp
    have "encode_rune r = take w s"
    proof (cases "r < 128")
      case True
      with decode_ascii [OF d True False] show ?thesis by (simp add: encode_rune_def)
    next
      case r: False
      have "\<not> (r = 0xFFFD \<and> w = 1)"
        using 1(2) rs False by (auto simp: valid_utf8_def neq_Nil_conv)
      with decode_valid(3) [OF d] r show ?thesis by simp
    qed
    moreover have "scrub (drop w s) = drop w s"
      using 1 False d rs by (auto simp: valid_utf8_def)
    ultimately show ?thesis
      by (simp add: scrub_def rs encode_runes_def)
  qed (simp add: scrub_def encode_runes_def)
qed

lemma hex_val_digit: "d < 16 \<Longrightarrow> hex_val (hex_digit d) = Some d"
  by (auto simp: hex_val_def hex_digit_def Let_def)

lemma prepend_prepend [simp]: "prepend p (prepend q r) = prepend (p @ q) r"
  by (cases r) (auto simp: prepend_def)

lemma hex4_u00: "b < 256 \<Longrightarrow> hex4 (CHR ''0'' # CHR ''0'' # hex_digit (b div 16) # hex_digit (b mod 16) # X) = Some b"
proof -
  assume "b < 256"
  moreover have "hex_val CHR ''0'' = Some 0" by (simp add: hex_val_def)
  ultimately show ?thesis by (simp add: hex4_def hex_val_digit)
qed

lemma parse_body_ascii:
  assumes "b < 128"
  shows "parse_body (json_escape_ascii b @ X) = prepend [char_of b] (parse_body X)"
proof -
  consider "b \<in> {34, 92, 8, 12, 10, 13, 9}"
    | "b \<notin> {34, 92, 8, 12, 10, 13, 9}" "b < 32 \<or> b = 60 \<or> b = 62 \<or> b = 38"
    | "b \<notin> {34, 92, 8, 12, 10, 13, 9}" "\<not> (b < 32 \<or> b = 60 \<or> b = 62 \<or> b = 38)"
    by blast
  then show ?thesis
  proof cases
    case 1
    then show ?thesis
      by (elim insertE emptyE)
        (simp_all add: json_escape_ascii_def parse_body.simps [of "_ # _"] simple_escape_def
          char_of_def bit_simps)
  next
    case 2
    then have "json_escape_ascii b = CHR 0x5C # ''u00'' @ hex2 b"
      by (simp add: json_escape_ascii_def)
    moreover have "\<not> is_surrogate b" using assms by (simp add: is_surrogate_def)
    moreover have "b < 256" using assms by simp
    ultimately show ?thesis
      using assms by (simp add: parse_body.simps [of "_ # _"] unicode_escape_def hex2_def hex4_u00
          encode_rune_def)
  next
    case 3
    then have "json_escape_ascii b = [char_of b]"
      by (simp add: json_escape_ascii_def)
    moreover have "(char_of b :: char) \<noteq> CHR 0x22" "(char_of b :: char) \<noteq> CHR 0x5C"
      using 3 assms by (auto dest!: arg_cong [where f = "of_char :: char \<Rightarrow> nat"])
    ultimately show ?thesis
      using 3 assms by (subst parse_body.simps) simp
  qed
qed

lemma parse_body_escape:
  assumes "decode_rune s = (r, w)" "s \<noteq> []"
  shows "parse_body (json_escape (r, take w s) @ X) = prepend (encode_rune r) (parse_body X)"
proof (cases "r < 128")
  case True
  then show ?thesis
    using parse_body_ascii [OF True] by (simp add: json_escape_def encode_rune_def)
next
  case r: False
  show ?thesis
  proof (cases "r = 0xFFFD \<and> w = 1")
    case True
    with assms(2) have "length (take w s) = 1" by (simp add: Suc_le_eq)
    with True show ?thesis
      by (simp add: json_escape_def parse_body.simps [of "_ # _"] unicode_escape_def hex4_def
          hex_val_def is_surrogate_def)
  next
    case False
    note v = decode_valid [OF assms(1) _ False, OF leI [OF r]]
    have len: "length (take w s) = w" using v(2) by simp
    show ?thesis
    proof (cases "r = 0x2028 \<or> r = 0x2029")
      case True
      then show ?thesis
        by (auto simp: json_escape_def parse_body.simps [of "_ # _"] unicode_escape_def hex4_def
            hex_val_def is_surrogate_def)
    next
      case n: False
      with r False len have e: "json_escape (r, take w s) = take w s"
        by (auto simp: json_escape_def)
      obtain c cs where t: "take w s @ X = c # cs"
        using v(1,2) by (cases "take w s @ X") auto
      have "128 \<le> (of_char c :: nat)"
      proof (rule ccontr)
        assume "\<not> ?thesis"
        then have "decode_rune (c # cs) = (of_char c, 1)"
          by (simp add: decode_rune_def byte_at_def)
        with v(1) v(4) [of X] t show False by simp
      qed
      then have "c \<noteq> CHR 0x22" "c \<noteq> CHR 0x5C" "\<not> (of_char c :: nat) < 32" "\<not> (of_char c :: nat) < 128"
        by auto
      then have "parse_body (take w s @ X) = prepend (encode_rune r) (parse_body (drop w (take w s @ X)))"
        using v(4) [of X] t by (subst parse_body.simps) simp
      also have "drop w (take w s @ X) = X" using len by simp
      finally show ?thesis by (simp only: e)
    qed
  qed
qed

lemma parse_json_body: "parse_body (json_body s @ CHR 0x22 # rest) = Some (scrub s, rest)"
proof (induction s rule: runes.induct)
  case (1 s)
  show ?case
  proof (cases "s = []")
    case True
    then show ?thesis
      by (simp add: json_body_def scrub_def encode_runes_def parse_body.simps [of "_ # _"])
  next
    case False
    obtain r w where d: "decode_rune s = (r, w)" by (cases "decode_rune s")
    with False have rs: "runes s = (r, take w s) # runes (drop w s)"
      by (subst runes.simps) simp
    have "json_body s = json_escape (r, take w s) @ json_body (drop w s)"
      by (simp add: json_body_def rs)
    moreover have "parse_body (json_body (drop w s) @ CHR 0x22 # rest) = Some (scrub (drop w s), rest)"
      using 1 False d by simp
    ultimately show ?thesis
      using parse_body_escape [OF d False]
      by (simp add: prepend_def scrub_def rs encode_runes_def)
  qed
qed

subsection \<open>Values\<close>

lemma dec_nat_hd:
  "hd (dec_nat n) = CHR ''0'' \<Longrightarrow> n = 0"
proof (induction n rule: dec_nat.induct)
  case (1 n)
  show ?case
  proof (cases "n < 10")
    case True
    with 1(2) have "digit_char n = CHR ''0''" by (subst (asm) dec_nat.simps) simp
    then have "digit_val (digit_char n) = 0" by (simp add: digit_val_def)
    with True show ?thesis by simp
  next
    case False
    with 1(2) have "hd (dec_nat (n div 10)) = CHR ''0''" by (subst (asm) dec_nat.simps) simp
    with 1(1) False show ?thesis by simp
  qed
qed

definition delimiter :: "string \<Rightarrow> bool" where
  "delimiter rest \<longleftrightarrow> (case rest of [] \<Rightarrow> True | c # _ \<Rightarrow> c \<in> {CHR '','', CHR '']'', CHR ''}''})"

lemma delimiter_cases:
  assumes "delimiter rest"
  obtains "rest = []" | t where "rest = CHR '','' # t" | t where "rest = CHR '']'' # t"
    | t where "rest = CHR ''}'' # t"
  using assms by (auto simp: delimiter_def split: list.splits)

lemma digits_of_append:
  assumes "\<forall>c \<in> set ds. is_digit c" "delimiter rest"
  shows "digits_of (ds @ rest) = (ds, rest)"
  using assms(2)
  by (rule delimiter_cases) (use assms(1) in \<open>auto simp: digits_of_def is_digit_def\<close>)

lemma parse_number_dec_int:
  assumes "delimiter rest"
  shows "parse_number (dec_int i @ rest) = Some (dec_int i, rest)"
proof -
  have d: "digits_of (dec_nat n @ rest) = (dec_nat n, rest)" for n
    using dec_nat_digits assms by (intro digits_of_append) auto
  have z: "\<not> (hd (dec_nat n) = CHR ''0'' \<and> Suc 0 < length (dec_nat n))" for n
    using dec_nat_hd [of n] by (auto simp: dec_nat.simps [of 0])
  have m: "hd (dec_nat n) \<noteq> CHR ''-''" for n
    using dec_nat_no_hyphen [of n "tl (dec_nat n)"] by (metis dec_nat_nonempty list.collapse)
  have sgn: "number_sign (dec_nat n @ rest) = ([], dec_nat n @ rest)"
    "number_sign (CHR ''-'' # dec_nat n @ rest) = (''-'', dec_nat n @ rest)" for n
    using m [of n] by (cases "dec_nat n"; auto simp: number_sign_def)+
  show ?thesis
    using assms
    by (rule delimiter_cases)
      (use z d sgn in \<open>auto simp: dec_int_def parse_number_def Let_def\<close>)
qed

fun json_ok :: "json \<Rightarrow> bool" where
  "json_ok (JNum l) = (\<exists>i. l = dec_int i)"
| "json_ok (JArr vs) = (\<forall>v \<in> set vs. json_ok v)"
| "json_ok (JObj kvs) = (\<forall>(k, v) \<in> set kvs. json_ok v)"
| "json_ok _ = True"

fun scrub_json :: "json \<Rightarrow> json" where
  "scrub_json (JStr s) = JStr (scrub s)"
| "scrub_json (JArr vs) = JArr (map scrub_json vs)"
| "scrub_json (JObj kvs) = JObj (map (\<lambda>(k, v). (scrub k, scrub_json v)) kvs)"
| "scrub_json v = v"

fun json_fuel :: "json \<Rightarrow> nat" where
  "json_fuel (JArr vs) = Suc (sum_list (map (Suc \<circ> json_fuel) vs))"
| "json_fuel (JObj kvs) = Suc (sum_list (map (\<lambda>(k, v). Suc (json_fuel v)) kvs))"
| "json_fuel _ = 1"

lemma json_fuel_pos: "0 < json_fuel v"
  by (cases v) auto

lemma skip_space_Cons [simp]: "\<not> json_space c \<Longrightarrow> skip_space (c # cs) = c # cs"
  by (simp add: skip_space_def)

lemma json_space_simps [simp]:
  "\<not> json_space CHR 0x22" "\<not> json_space CHR ''[''" "\<not> json_space CHR '']''"
  "\<not> json_space CHR ''{''" "\<not> json_space CHR ''}''" "\<not> json_space CHR '',''"
  "\<not> json_space CHR '':''" "\<not> json_space CHR ''n''" "\<not> json_space CHR ''t''"
  "\<not> json_space CHR ''f''" "\<not> json_space CHR ''-''"
  by (simp_all add: json_space_def)

lemma json_encode_hd:
  assumes "json_ok v"
  obtains c cs where "json_encode v = c # cs" "\<not> json_space c" "c \<notin> {CHR '']'', CHR ''}'', CHR '',''}"
proof (cases v)
  case (JNum l)
  with assms obtain i where l: "l = dec_int i" by auto
  show thesis
  proof (cases "i < 0")
    case True
    with l JNum show thesis by (intro that [of "CHR ''-''"]) (auto simp: dec_int_def)
  next
    case False
    obtain c cs where c: "dec_nat (nat i) = c # cs" by (cases "dec_nat (nat i)") auto
    with dec_nat_digits [of "nat i"] have "is_digit c" by simp
    with c l JNum False show thesis
      by (intro that [of c]) (auto simp: dec_int_def is_digit_def json_space_def)
  qed
next
  case JNull
  then show thesis by (intro that [of "CHR ''n''" "''ull''"]) simp_all
next
  case (JBool b)
  then show thesis
    by (cases b) (auto intro: that [of "CHR ''t''" "''rue''"] that [of "CHR ''f''" "''alse''"])
next
  case (JStr t)
  then show thesis by (intro that [of "CHR 0x22"]) (simp_all add: json_string_def)
next
  case (JArr vs)
  then show thesis by (intro that [of "CHR ''[''"]) simp_all
next
  case (JObj kvs)
  then show thesis by (intro that [of "CHR ''{''"]) simp_all
qed

lemma parse_value_JNum:
  assumes "delimiter rest"
  shows "parse_value (Suc n) (dec_int i @ rest) = Some (JNum (dec_int i), rest)"
proof -
  obtain c cs where c: "dec_int i = c # cs" "c = CHR ''-'' \<or> is_digit c"
  proof (cases "i < 0")
    case True
    then show ?thesis by (intro that) (auto simp: dec_int_def)
  next
    case False
    obtain c cs where c: "dec_nat (nat i) = c # cs" by (cases "dec_nat (nat i)") auto
    with dec_nat_digits [of "nat i"] False show ?thesis by (intro that) (auto simp: dec_int_def)
  qed
  then have "\<not> json_space c" "c \<notin> {CHR 0x22, CHR ''['', CHR ''{'', CHR ''n'', CHR ''t'', CHR ''f''}"
    by (auto simp: json_space_def is_digit_def)
  with parse_number_dec_int [OF assms, of i] c show ?thesis by simp
qed

lemma delimiter_simps [simp]:
  "delimiter []" "delimiter (CHR '','' # t)" "delimiter (CHR '']'' # t)" "delimiter (CHR ''}'' # t)"
  by (simp_all add: delimiter_def)

lemma strings_Join_Cons:
  "strings_Join (x # xs) sep = (if xs = [] then x else x @ sep @ strings_Join xs sep)"
  by (cases xs) auto

lemma parse_elems_encode:
  assumes "\<And>v n rest. v \<in> set vs \<Longrightarrow> delimiter rest \<Longrightarrow> json_fuel v \<le> n
      \<Longrightarrow> parse_value n (json_encode v @ rest) = Some (scrub_json v, rest)"
    and "vs \<noteq> []" "sum_list (map (Suc \<circ> json_fuel) vs) \<le> n"
  shows "parse_elems n (strings_Join (map json_encode vs) '','' @ CHR '']'' # rest)
    = Some (map scrub_json vs, rest)"
  using assms
proof (induction vs arbitrary: n)
  case (Cons v vs)
  obtain m where m: "n = Suc m" using Cons.prems(3) by (cases n) auto
  show ?case
  proof (cases "vs = []")
    case True
    with Cons.prems m show ?thesis by simp
  next
    case False
    have "parse_elems m (strings_Join (map json_encode vs) '','' @ CHR '']'' # rest)
        = Some (map scrub_json vs, rest)"
      using Cons.prems False m by (intro Cons.IH) auto
    moreover have "parse_value m (json_encode v @ CHR '','' # t) = Some (scrub_json v, CHR '','' # t)" for t
      using Cons.prems m by (intro Cons.prems(1)) auto
    ultimately show ?thesis
      using m False by (simp add: strings_Join_Cons)
  qed
qed simp

lemma parse_members_encode:
  assumes "\<And>k v n rest. (k, v) \<in> set kvs \<Longrightarrow> delimiter rest \<Longrightarrow> json_fuel v \<le> n
      \<Longrightarrow> parse_value n (json_encode v @ rest) = Some (scrub_json v, rest)"
    and "kvs \<noteq> []" "sum_list (map (\<lambda>(k, v). Suc (json_fuel v)) kvs) \<le> n"
  shows "parse_members n (strings_Join
      (map (\<lambda>(k, v). json_string k @ '':'' @ json_encode v) kvs) '','' @ CHR ''}'' # rest)
    = Some (map (\<lambda>(k, v). (scrub k, scrub_json v)) kvs, rest)"
  using assms
proof (induction kvs arbitrary: n)
  case (Cons kv kvs)
  obtain k v where kv: "kv = (k, v)" by (cases kv)
  obtain m where m: "n = Suc m" using Cons.prems(3) kv by (cases n) auto
  have v: "parse_value m (json_encode v @ t) = Some (scrub_json v, t)" if "delimiter t" for t
    using Cons.prems m kv that by (intro Cons.prems(1)) auto
  show ?case
  proof (cases "kvs = []")
    case True
    with v [of "CHR ''}'' # rest"] m kv show ?thesis by (simp add: json_string_def parse_json_body)
  next
    case False
    have "parse_members m (strings_Join
          (map (\<lambda>(k, v). json_string k @ '':'' @ json_encode v) kvs) '','' @ CHR ''}'' # rest)
        = Some (map (\<lambda>(k, v). (scrub k, scrub_json v)) kvs, rest)"
      using Cons.prems False m kv by (intro Cons.IH) auto
    with v m False kv show ?thesis
      by (simp add: strings_Join_Cons json_string_def parse_json_body)
  qed
qed simp

lemma parse_json_encode:
  assumes "json_ok v" "delimiter rest" "json_fuel v \<le> n"
  shows "parse_value n (json_encode v @ rest) = Some (scrub_json v, rest)"
  using assms
proof (induction v arbitrary: n rest)
  case (JArr vs)
  then obtain m where m: "n = Suc m" by (cases n) auto
  show ?case
  proof (cases "vs = []")
    case True
    with m show ?thesis by simp
  next
    case False
    have "json_ok (hd vs)" using False JArr.prems by (cases vs) auto
    then obtain c cs where c: "json_encode (hd vs) = c # cs" "\<not> json_space c"
        "c \<notin> {CHR '']'', CHR ''}'', CHR '',''}"
      by (rule json_encode_hd)
    from c(1) obtain ds where "strings_Join (map json_encode vs) '','' = c # ds"
      using False by (cases vs; cases "tl vs = []") (auto simp: strings_Join_Cons)
    moreover have "parse_elems m (strings_Join (map json_encode vs) '','' @ CHR '']'' # rest)
        = Some (map scrub_json vs, rest)"
      using JArr False m by (intro parse_elems_encode) auto
    ultimately show ?thesis using c m by simp
  qed
next
  case (JObj kvs)
  from JObj.prems(3) obtain m where m: "n = Suc m" by (cases n) auto
  have ih: "parse_value n' (json_encode v @ t) = Some (scrub_json v, t)"
    if "(k, v) \<in> set kvs" "delimiter t" "json_fuel v \<le> n'" for k v n' t
    using JObj.IH [of "(k, v)" v t n'] JObj.prems(1) that by (auto simp: prod_set_simps)
  show ?case
  proof (cases "kvs = []")
    case True
    with m show ?thesis by simp
  next
    case False
    then obtain ds where "strings_Join
        (map (\<lambda>(k, v). json_string k @ '':'' @ json_encode v) kvs) '','' = CHR 0x22 # ds"
      by (cases kvs; cases "tl kvs = []") (auto simp: strings_Join_Cons json_string_def)
    moreover have "parse_members m (strings_Join
        (map (\<lambda>(k, v). json_string k @ '':'' @ json_encode v) kvs) '','' @ CHR ''}'' # rest)
      = Some (map (\<lambda>(k, v). (scrub k, scrub_json v)) kvs, rest)"
      using False m JObj.prems(3) ih by (intro parse_members_encode) auto
    ultimately show ?thesis using m by simp
  qed
next
  case (JNum l)
  then obtain m i where "n = Suc m" "l = dec_int i" by (cases n) auto
  with JNum parse_value_JNum [of rest m i] show ?case
    by (simp del: parse_value.simps)
next
  case (JStr s)
  then obtain m where "n = Suc m" by (cases n) auto
  then show ?case by (simp add: json_string_def parse_json_body)
next
  case (JBool b)
  then obtain m where "n = Suc m" by (cases n) auto
  then show ?case by (cases b) (simp_all add: literal_def)
next
  case JNull
  then obtain m where "n = Suc m" by (cases n) auto
  then show ?case by (simp add: literal_def)
qed

lemma strings_Join_length:
  "sum_list (map (\<lambda>x. Suc (length x)) xs) \<le> Suc (length (strings_Join xs [c]))"
  by (induction xs) (auto simp: strings_Join_Cons)

lemma json_encode_length: "json_ok v \<Longrightarrow> Suc 0 \<le> length (json_encode v)"
  by (erule json_encode_hd) simp

lemma json_fuel_length: "json_ok v \<Longrightarrow> json_fuel v \<le> 2 * length (json_encode v)"
proof (induction v)
  case (JArr vs)
  have "sum_list (map (Suc \<circ> json_fuel) vs) \<le> sum_list (map (\<lambda>v. Suc (2 * length (json_encode v))) vs)"
    using JArr by (intro sum_list_mono) auto
  also have "\<dots> \<le> 2 * sum_list (map (\<lambda>v. Suc (length (json_encode v))) vs)"
    by (induction vs) auto
  also have "\<dots> \<le> 2 * Suc (length (strings_Join (map json_encode vs) '',''))"
    using strings_Join_length [of "map json_encode vs" "CHR '',''"] by (simp add: comp_def)
  finally show ?case by simp
next
  case (JObj kvs)
  let ?f = "\<lambda>(k, v). json_string k @ '':'' @ json_encode v"
  have "sum_list (map (\<lambda>(k, v). Suc (json_fuel v)) kvs) \<le> sum_list (map (\<lambda>kv. 2 * Suc (length (?f kv))) kvs)"
    using JObj by (intro sum_list_mono) (auto, fastforce)
  also have "\<dots> = 2 * sum_list (map (\<lambda>x. Suc (length x)) (map ?f kvs))"
    by (induction kvs) auto
  also have "\<dots> \<le> 2 * Suc (length (strings_Join (map ?f kvs) '',''))"
    using strings_Join_length [of "map ?f kvs" "CHR '',''"] by simp
  finally show ?case by simp
qed (auto simp: json_string_def Suc_le_eq dec_int_def eq_commute [of "[]"] split: if_splits)

text \<open>What \<open>Marshal\<close> writes, the parser reads back, up to the repair of invalid UTF-8.\<close>

lemma json_decode_encode:
  assumes "json_ok v"
  shows "json_decode (json_encode v) = Some (scrub_json v)"
proof -
  have "json_fuel v \<le> Suc (2 * length (json_encode v))"
    using json_fuel_length [OF assms] by simp
  from parse_json_encode [OF assms _ this, of "[]"] show ?thesis
    by (simp add: json_decode_def skip_space_def)
qed

end
