(* ===== verification/Storage.thy ===== *)
theory Storage
  imports Withdraw_Service Json
begin

text \<open>
  \<open>internal/storage/repositories.go\<close> over the schema of \<open>internal/storage/migrations\<close>. A
  table is the list of its rows in insertion order; a statement is a function on the tables
  that either fails or returns the new tables. The database driver (go-sqlite3 behind
  \<open>database/sql\<close>) is the record \<open>Driver\<close>: where the tables live in the world, and the error
  a statement meets, if any (a full disk, a cancelled context). A failed statement changes
  nothing, and the pool has one connection (\<open>db.SetMaxOpenConns(1)\<close>), so a transaction sees
  and replaces the whole database.
\<close>

subsection \<open>Rows\<close>

record SnapshotRow =
  sr_id :: int
  sr_module_id :: string
  sr_status :: string
  sr_observed_at :: string
  sr_metrics_json :: string
  sr_findings_json :: string
  sr_created_at :: string

record EventRow =
  er_id :: int
  er_event_type :: string
  er_message :: string
  er_fields_json :: string
  er_created_at :: string

record OverrideRow =
  or_module_id :: string
  or_key :: string
  or_value :: string
  or_updated_by_user_id :: int64
  or_updated_at :: string

record ConfirmationRow =
  cr_id :: string
  cr_kind :: string
  cr_payload_json :: string
  cr_requested_by_user_id :: int64
  cr_expires_at :: string
  cr_created_at :: string

record AttemptRow =
  ar_id :: string
  ar_trigger_kind :: string
  ar_trigger_module_id :: string
  ar_trigger_finding_key :: string
  ar_status :: string
  ar_tx_hash :: string
  ar_nonce :: int64
  ar_gas_units :: int64
  ar_max_fee_per_gas_wei :: "string option"
  ar_max_priority_fee_per_gas_wei :: "string option"
  ar_expected_asset_units :: "string option"
  ar_simulation_success :: int
  ar_failure_reason :: string
  ar_created_at :: string
  ar_updated_at :: string

record Database =
  db_snapshots :: "SnapshotRow list"
  db_snapshot_seq :: int
  db_events :: "EventRow list"
  db_event_seq :: int
  db_overrides :: "OverrideRow list"
  db_confirmations :: "ConfirmationRow list"
  db_attempts :: "AttemptRow list"

definition emptyDatabase :: Database where
  "emptyDatabase = \<lparr>db_snapshots = [], db_snapshot_seq = 0, db_events = [], db_event_seq = 0,
     db_overrides = [], db_confirmations = [], db_attempts = []\<rparr>"

text \<open>The primary keys of the schema.\<close>

definition db_ok :: "Database \<Rightarrow> bool" where
  "db_ok db \<longleftrightarrow>
     distinct (map (\<lambda>r. (or_module_id r, or_key r)) (db_overrides db)) \<and>
     distinct (map cr_id (db_confirmations db)) \<and>
     distinct (map ar_id (db_attempts db)) \<and>
     distinct (map er_id (db_events db)) \<and>
     (\<forall>r \<in> set (db_events db). er_id r \<le> db_event_seq db)"

subsection \<open>Values of the program\<close>

record StoredOverride =
  so_ModuleID :: string
  so_Key :: string
  so_Value :: string
  so_UpdatedByUserID :: int64
  so_UpdatedAt :: Time

record PendingConfirmation =
  pc_ID :: string
  pc_Kind :: string
  pc_PayloadJSON :: string
  pc_RequestedByUserID :: int64
  pc_ExpiresAt :: Time
  pc_CreatedAt :: Time

record EventRecord =
  ev_EventType :: EventType
  ev_Message :: string
  ev_Fields :: "string gomap"
  ev_CreatedAt :: Time

subsection \<open>JSON of the stored values\<close>

definition json_string_map :: "string gomap \<Rightarrow> json" where
  "json_string_map m =
     (case m of
        None \<Rightarrow> JNull
      | Some fm \<Rightarrow> JObj (map (\<lambda>(k, v). (k, JStr v)) (sorted_list_of_fmap fm)))"

definition json_metrics :: "Metric slice \<Rightarrow> json" where
  "json_metrics ms =
     (case ms of
        None \<Rightarrow> JNull
      | Some xs \<Rightarrow> JArr (map (\<lambda>m. JObj [(''Key'', JStr (m_Key m)), (''Value'', JStr (m_Value m)),
                                       (''Unit'', JStr (m_Unit m))]) xs))"

definition json_findings :: "Finding slice \<Rightarrow> json" where
  "json_findings fs =
     (case fs of
        None \<Rightarrow> JNull
      | Some xs \<Rightarrow> JArr (map (\<lambda>f. JObj [(''Key'', JStr (f_Key f)), (''Severity'', JStr (f_Severity f)),
          (''Message'', JStr (f_Message f)), (''Evidence'', json_string_map (f_Evidence f))]) xs))"

text \<open>
  \<open>json.Unmarshal\<close> into a \<open>map[string]string\<close> that is not nil: null makes it nil, a null
  member is the empty string, a later member of the same name wins.
\<close>

fun members_strings :: "(string \<times> json) list \<Rightarrow> (string, string) fmap \<Rightarrow> (string, string) fmap option"
where
  "members_strings [] m = Some m"
| "members_strings ((k, JStr v) # kvs) m = members_strings kvs (fmupd k v m)"
| "members_strings ((k, JNull) # kvs) m = members_strings kvs (fmupd k [] m)"
| "members_strings ((k, _) # kvs) m = None"

definition unmarshal_string_map :: "string \<Rightarrow> gerror + string gomap" where
  "unmarshal_string_map s =
     (case json_decode s of
        None \<Rightarrow> Inl (New ''invalid JSON'')
      | Some JNull \<Rightarrow> Inr None
      | Some (JObj kvs) \<Rightarrow>
          (case members_strings kvs fmempty of
             None \<Rightarrow> Inl (New ''json: cannot unmarshal value into Go value of type string'')
           | Some m \<Rightarrow> Inr (Some m))
      | Some _ \<Rightarrow> Inl (New ''json: cannot unmarshal value into Go value of type map[string]string''))"

subsection \<open>Statements\<close>

record 'w Driver =
  dr_Get :: "'w \<Rightarrow> Database"
  dr_Put :: "Database \<Rightarrow> 'w \<Rightarrow> 'w"
  dr_Fault :: "string \<Rightarrow> ('w, gerror option) io"
  dr_HashText :: "hash \<Rightarrow> string"

definition exec_stmt :: "'w Driver \<Rightarrow> string \<Rightarrow> (Database \<Rightarrow> gerror + Database)
    \<Rightarrow> ('w, gerror option) io" where
  "exec_stmt dr name f =
     onErr (dr_Fault dr name) (\<lambda>e. ret (Some e))
       (\<lambda>w. case f (dr_Get dr w) of
              Inl e \<Rightarrow> (Some e, w)
            | Inr db \<Rightarrow> (None, dr_Put dr db w))"

definition query_stmt :: "'w Driver \<Rightarrow> string \<Rightarrow> (Database \<Rightarrow> 'a) \<Rightarrow> ('w, gerror + 'a) io" where
  "query_stmt dr name f =
     onErr (dr_Fault dr name) (\<lambda>e. ret (Inl e)) (\<lambda>w. (Inr (f (dr_Get dr w)), w))"

definition unique_error :: "string \<Rightarrow> gerror" where
  "unique_error column = New (''UNIQUE constraint failed: '' @ column)"

definition stored_time :: "Time \<Rightarrow> string" where
  "stored_time t = RFC3339Nano t"

text \<open>\<open>time.Parse\<close>, with an error for a string that is no stored time.\<close>

definition parse_time :: "string \<Rightarrow> gerror + Time" where
  "parse_time s =
     (case parse_RFC3339 s of
        Some t \<Rightarrow> Inr t
      | None \<Rightarrow> Inl (New (''parsing time '' @ s)))"

definition insert_snapshot :: "SnapshotRow \<Rightarrow> Database \<Rightarrow> gerror + Database" where
  "insert_snapshot r db =
     Inr (db\<lparr>db_snapshots := db_snapshots db @ [r\<lparr>sr_id := db_snapshot_seq db + 1\<rparr>],
             db_snapshot_seq := db_snapshot_seq db + 1\<rparr>)"

definition insert_event :: "EventRow \<Rightarrow> Database \<Rightarrow> gerror + Database" where
  "insert_event r db =
     Inr (db\<lparr>db_events := db_events db @ [r\<lparr>er_id := db_event_seq db + 1\<rparr>],
             db_event_seq := db_event_seq db + 1\<rparr>)"

definition insert_attempt_row :: "AttemptRow \<Rightarrow> Database \<Rightarrow> gerror + Database" where
  "insert_attempt_row r db =
     (if ar_id r \<in> ar_id ` set (db_attempts db) then Inl (unique_error ''withdrawal_attempts.id'')
      else Inr (db\<lparr>db_attempts := db_attempts db @ [r]\<rparr>))"

definition insert_confirmation_row :: "ConfirmationRow \<Rightarrow> Database \<Rightarrow> gerror + Database" where
  "insert_confirmation_row r db =
     (if cr_id r \<in> cr_id ` set (db_confirmations db)
      then Inl (unique_error ''pending_confirmations.id'')
      else Inr (db\<lparr>db_confirmations := db_confirmations db @ [r]\<rparr>))"

text \<open>The upsert: the row with the same key is changed in place, otherwise one is added.\<close>

fun upsert_rows :: "OverrideRow \<Rightarrow> OverrideRow list \<Rightarrow> OverrideRow list" where
  "upsert_rows r [] = [r]"
| "upsert_rows r (q # qs) =
     (if or_module_id q = or_module_id r \<and> or_key q = or_key r
      then q\<lparr>or_value := or_value r, or_updated_by_user_id := or_updated_by_user_id r,
             or_updated_at := or_updated_at r\<rparr> # qs
      else q # upsert_rows r qs)"

definition upsert_override :: "OverrideRow \<Rightarrow> Database \<Rightarrow> gerror + Database" where
  "upsert_override r db = Inr (db\<lparr>db_overrides := upsert_rows r (db_overrides db)\<rparr>)"

definition select_confirmation :: "string \<Rightarrow> Database \<Rightarrow> ConfirmationRow option" where
  "select_confirmation i db = find (\<lambda>r. cr_id r = i) (db_confirmations db)"

definition delete_confirmation :: "string \<Rightarrow> Database \<Rightarrow> Database" where
  "delete_confirmation i db =
     db\<lparr>db_confirmations := filter (\<lambda>r. cr_id r \<noteq> i) (db_confirmations db)\<rparr>"

text \<open>\<open>ORDER BY created_at DESC, id DESC LIMIT n\<close>: text order on the times.\<close>

definition recent_order :: "EventRow \<Rightarrow> EventRow \<Rightarrow> bool" where
  "recent_order a b \<longleftrightarrow>
     er_created_at b < er_created_at a \<or>
     (er_created_at a = er_created_at b \<and> er_id b \<le> er_id a)"

fun insort_by :: "('a \<Rightarrow> 'a \<Rightarrow> bool) \<Rightarrow> 'a \<Rightarrow> 'a list \<Rightarrow> 'a list" where
  "insort_by le x [] = [x]"
| "insort_by le x (y # ys) = (if le x y then x # y # ys else y # insort_by le x ys)"

definition sort_by :: "('a \<Rightarrow> 'a \<Rightarrow> bool) \<Rightarrow> 'a list \<Rightarrow> 'a list" where
  "sort_by le xs = foldr (insort_by le) xs []"

definition select_recent :: "(EventRow \<Rightarrow> bool) \<Rightarrow> nat \<Rightarrow> Database \<Rightarrow> EventRow list" where
  "select_recent keep n db = take n (sort_by recent_order (filter keep (db_events db)))"

definition override_order :: "OverrideRow \<Rightarrow> OverrideRow \<Rightarrow> bool" where
  "override_order a b \<longleftrightarrow>
     or_module_id a < or_module_id b \<or> (or_module_id a = or_module_id b \<and> or_key a \<le> or_key b)"

definition select_overrides :: "Database \<Rightarrow> OverrideRow list" where
  "select_overrides db = sort_by override_order (db_overrides db)"

subsection \<open>Repositories\<close>

text \<open>
  \<open>json.Marshal\<close> cannot fail on the types it is given here, so its error branches are dead
  and the encoded text is used directly.
\<close>

definition InsertMonitorResult :: "'w Driver \<Rightarrow> MonitorResult \<Rightarrow> Time \<Rightarrow> ('w, gerror option) io" where
  "InsertMonitorResult dr result createdAt =
     onErr (exec_stmt dr ''insert monitor_snapshots'' (insert_snapshot
        \<lparr>sr_id = 0, sr_module_id = mr_ModuleID result, sr_status = mr_Status result,
         sr_observed_at = stored_time (mr_ObservedAt result),
         sr_metrics_json = json_encode (json_metrics (mr_Metrics result)),
         sr_findings_json = json_encode (json_findings (mr_Findings result)),
         sr_created_at = stored_time createdAt\<rparr>))
       (\<lambda>err. ret (Some (Wrap (''insert monitor result for '' @ mr_ModuleID result @ '': '') err [])))
       (ret None)"

definition InsertEvent :: "'w Driver \<Rightarrow> EventType \<Rightarrow> string \<Rightarrow> string gomap \<Rightarrow> Time
    \<Rightarrow> ('w, gerror option) io" where
  "InsertEvent dr eventType message flds createdAt =
     onErr (exec_stmt dr ''insert event_records'' (insert_event
        \<lparr>er_id = 0, er_event_type = eventType, er_message = message,
         er_fields_json = json_encode (json_string_map flds),
         er_created_at = stored_time createdAt\<rparr>))
       (\<lambda>err. ret (Some (Wrap ''insert event record: '' err [])))
       (ret None)"

definition Repositories_Record :: "'w Driver \<Rightarrow> EventType \<Rightarrow> string \<Rightarrow> string gomap \<Rightarrow> Time
    \<Rightarrow> ('w, gerror option) io" where
  "Repositories_Record dr eventType message flds at = InsertEvent dr eventType message flds at"

definition minRecentEventsLimit :: int where "minRecentEventsLimit = 1"
definition maxRecentEventsLimit :: int where "maxRecentEventsLimit = 50"

definition clampRecentEventsLimit :: "int \<Rightarrow> int" where
  "clampRecentEventsLimit limit =
     (if limit < minRecentEventsLimit then minRecentEventsLimit
      else if limit > maxRecentEventsLimit then maxRecentEventsLimit
      else limit)"

definition scanEventRecord :: "EventRow \<Rightarrow> gerror + EventRecord" where
  "scanEventRecord row =
     (case unmarshal_string_map (er_fields_json row) of
        Inl err \<Rightarrow> Inl (Wrap ''decode event fields: '' err [])
      | Inr flds \<Rightarrow>
          (case parse_time (er_created_at row) of
             Inl err \<Rightarrow> Inl (Wrap ''parse event created_at: '' err [])
           | Inr createdAt \<Rightarrow>
               Inr \<lparr>ev_EventType = er_event_type row, ev_Message = er_message row,
                    ev_Fields = flds, ev_CreatedAt = createdAt\<rparr>))"

text \<open>Scanning the rows of a query in order; the first row that fails ends it.\<close>

fun scan_rows :: "('r \<Rightarrow> gerror + 'a) \<Rightarrow> 'r list \<Rightarrow> gerror + 'a list" where
  "scan_rows scan [] = Inr []"
| "scan_rows scan (r # rs) =
     (case scan r of
        Inl err \<Rightarrow> Inl err
      | Inr x \<Rightarrow> (case scan_rows scan rs of Inl err \<Rightarrow> Inl err | Inr xs \<Rightarrow> Inr (x # xs)))"

definition notable_event :: "EventRow \<Rightarrow> bool" where
  "notable_event row \<longleftrightarrow>
     er_event_type row \<in> {EventWarning, EventError, EventSecurity, EventWithdrawal}"

definition ListRecentEvents :: "'w Driver \<Rightarrow> bool \<Rightarrow> int \<Rightarrow> ('w, gerror + EventRecord list) io" where
  "ListRecentEvents dr includeInfo limit =
     (let n = nat (clampRecentEventsLimit limit);
          wrap = (\<lambda>err. ret (Inl (Wrap ''list recent events: '' err []))) in
      tryE (query_stmt dr ''select event_records''
              (select_recent (if includeInfo then (\<lambda>r. True) else notable_event) n))
        wrap (\<lambda>rows.
        case scan_rows scanEventRecord rows of
          Inl err \<Rightarrow> ret (Inl err)
        | Inr events \<Rightarrow>
            onErr (dr_Fault dr ''rows event_records'') wrap (ret (Inr events))))"

definition nullableBigString :: "bigint \<Rightarrow> string option" where
  "nullableBigString v = map_option dec_int v"

definition attempt_row :: "'w Driver \<Rightarrow> WithdrawalAttempt \<Rightarrow> AttemptRow" where
  "attempt_row dr attempt =
     \<lparr>ar_id = wa_ID attempt, ar_trigger_kind = tr_Kind (wa_Trigger attempt),
      ar_trigger_module_id = tr_ModuleID (wa_Trigger attempt),
      ar_trigger_finding_key = tr_FindingKey (wa_Trigger attempt),
      ar_status = wa_Status attempt, ar_tx_hash = dr_HashText dr (wa_TxHash attempt),
      ar_nonce = wa_Nonce attempt, ar_gas_units = wa_GasUnits attempt,
      ar_max_fee_per_gas_wei = nullableBigString (MaxFeePerGas (wa_FeeCaps attempt)),
      ar_max_priority_fee_per_gas_wei = nullableBigString (MaxPriorityFeePerGas (wa_FeeCaps attempt)),
      ar_expected_asset_units = nullableBigString (wa_ExpectedAssetUnits attempt),
      ar_simulation_success = (if wa_SimulationSuccess attempt then 1 else 0),
      ar_failure_reason = wa_FailureReason attempt,
      ar_created_at = stored_time (wa_CreatedAt attempt),
      ar_updated_at = stored_time (wa_UpdatedAt attempt)\<rparr>"

definition InsertWithdrawalAttempt :: "'w Driver \<Rightarrow> 'w AttemptRepository" where
  "InsertWithdrawalAttempt dr attempt =
     onErr (exec_stmt dr ''insert withdrawal_attempts'' (insert_attempt_row (attempt_row dr attempt)))
       (\<lambda>err. ret (Some (Wrap ''insert withdrawal attempt: '' err []))) (ret None)"

definition UpsertThresholdOverride :: "'w Driver \<Rightarrow> string \<Rightarrow> string \<Rightarrow> string \<Rightarrow> int64 \<Rightarrow> Time
    \<Rightarrow> ('w, gerror option) io" where
  "UpsertThresholdOverride dr moduleID key val userID at =
     onErr (exec_stmt dr ''upsert threshold_overrides'' (upsert_override
        \<lparr>or_module_id = moduleID, or_key = key, or_value = val,
         or_updated_by_user_id = userID, or_updated_at = stored_time at\<rparr>))
       (\<lambda>err. ret (Some (Wrap ''upsert threshold override: '' err []))) (ret None)"

definition scanOverride :: "OverrideRow \<Rightarrow> gerror + StoredOverride" where
  "scanOverride row =
     (case parse_time (or_updated_at row) of
        Inl err \<Rightarrow> Inl (Wrap ''parse threshold override updated_at: '' err [])
      | Inr at \<Rightarrow> Inr \<lparr>so_ModuleID = or_module_id row, so_Key = or_key row, so_Value = or_value row,
                        so_UpdatedByUserID = or_updated_by_user_id row, so_UpdatedAt = at\<rparr>)"

definition ListThresholdOverrides :: "'w Driver \<Rightarrow> ('w, gerror + StoredOverride list) io" where
  "ListThresholdOverrides dr =
     (let wrap = (\<lambda>err. ret (Inl (Wrap ''list threshold overrides: '' err []))) in
      tryE (query_stmt dr ''select threshold_overrides'' select_overrides) wrap (\<lambda>rows.
        case scan_rows scanOverride rows of
          Inl err \<Rightarrow> ret (Inl err)
        | Inr overrides \<Rightarrow>
            onErr (dr_Fault dr ''rows threshold_overrides'') wrap (ret (Inr overrides))))"

definition InsertPendingConfirmation :: "'w Driver \<Rightarrow> PendingConfirmation \<Rightarrow> ('w, gerror option) io"
  where
  "InsertPendingConfirmation dr confirmation =
     onErr (exec_stmt dr ''insert pending_confirmations'' (insert_confirmation_row
        \<lparr>cr_id = pc_ID confirmation, cr_kind = pc_Kind confirmation,
         cr_payload_json = pc_PayloadJSON confirmation,
         cr_requested_by_user_id = pc_RequestedByUserID confirmation,
         cr_expires_at = stored_time (pc_ExpiresAt confirmation),
         cr_created_at = stored_time (pc_CreatedAt confirmation)\<rparr>))
       (\<lambda>err. ret (Some (Wrap ''insert pending confirmation: '' err []))) (ret None)"

definition scanConfirmation :: "ConfirmationRow \<Rightarrow> gerror + PendingConfirmation" where
  "scanConfirmation row =
     (case parse_time (cr_expires_at row) of
        Inl err \<Rightarrow> Inl (Wrap ''parse pending confirmation expires_at: '' err [])
      | Inr expiresAt \<Rightarrow>
          (case parse_time (cr_created_at row) of
             Inl err \<Rightarrow> Inl (Wrap ''parse pending confirmation created_at: '' err [])
           | Inr createdAt \<Rightarrow>
               Inr \<lparr>pc_ID = cr_id row, pc_Kind = cr_kind row, pc_PayloadJSON = cr_payload_json row,
                    pc_RequestedByUserID = cr_requested_by_user_id row,
                    pc_ExpiresAt = expiresAt, pc_CreatedAt = createdAt\<rparr>))"

definition selectPendingConfirmation :: "'w Driver \<Rightarrow> string
    \<Rightarrow> ('w, gerror + PendingConfirmation) io" where
  "selectPendingConfirmation dr i =
     tryE (query_stmt dr ''select pending_confirmations'' (select_confirmation i))
       (\<lambda>err. ret (Inl (Wrap ''query pending confirmation: '' err []))) (\<lambda>row.
       case row of
         None \<Rightarrow> ret (Inl (New (''pending confirmation '' @ Quote i @ '' not found'')))
       | Some r \<Rightarrow> ret (scanConfirmation r))"

text \<open>
  One transaction: the deletion becomes visible at the commit; on any error before it the
  deferred rollback leaves the tables as they were. The expiry is checked after the commit,
  so an expired confirmation is used up too.
\<close>

definition consumePendingConfirmation :: "'w Driver \<Rightarrow> string \<Rightarrow> Time \<Rightarrow> int64 \<Rightarrow> bool
    \<Rightarrow> ('w, gerror + PendingConfirmation) io" where
  "consumePendingConfirmation dr i at userID requireUser =
     onErr (dr_Fault dr ''begin'')
       (\<lambda>err. ret (Inl (Wrap ''begin pending confirmation transaction: '' err []))) (
     bindE (selectPendingConfirmation dr i) (\<lambda>confirmation.
     if requireUser \<and> pc_RequestedByUserID confirmation \<noteq> userID
     then ret (Inl (New (''pending confirmation '' @ Quote i @ '' was requested by a different user'')))
     else onErr (dr_Fault dr ''delete pending_confirmations'')
       (\<lambda>err. ret (Inl (Wrap ''delete pending confirmation: '' err []))) (
     onErr (dr_Fault dr ''commit'')
       (\<lambda>err. ret (Inl (Wrap ''commit pending confirmation transaction: '' err []))) (
     bindIO (\<lambda>w. ((), dr_Put dr (delete_confirmation i (dr_Get dr w)) w)) (\<lambda>_.
     if \<not> at < pc_ExpiresAt confirmation
     then ret (Inl (New (''pending confirmation '' @ Quote i @ '' expired'')))
     else ret (Inr confirmation))))))"

definition ConsumePendingConfirmation :: "'w Driver \<Rightarrow> string \<Rightarrow> Time
    \<Rightarrow> ('w, gerror + PendingConfirmation) io" where
  "ConsumePendingConfirmation dr i at = consumePendingConfirmation dr i at 0 False"

definition ConsumePendingConfirmationForUser :: "'w Driver \<Rightarrow> string \<Rightarrow> int64 \<Rightarrow> Time
    \<Rightarrow> ('w, gerror + PendingConfirmation) io" where
  "ConsumePendingConfirmationForUser dr i userID at = consumePendingConfirmation dr i at userID True"

subsection \<open>Keys\<close>

lemma find_append:
  "find P (xs @ ys) = (case find P xs of None \<Rightarrow> find P ys | Some x \<Rightarrow> Some x)"
  by (induction xs) auto

lemma select_confirmation_None:
  "select_confirmation i db = None \<longleftrightarrow> i \<notin> cr_id ` set (db_confirmations db)"
  by (auto simp: select_confirmation_def find_None_iff)

lemma insert_confirmation_row_Inr:
  "insert_confirmation_row r db = Inr db' \<longleftrightarrow>
     select_confirmation (cr_id r) db = None \<and>
     db' = db\<lparr>db_confirmations := db_confirmations db @ [r]\<rparr>"
  by (auto simp: insert_confirmation_row_def select_confirmation_None)

lemma upsert_keys:
  "map (\<lambda>r. (or_module_id r, or_key r)) (upsert_rows r qs) =
     (let ks = map (\<lambda>r. (or_module_id r, or_key r)) qs in
      if (or_module_id r, or_key r) \<in> set ks then ks else ks @ [(or_module_id r, or_key r)])"
  by (induction qs) (auto simp: Let_def)

text \<open>The primary keys survive every statement.\<close>

lemma insert_event_ok:
  assumes "db_ok db" "insert_event e db = Inr db'"
  shows "db_ok db'"
proof -
  have "\<forall>r \<in> set (db_events db). er_id r \<le> db_event_seq db"
    using assms(1) by (simp add: db_ok_def)
  then have "db_event_seq db + 1 \<notin> er_id ` set (db_events db)"
    "\<forall>r \<in> set (db_events db). er_id r \<le> db_event_seq db + 1"
    by force+
  with assms show ?thesis by (auto simp: db_ok_def insert_event_def)
qed

lemma stmt_ok:
  "db_ok db \<Longrightarrow> insert_snapshot s db = Inr db' \<Longrightarrow> db_ok db'"
  "db_ok db \<Longrightarrow> insert_attempt_row a db = Inr db' \<Longrightarrow> db_ok db'"
  "db_ok db \<Longrightarrow> insert_confirmation_row c db = Inr db' \<Longrightarrow> db_ok db'"
  "db_ok db \<Longrightarrow> upsert_override u db = Inr db' \<Longrightarrow> db_ok db'"
  "db_ok db \<Longrightarrow> db_ok (delete_confirmation i db)"
  by (auto simp: db_ok_def insert_snapshot_def insert_attempt_row_def
      insert_confirmation_row_def upsert_override_def delete_confirmation_def upsert_keys Let_def
      distinct_map_filter split: if_splits)

subsection \<open>Sorting\<close>

lemma set_insort_by [simp]: "set (insort_by le x xs) = insert x (set xs)"
  by (induction xs) auto

lemma set_sort_by [simp]: "set (sort_by le xs) = set xs"
  by (induction xs) (simp_all add: sort_by_def)

lemma length_sort_by [simp]: "length (sort_by le xs) = length xs"
proof -
  have "length (insort_by le x ys) = Suc (length ys)" for x ys
    by (induction ys) auto
  then show ?thesis by (induction xs) (simp_all add: sort_by_def)
qed

lemma sorted_sort_by:
  assumes "totalp le" "transp le" "reflp le"
  shows "sorted_wrt le (sort_by le xs)"
proof -
  have "sorted_wrt le (insort_by le x ys)" if "sorted_wrt le ys" for x ys
    using that
  proof (induction ys)
    case (Cons y ys)
    then show ?case
      using assms by (auto dest: transpD totalpD reflpD) (metis reflpD totalpD)+
  qed simp
  then show ?thesis by (induction xs) (simp_all add: sort_by_def)
qed

lemma recent_order_linear: "totalp recent_order" "transp recent_order" "reflp recent_order"
  by (auto simp: totalp_on_def transp_def reflp_def recent_order_def)

subsection \<open>The calls of a run\<close>

datatype repo_call =
    CallInsertResult MonitorResult Time
  | CallInsertEvent EventType string "string gomap" Time
  | CallInsertAttempt WithdrawalAttempt
  | CallUpsertOverride string string string int64 Time
  | CallInsertConfirmation PendingConfirmation
  | CallConsume string Time
  | CallConsumeForUser string int64 Time

fun run_call :: "'w Driver \<Rightarrow> repo_call \<Rightarrow> 'w \<Rightarrow> 'w" where
  "run_call dr (CallInsertResult r t) w = snd (InsertMonitorResult dr r t w)"
| "run_call dr (CallInsertEvent ty m fs t) w = snd (Repositories_Record dr ty m fs t w)"
| "run_call dr (CallInsertAttempt a) w = snd (InsertWithdrawalAttempt dr a w)"
| "run_call dr (CallUpsertOverride m k v u t) w = snd (UpsertThresholdOverride dr m k v u t w)"
| "run_call dr (CallInsertConfirmation c) w = snd (InsertPendingConfirmation dr c w)"
| "run_call dr (CallConsume i t) w = snd (ConsumePendingConfirmation dr i t w)"
| "run_call dr (CallConsumeForUser i u t) w = snd (ConsumePendingConfirmationForUser dr i u t w)"

subsection \<open>Overrides\<close>

definition override_value :: "Database \<Rightarrow> string \<Rightarrow> string \<Rightarrow> string option" where
  "override_value db m k =
     map_option or_value (find (\<lambda>r. or_module_id r = m \<and> or_key r = k) (db_overrides db))"

lemma upsert_override_value:
  assumes "upsert_override r db = Inr db'"
  shows "override_value db' m k =
    (if m = or_module_id r \<and> k = or_key r then Some (or_value r) else override_value db m k)"
proof -
  have "map_option or_value (find (\<lambda>r. or_module_id r = m \<and> or_key r = k) (upsert_rows r qs)) =
    (if m = or_module_id r \<and> k = or_key r then Some (or_value r)
     else map_option or_value (find (\<lambda>r. or_module_id r = m \<and> or_key r = k) qs))" for qs
    by (induction qs) auto
  with assms show ?thesis by (auto simp: upsert_override_def override_value_def)
qed

subsection \<open>The driver's contract\<close>

locale driver =
  fixes dr :: "'w Driver"
  assumes get_put: "dr_Get dr (dr_Put dr db w) = db"
    and fault_get: "dr_Fault dr name w = (r, w') \<Longrightarrow> dr_Get dr w' = dr_Get dr w"
begin

lemma exec_stmt_cases:
  assumes "exec_stmt dr name f w = (r, w')"
  obtains (failed) e where "r = Some e" "dr_Get dr w' = dr_Get dr w"
  | (executed) "r = None" "f (dr_Get dr w) = Inr (dr_Get dr w')"
  using assms unfolding exec_stmt_def
  by (auto elim!: io_elims split: sum.splits dest!: fault_get simp: get_put)

lemma query_stmt_cases:
  assumes "query_stmt dr name f w = (r, w')"
  obtains e where "r = Inl e" "dr_Get dr w' = dr_Get dr w"
  | "r = Inr (f (dr_Get dr w))" "dr_Get dr w' = dr_Get dr w"
  using assms unfolding query_stmt_def by (auto elim!: io_elims dest!: fault_get)

lemma InsertPendingConfirmation_None:
  assumes "InsertPendingConfirmation dr c w = (None, w')"
  shows "select_confirmation (pc_ID c) (dr_Get dr w) = None"
    "dr_Get dr w' = (dr_Get dr w)\<lparr>db_confirmations := db_confirmations (dr_Get dr w) @
       [\<lparr>cr_id = pc_ID c, cr_kind = pc_Kind c, cr_payload_json = pc_PayloadJSON c,
         cr_requested_by_user_id = pc_RequestedByUserID c,
         cr_expires_at = stored_time (pc_ExpiresAt c),
         cr_created_at = stored_time (pc_CreatedAt c)\<rparr>]\<rparr>"
  using assms unfolding InsertPendingConfirmation_def
  by (auto elim!: io_elims exec_stmt_cases simp: insert_confirmation_row_Inr)

lemma selectPendingConfirmation_law:
  assumes "selectPendingConfirmation dr i w = (r, w')"
  shows "dr_Get dr w' = dr_Get dr w \<and>
    (\<forall>c. r = Inr c \<longrightarrow> (\<exists>row. select_confirmation i (dr_Get dr w) = Some row \<and>
       scanConfirmation row = Inr c))"
proof -
  obtain q w1 where q: "query_stmt dr ''select pending_confirmations'' (select_confirmation i) w = (q, w1)"
    by (metis surj_pair)
  from q show ?thesis
  proof (cases rule: query_stmt_cases)
    case (1 e)
    with q assms show ?thesis by (auto simp: selectPendingConfirmation_def tryE_eq ret_eq)
  next
    case 2
    with q assms show ?thesis
      by (cases "select_confirmation i (dr_Get dr w)")
        (auto simp: selectPendingConfirmation_def tryE_eq ret_eq)
  qed
qed

text \<open>How a consumption can end: refused with the tables untouched, used up too late, or used.\<close>

lemma consume_cases:
  assumes "consumePendingConfirmation dr i at userID req w = (r, w')"
  obtains (refused) e where "r = Inl e" "dr_Get dr w' = dr_Get dr w"
  | (expired) e row c where "r = Inl e"
      "select_confirmation i (dr_Get dr w) = Some row" "scanConfirmation row = Inr c"
      "pc_ExpiresAt c \<le> at" "dr_Get dr w' = delete_confirmation i (dr_Get dr w)"
  | (used) row c where "r = Inr c"
      "select_confirmation i (dr_Get dr w) = Some row" "scanConfirmation row = Inr c"
      "at < pc_ExpiresAt c" "req \<longrightarrow> pc_RequestedByUserID c = userID"
      "dr_Get dr w' = delete_confirmation i (dr_Get dr w)"
  using assms unfolding consumePendingConfirmation_def
  by (auto elim!: io_elims split: if_splits
      dest!: fault_get selectPendingConfirmation_law simp: get_put not_less)

text \<open>A confirmation is good for one use.\<close>

lemma select_delete [simp]: "select_confirmation i (delete_confirmation i db) = None"
  by (auto simp: select_confirmation_def delete_confirmation_def find_None_iff)

lemma used_up:
  assumes "consumePendingConfirmation dr i at userID req w = (Inr c, w')"
    and "dr_Get dr v = dr_Get dr w'"
    and "consumePendingConfirmation dr i at2 userID2 req2 v = (r, v')"
  shows "\<exists>e. r = Inl e"
  using assms(1)
proof (cases rule: consume_cases)
  case used
  with assms(2) have "select_confirmation i (dr_Get dr v) = None" by simp
  with assms(3) show ?thesis by (cases rule: consume_cases) auto
qed auto

lemma scan_stored:
  assumes "writable (pc_ExpiresAt c)" "writable (pc_CreatedAt c)"
  shows "scanConfirmation \<lparr>cr_id = pc_ID c, cr_kind = pc_Kind c, cr_payload_json = pc_PayloadJSON c,
     cr_requested_by_user_id = pc_RequestedByUserID c, cr_expires_at = stored_time (pc_ExpiresAt c),
     cr_created_at = stored_time (pc_CreatedAt c)\<rparr> = Inr c"
  using assms by (simp add: scanConfirmation_def parse_time_def stored_time_def parse_RFC3339Nano)

text \<open>What is stored is what the requester gets back, and only the requester.\<close>

lemma insert_consume:
  assumes "InsertPendingConfirmation dr c w = (None, w1)"
    and "writable (pc_ExpiresAt c)" "writable (pc_CreatedAt c)"
    and "dr_Get dr w2 = dr_Get dr w1"
    and "ConsumePendingConfirmationForUser dr (pc_ID c) userID at w2 = (Inr c', w3)"
  shows "c' = c" "pc_RequestedByUserID c = userID" "at < pc_ExpiresAt c"
    "dr_Get dr w3 = dr_Get dr w"
proof -
  note ins = InsertPendingConfirmation_None [OF assms(1)]
  let ?r = "\<lparr>cr_id = pc_ID c, cr_kind = pc_Kind c, cr_payload_json = pc_PayloadJSON c,
     cr_requested_by_user_id = pc_RequestedByUserID c, cr_expires_at = stored_time (pc_ExpiresAt c),
     cr_created_at = stored_time (pc_CreatedAt c)\<rparr>"
  have sel: "select_confirmation (pc_ID c) (dr_Get dr w2) = Some ?r"
    using ins assms(4) by (auto simp: select_confirmation_def find_append)
  have del: "delete_confirmation (pc_ID c) (dr_Get dr w2) = dr_Get dr w"
    using ins assms(4)
    by (auto simp: select_confirmation_def delete_confirmation_def find_None_iff
        intro!: Database.equality filter_True)
  have "c' = c \<and> pc_RequestedByUserID c = userID \<and> at < pc_ExpiresAt c \<and> dr_Get dr w3 = dr_Get dr w"
    using assms(5) unfolding ConsumePendingConfirmationForUser_def
    by (cases rule: consume_cases) (use sel del scan_stored [OF assms(2,3)] in auto)
  then show "c' = c" "pc_RequestedByUserID c = userID" "at < pc_ExpiresAt c"
    "dr_Get dr w3 = dr_Get dr w" by auto
qed

text \<open>The primary keys survive every operation.\<close>

lemma exec_stmt_ok:
  assumes "exec_stmt dr name f w = (r, w')" "db_ok (dr_Get dr w)"
    and "\<And>db db'. db_ok db \<Longrightarrow> f db = Inr db' \<Longrightarrow> db_ok db'"
  shows "db_ok (dr_Get dr w')"
  using assms(1) by (cases rule: exec_stmt_cases) (use assms in auto)

lemma repositories_ok:
  "InsertMonitorResult dr result at w = (r, w') \<Longrightarrow> db_ok (dr_Get dr w) \<Longrightarrow> db_ok (dr_Get dr w')"
  "InsertEvent dr ty msg flds at w = (r, w') \<Longrightarrow> db_ok (dr_Get dr w) \<Longrightarrow> db_ok (dr_Get dr w')"
  "InsertWithdrawalAttempt dr a w = (r, w') \<Longrightarrow> db_ok (dr_Get dr w) \<Longrightarrow> db_ok (dr_Get dr w')"
  "UpsertThresholdOverride dr m k v u at w = (r, w') \<Longrightarrow> db_ok (dr_Get dr w) \<Longrightarrow> db_ok (dr_Get dr w')"
  "InsertPendingConfirmation dr c w = (r, w') \<Longrightarrow> db_ok (dr_Get dr w) \<Longrightarrow> db_ok (dr_Get dr w')"
  unfolding InsertMonitorResult_def InsertEvent_def InsertWithdrawalAttempt_def
    UpsertThresholdOverride_def InsertPendingConfirmation_def
  by (auto elim!: io_elims dest!: exec_stmt_ok dest: stmt_ok insert_event_ok)

lemma consume_ok:
  assumes "consumePendingConfirmation dr i at userID req w = (r, w')" "db_ok (dr_Get dr w)"
  shows "db_ok (dr_Get dr w')"
  using assms(1) by (cases rule: consume_cases) (use assms(2) stmt_ok(5) in auto)

lemma run_call_ok: "db_ok (dr_Get dr w) \<Longrightarrow> db_ok (dr_Get dr (run_call dr c w))"
  by (cases c) (auto intro: repositories_ok [OF prod.collapse [symmetric]]
      consume_ok [OF prod.collapse [symmetric]]
      simp: Repositories_Record_def ConsumePendingConfirmation_def ConsumePendingConfirmationForUser_def)

lemma run_calls_ok: "db_ok (dr_Get dr w) \<Longrightarrow> db_ok (dr_Get dr (fold (run_call dr) cs w))"
  by (induction cs arbitrary: w) (simp_all add: run_call_ok)

text \<open>With no failure of the database a stored confirmation is consumed by its requester in time.\<close>

lemma insert_consume_succeeds:
  assumes "InsertPendingConfirmation dr c w = (None, w1)"
    and "writable (pc_ExpiresAt c)" "writable (pc_CreatedAt c)"
    and "dr_Get dr w2 = dr_Get dr w1"
    and "\<And>name w. fst (dr_Fault dr name w) = None"
    and "pc_RequestedByUserID c = userID" "at < pc_ExpiresAt c"
  shows "\<exists>w3. ConsumePendingConfirmationForUser dr (pc_ID c) userID at w2 = (Inr c, w3)"
proof -
  note ins = InsertPendingConfirmation_None [OF assms(1)]
  have f: "\<exists>v'. dr_Fault dr name v = (None, v') \<and> dr_Get dr v' = dr_Get dr v" for name v
    using assms(5) [of name v] fault_get [of name v] by (metis prod.collapse)
  obtain v1 where 1: "dr_Fault dr ''begin'' w2 = (None, v1)" "dr_Get dr v1 = dr_Get dr w2"
    using f by blast
  obtain v2 where 2: "dr_Fault dr ''select pending_confirmations'' v1 = (None, v2)"
      "dr_Get dr v2 = dr_Get dr v1"
    using f by blast
  obtain v3 where 3: "dr_Fault dr ''delete pending_confirmations'' v2 = (None, v3)" using f by blast
  obtain v4 where 4: "dr_Fault dr ''commit'' v3 = (None, v4)" using f by blast
  have sel: "select_confirmation (pc_ID c) (dr_Get dr v1) = Some \<lparr>cr_id = pc_ID c,
     cr_kind = pc_Kind c, cr_payload_json = pc_PayloadJSON c,
     cr_requested_by_user_id = pc_RequestedByUserID c, cr_expires_at = stored_time (pc_ExpiresAt c),
     cr_created_at = stored_time (pc_CreatedAt c)\<rparr>"
    using ins assms(4) 1 by (auto simp: select_confirmation_def find_append)
  show ?thesis
    using sel 1 2 3 4 assms(6,7) scan_stored [OF assms(2,3)]
    by (simp add: ConsumePendingConfirmationForUser_def consumePendingConfirmation_def io_simps
        selectPendingConfirmation_def query_stmt_def)
qed

lemma upsert_listed:
  assumes "UpsertThresholdOverride dr moduleID key v userID at w = (None, w')"
  shows "override_value (dr_Get dr w') m k =
    (if m = moduleID \<and> k = key then Some v else override_value (dr_Get dr w) m k)"
  using assms unfolding UpsertThresholdOverride_def
  by (auto elim!: io_elims exec_stmt_cases simp: upsert_override_value)

lemma InsertEvent_None:
  assumes "InsertEvent dr ty m flds at w = (None, w')"
  shows "\<exists>i. db_events (dr_Get dr w') = db_events (dr_Get dr w) @ [\<lparr>er_id = i, er_event_type = ty,
     er_message = m, er_fields_json = json_encode (json_string_map flds),
     er_created_at = stored_time at\<rparr>]"
  using assms unfolding InsertEvent_def
  by (auto elim!: io_elims exec_stmt_cases simp: insert_event_def dest!: sym [of _ "dr_Get dr w'"])

lemma ListRecentEvents_Inr:
  assumes "ListRecentEvents dr includeInfo limit w = (Inr events, w')"
  shows "scan_rows scanEventRecord (select_recent (if includeInfo then (\<lambda>r. True) else notable_event)
    (nat (clampRecentEventsLimit limit)) (dr_Get dr w)) = Inr events"
  using assms unfolding ListRecentEvents_def Let_def
  by (auto elim!: io_elims query_stmt_cases split: sum.splits)

end

subsection \<open>What an event row decodes to\<close>

definition text_map :: "string gomap \<Rightarrow> bool" where
  "text_map m \<longleftrightarrow> (case m of None \<Rightarrow> True
     | Some fm \<Rightarrow> \<forall>(k, v) \<in> set (sorted_list_of_fmap fm). valid_utf8 k \<and> valid_utf8 v)"

lemma members_strings_JStr:
  "members_strings (map (\<lambda>(k, v). (k, JStr v)) kvs) m = Some (fold (\<lambda>(k, v). fmupd k v) kvs m)"
  by (induction kvs arbitrary: m) auto

lemma fold_fmupd_distinct:
  "distinct (map fst kvs) \<Longrightarrow> fold (\<lambda>(k, v). fmupd k v) kvs m = m ++\<^sub>f fmap_of_list kvs"
proof (induction kvs arbitrary: m)
  case (Cons kv kvs)
  obtain k v where kv: "kv = (k, v)" by (cases kv)
  have "k \<notin> set (map fst kvs)" using Cons.prems kv by simp
  then have "fmlookup (fmap_of_list kvs) k = None"
    by (simp add: fmlookup_of_list map_of_eq_None_iff)
  then have "k |\<notin>| fmdom (fmap_of_list kvs)" by (rule fmdom_notI)
  then have "fmupd k v m ++\<^sub>f fmap_of_list kvs = m ++\<^sub>f fmupd k v (fmap_of_list kvs)"
    by (intro fmap_ext) (auto simp del: fmap_of_list_simps)
  with Cons kv show ?case by (simp add: fmap_of_list_simps)
qed (simp add: fmap_of_list_simps)

lemma fmap_of_sorted_list [simp]: "fmap_of_list (sorted_list_of_fmap fm) = fm"
proof -
  have "fst ` set (sorted_list_of_fmap fm) = fset (fmdom fm)"
    by (auto simp: sorted_list_of_fmap_def image_image)
  moreover have "map_of (sorted_list_of_fmap fm) k = fmlookup fm k" for k
    by (auto simp: sorted_list_of_fmap_def map_of_map_restrict fmlookup_dom_iff restrict_map_def
        split: option.splits)
  ultimately show ?thesis by (intro fmap_ext) (simp add: fmlookup_of_list)
qed

lemma distinct_sorted_list_of_fmap: "distinct (map fst (sorted_list_of_fmap fm))"
  by (simp add: sorted_list_of_fmap_def comp_def sorted_list_of_fset.rep_eq)

lemma json_ok_string_map: "json_ok (json_string_map m)"
  by (auto simp: json_string_map_def split: option.splits)

lemma scrub_string_map: "text_map m \<Longrightarrow> scrub_json (json_string_map m) = json_string_map m"
  by (cases m) (auto simp: json_string_map_def text_map_def scrub_valid)

lemma unmarshal_string_map_encode:
  assumes "text_map m"
  shows "unmarshal_string_map (json_encode (json_string_map m)) = Inr m"
proof -
  have d: "json_decode (json_encode (json_string_map m)) = Some (json_string_map m)"
    by (simp add: json_decode_encode json_ok_string_map scrub_string_map [OF assms])
  show ?thesis
  proof (cases m)
    case None
    with d show ?thesis by (simp add: unmarshal_string_map_def json_string_map_def)
  next
    case (Some fm)
    have "members_strings (map (\<lambda>(k, v). (k, JStr v)) (sorted_list_of_fmap fm)) fmempty = Some fm"
      by (simp add: members_strings_JStr fold_fmupd_distinct distinct_sorted_list_of_fmap)
    with d Some show ?thesis by (simp add: unmarshal_string_map_def json_string_map_def)
  qed
qed

lemma scanEventRecord_stored:
  assumes "text_map flds" "writable t"
  shows "scanEventRecord \<lparr>er_id = i, er_event_type = ty, er_message = m,
      er_fields_json = json_encode (json_string_map flds), er_created_at = stored_time t\<rparr> =
    Inr \<lparr>ev_EventType = ty, ev_Message = m, ev_Fields = flds, ev_CreatedAt = t\<rparr>"
  using assms
  by (simp add: scanEventRecord_def unmarshal_string_map_encode parse_time_def stored_time_def
      parse_RFC3339Nano)

subsection \<open>Listing\<close>

lemma clampRecentEventsLimit_range:
  "1 \<le> clampRecentEventsLimit n" "clampRecentEventsLimit n \<le> 50"
  "1 \<le> n \<Longrightarrow> n \<le> 50 \<Longrightarrow> clampRecentEventsLimit n = n"
  by (auto simp: clampRecentEventsLimit_def minRecentEventsLimit_def maxRecentEventsLimit_def)

text \<open>What the rows of a listing satisfy, their scanned records satisfy.\<close>

lemma scan_rows_length: "scan_rows scan rs = Inr xs \<Longrightarrow> list_all2 (\<lambda>r x. scan r = Inr x) rs xs"
  by (induction rs arbitrary: xs) (auto split: sum.splits)

lemma scanEventRecord_Inr:
  assumes "scanEventRecord row = Inr e"
  shows "ev_EventType e = er_event_type row" "ev_Message e = er_message row"
  using assms by (auto simp: scanEventRecord_def split: sum.splits)

lemma select_recent_law:
  "length (select_recent keep n db) = min n (length (filter keep (db_events db)))"
  "set (select_recent keep n db) \<subseteq> {r \<in> set (db_events db). keep r}"
  "sorted_wrt recent_order (select_recent keep n db)"
  unfolding select_recent_def
  by (auto dest: in_set_takeD simp: sorted_sort_by recent_order_linear sorted_wrt_take)

end
