(* ===== verification/Share_Price.thy ===== *)
theory Share_Price
  imports Go_Strings Core_Types Json
begin

text \<open>
  \<open>internal/monitor/modules/morpho/share_price.go\<close>: the module that compares the current
  share price with the configured baseline. The reader is an interface of the module, an
  operation on the environment; \<open>sys\<close> is the system clock a nil \<open>Clock\<close> stands for. A
  bootstrap fragment (\<open>map[string]any\<close>) is given by the JSON of its members.
\<close>

type_synonym BootstrapFragment = "(string \<times> json) list"

record 'w SharePriceModule =
  sp_BaselineSharePrice :: bigint
  sp_PreviousSharePrice :: bigint
  sp_WarnBPS :: int64
  sp_UrgentBPS :: int64
  sp_Reader :: "('w, gerror + bigint) io option"
  sp_Clock :: "'w Clock option"

definition sharePriceBaselineConfigKey :: string where
  "sharePriceBaselineConfigKey = ''baseline_share_price_asset_units''"

definition SharePrice_ValidateConfig :: "'w SharePriceModule \<Rightarrow> gerror option" where
  "SharePrice_ValidateConfig module =
     (if (case sp_BaselineSharePrice module of None \<Rightarrow> True | Some b \<Rightarrow> b \<le> 0)
      then Some (New (ModuleSharePriceLoss @ '' '' @ sharePriceBaselineConfigKey @ '' must be positive''))
      else if sint (sp_WarnBPS module) \<le> 0
      then Some (New (ModuleSharePriceLoss @ '' warn threshold must be positive''))
      else if sint (sp_UrgentBPS module) \<le> 0
      then Some (New (ModuleSharePriceLoss @ '' urgent threshold must be positive''))
      else if sint (sp_WarnBPS module) > sint (sp_UrgentBPS module)
      then Some (New (ModuleSharePriceLoss @
             '' warn threshold must be less than or equal to urgent threshold''))
      else if sp_Reader module = None
      then Some (New (ModuleSharePriceLoss @ '' reader is required''))
      else None)"

text \<open>
  \<open>big.Int.Div\<close> is Euclidean, which is \<open>div\<close> for the positive divisors met here, and
  \<open>Int64\<close> keeps the low 64 bits.
\<close>

definition lossBPS :: "int \<Rightarrow> int \<Rightarrow> int64" where
  "lossBPS reference current =
     (if current \<ge> reference then 0
      else word_of_int (((reference - current) * 10000) div reference))"

definition SharePrice_Bootstrap :: "'w SharePriceModule \<Rightarrow> ('w, gerror + BootstrapFragment) io" where
  "SharePrice_Bootstrap module =
     bindE (the (sp_Reader module)) (\<lambda>price.
       ret (Inr [(sharePriceBaselineConfigKey,
         JStr (case price of Some p \<Rightarrow> dec_int p | None \<Rightarrow> ''<nil>''))]))"

definition share_price_evidence :: "int64 \<Rightarrow> int64 \<Rightarrow> string gomap" where
  "share_price_evidence baselineLoss previousLoss =
     Some (fmap_of_list [(''baseline_loss_bps'', dec_int (sint baselineLoss)),
                         (''previous_loss_bps'', dec_int (sint previousLoss))])"

definition share_price_loss_pair :: "'w SharePriceModule \<Rightarrow> int \<Rightarrow> int64 \<times> int64" where
  "share_price_loss_pair module current =
     (lossBPS (the (sp_BaselineSharePrice module)) current,
      (case sp_PreviousSharePrice module of
         Some p \<Rightarrow> if p > 0 then lossBPS p current else 0
       | None \<Rightarrow> 0))"

definition share_price_verdict :: "'w SharePriceModule \<Rightarrow> int64 \<Rightarrow> int64 \<Rightarrow> MonitorStatus \<times> Finding list"
  where
  "share_price_verdict module baselineLoss previousLoss =
     (if sint baselineLoss \<ge> sint (sp_UrgentBPS module) \<or> sint previousLoss \<ge> sint (sp_UrgentBPS module)
      then (MonitorStatusUrgent,
            [\<lparr>f_Key = FindingSharePriceLoss, f_Severity = SeverityUrgent,
              f_Message = ''share price loss crossed urgent threshold'',
              f_Evidence = share_price_evidence baselineLoss previousLoss\<rparr>])
      else if sint baselineLoss \<ge> sint (sp_WarnBPS module) \<or> sint previousLoss \<ge> sint (sp_WarnBPS module)
      then (MonitorStatusWarn,
            [\<lparr>f_Key = FindingSharePriceLoss, f_Severity = SeverityWarn,
              f_Message = ''share price loss crossed warn threshold'',
              f_Evidence = share_price_evidence baselineLoss previousLoss\<rparr>])
      else (MonitorStatusOK, []))"

definition SharePrice_Monitor :: "'w Clock \<Rightarrow> 'w SharePriceModule \<Rightarrow> ('w, gerror + MonitorResult) io"
  where
  "SharePrice_Monitor sys module =
     (case SharePrice_ValidateConfig module of
        Some err \<Rightarrow> ret (Inl err)
      | None \<Rightarrow>
          bindE (the (sp_Reader module)) (\<lambda>price.
          case price of
            None \<Rightarrow> ret (Inl (New (ModuleSharePriceLoss @ '' current share price must be positive'')))
          | Some current \<Rightarrow>
              if current \<le> 0
              then ret (Inl (New (ModuleSharePriceLoss @ '' current share price must be positive'')))
              else (case share_price_loss_pair module current of
                (baselineLoss, previousLoss) \<Rightarrow>
                (case share_price_verdict module baselineLoss previousLoss of
                  (status, findings) \<Rightarrow>
                  bindIO (clock_now sys (sp_Clock module)) (\<lambda>now.
                    ret (Inr \<lparr>mr_ModuleID = ModuleSharePriceLoss, mr_Status = status,
                      mr_ObservedAt = now,
                      mr_Metrics = Some [\<lparr>m_Key = ''share_price_asset_units'',
                        m_Value = dec_int current, m_Unit = ''asset_units''\<rparr>],
                      mr_Findings = Some findings\<rparr>))))))"

subsection \<open>The loss in basis points\<close>

text \<open>Against a positive reference the loss fits an int64 and is exact; it is at most 100%.\<close>

lemma loss_range:
  fixes r c :: int
  assumes "0 < r" "0 \<le> c" "c < r"
  shows "0 \<le> ((r - c) * 10000) div r" "((r - c) * 10000) div r \<le> 10000"
proof -
  show "0 \<le> ((r - c) * 10000) div r"
    using assms by (simp add: pos_imp_zdiv_nonneg_iff)
  have "(r - c) * 10000 \<le> r * 10000" using assms by simp
  then have "((r - c) * 10000) div r \<le> (r * 10000) div r" using assms by (intro zdiv_mono1) auto
  then show "((r - c) * 10000) div r \<le> 10000" using assms by simp
qed

lemma sint_lossBPS:
  assumes "0 < r" "0 \<le> c"
  shows "sint (lossBPS r c) = (if c \<ge> r then 0 else ((r - c) * 10000) div r)"
proof (cases "c \<ge> r")
  case False
  then have "signed_take_bit 63 (((r - c) * 10000) div r) = ((r - c) * 10000) div r"
    using loss_range [of r c] assms by (intro signed_take_bit_int_eq_self) auto
  with False show ?thesis by (simp add: lossBPS_def sint_sbintrunc')
qed (simp add: lossBPS_def)

lemma lossBPS_range:
  assumes "0 < r" "0 \<le> c"
  shows "0 \<le> sint (lossBPS r c)" "sint (lossBPS r c) \<le> 10000"
  using loss_range [of r c] assms by (auto simp: sint_lossBPS)

text \<open>
  The comparison with a threshold needs no division: the loss reaches \<open>b\<close> basis points
  exactly when the price fell to \<open>(10000 - b) / 10000\<close> of the reference or below.
\<close>

lemma le_div_iff:
  fixes r b x :: int
  assumes "0 < r"
  shows "b \<le> x div r \<longleftrightarrow> b * r \<le> x"
proof
  assume "b \<le> x div r"
  then have "b * r \<le> x div r * r" using assms by (intro mult_right_mono) auto
  also have "\<dots> \<le> x" using assms by (simp add: minus_mod_eq_div_mult [symmetric])
  finally show "b * r \<le> x" .
next
  assume "b * r \<le> x"
  then have "b * r div r \<le> x div r" using assms by (intro zdiv_mono1)
  then show "b \<le> x div r" using assms by simp
qed

lemma lossBPS_threshold:
  assumes "0 < r" "0 \<le> c" "0 < b"
  shows "b \<le> sint (lossBPS r c) \<longleftrightarrow> c * 10000 \<le> r * (10000 - b)"
proof (cases "c \<ge> r")
  case True
  moreover have "0 < r * b" using assms by simp
  ultimately have "r * (10000 - b) < c * 10000" by (simp add: algebra_simps)
  then show ?thesis using True assms by (simp add: sint_lossBPS)
next
  case False
  have "b \<le> ((r - c) * 10000) div r \<longleftrightarrow> r * b \<le> (r - c) * 10000"
    using le_div_iff [OF assms(1)] by (simp add: mult.commute)
  also have "\<dots> \<longleftrightarrow> c * 10000 \<le> r * (10000 - b)"
    by (auto simp: algebra_simps)
  finally show ?thesis using False assms by (simp add: sint_lossBPS)
qed

text \<open>A lower price is never a smaller loss.\<close>

lemma lossBPS_antimono:
  assumes "0 < r" "0 \<le> c" "c \<le> d"
  shows "sint (lossBPS r d) \<le> sint (lossBPS r c)"
proof (cases "d \<ge> r")
  case True
  with assms lossBPS_range(1) [of r c] show ?thesis by (simp add: sint_lossBPS)
next
  case False
  have "((r - d) * 10000) div r \<le> ((r - c) * 10000) div r"
    using assms by (intro zdiv_mono1) auto
  with False assms show ?thesis by (simp add: sint_lossBPS)
qed

subsection \<open>The verdict\<close>

text \<open>\<open>fell c r b\<close>: the price \<open>c\<close> is at least \<open>b\<close> basis points below the reference \<open>r\<close>.\<close>

definition fell :: "int \<Rightarrow> int \<Rightarrow> int \<Rightarrow> bool" where
  "fell c r b \<longleftrightarrow> c * 10000 \<le> r * (10000 - b)"

definition worst_reference :: "'w SharePriceModule \<Rightarrow> int \<Rightarrow> int \<Rightarrow> bool" where
  "worst_reference module c b \<longleftrightarrow>
     fell c (the (sp_BaselineSharePrice module)) b \<or>
     (\<exists>p. sp_PreviousSharePrice module = Some p \<and> 0 < p \<and> fell c p b)"

lemma SharePrice_ValidateConfig_None:
  "SharePrice_ValidateConfig module = None \<longleftrightarrow>
     (\<exists>b. sp_BaselineSharePrice module = Some b \<and> 0 < b) \<and> 0 < sint (sp_WarnBPS module) \<and>
     0 < sint (sp_UrgentBPS module) \<and> sint (sp_WarnBPS module) \<le> sint (sp_UrgentBPS module) \<and>
     sp_Reader module \<noteq> None"
  by (auto simp: SharePrice_ValidateConfig_def split: option.splits)

lemma share_price_loss_iff:
  assumes "SharePrice_ValidateConfig module = None" "0 < c" "0 < b"
  shows "(b \<le> sint (fst (share_price_loss_pair module c)) \<or>
          b \<le> sint (snd (share_price_loss_pair module c))) \<longleftrightarrow> worst_reference module c b"
proof -
  from assms(1) obtain r where r: "sp_BaselineSharePrice module = Some r" "0 < r"
    by (auto simp: SharePrice_ValidateConfig_None)
  show ?thesis
    using r assms(2,3)
    by (auto simp: share_price_loss_pair_def worst_reference_def fell_def lossBPS_threshold
        split: option.splits)
qed

lemma SharePrice_Monitor_result:
  assumes "SharePrice_ValidateConfig module = None" "the (sp_Reader module) w = (Inr (Some c), w1)"
    "0 < c" "clock_now sys (sp_Clock module) w1 = (now, w2)"
  shows "\<exists>r. SharePrice_Monitor sys module w = (Inr r, w2) \<and>
    mr_Status r = (if worst_reference module c (sint (sp_UrgentBPS module)) then MonitorStatusUrgent
      else if worst_reference module c (sint (sp_WarnBPS module)) then MonitorStatusWarn
      else MonitorStatusOK) \<and>
    map f_Severity (elems (mr_Findings r)) =
      (if worst_reference module c (sint (sp_UrgentBPS module)) then [SeverityUrgent]
       else if worst_reference module c (sint (sp_WarnBPS module)) then [SeverityWarn] else [])"
proof -
  obtain bl pl where p: "share_price_loss_pair module c = (bl, pl)" by (metis surj_pair)
  have v: "0 < sint (sp_WarnBPS module)" "0 < sint (sp_UrgentBPS module)"
    using assms(1) by (auto simp: SharePrice_ValidateConfig_None)
  note u = share_price_loss_iff [OF assms(1,3) v(2), unfolded p fst_conv snd_conv]
  note w = share_price_loss_iff [OF assms(1,3) v(1), unfolded p fst_conv snd_conv]
  show ?thesis
    using assms v
    by (simp add: SharePrice_Monitor_def p bindE_eq bindIO_eq ret_eq share_price_verdict_def u w)
qed

subsection \<open>Properties\<close>

text \<open>C9: With a valid configuration and a positive current price, the share price module reports
  urgent exactly when the price fell by the urgent threshold or more below the baseline or the
  previous price, else warn by the warn threshold, else OK, with one finding of that severity;
  the comparison is exact on the big integers although the code compares truncated basis points
  in an int64.\<close>

theorem share_price_verdict_exact:
  assumes "SharePrice_ValidateConfig module = None" "the (sp_Reader module) w = (Inr (Some c), w1)"
    "0 < c" "clock_now sys (sp_Clock module) w1 = (now, w2)"
  shows "\<exists>r. SharePrice_Monitor sys module w = (Inr r, w2) \<and>
    mr_Status r = (if worst_reference module c (sint (sp_UrgentBPS module)) then MonitorStatusUrgent
      else if worst_reference module c (sint (sp_WarnBPS module)) then MonitorStatusWarn
      else MonitorStatusOK) \<and>
    map f_Severity (elems (mr_Findings r)) =
      (if worst_reference module c (sint (sp_UrgentBPS module)) then [SeverityUrgent]
       else if worst_reference module c (sint (sp_WarnBPS module)) then [SeverityWarn] else [])"
  using assms by (rule SharePrice_Monitor_result)

definition demo_share_price :: "unit SharePriceModule" where
  "demo_share_price = \<lparr>sp_BaselineSharePrice = Some 1000000, sp_PreviousSharePrice = None,
     sp_WarnBPS = 50, sp_UrgentBPS = 100, sp_Reader = Some (ret (Inr (Some 990001))),
     sp_Clock = Some (FixedClock_Now 0)\<rparr>"

theorem share_price_verdict_exact_witness:
  "\<exists>r. SharePrice_Monitor (ret 0) demo_share_price () = (Inr r, ()) \<and> mr_Status r = MonitorStatusWarn
     \<and> map f_Severity (elems (mr_Findings r)) = [SeverityWarn]"
  using share_price_verdict_exact [of demo_share_price "()" 990001 "()" "ret 0" 0 "()"]
  by (simp add: demo_share_price_def SharePrice_ValidateConfig_None worst_reference_def fell_def
      clock_now_def FixedClock_Now_def ret_def)

end
