(* ===== verification/Monitor_Service.thy ===== *)
theory Monitor_Service
  imports Storage Share_Price
begin

text \<open>
  \<open>internal/monitor/service.go\<close>: running the monitor modules, keeping their latest results,
  storing them and handing them to the result handler. A module is an interface value: a
  record of operations, \<open>None\<close> when it is nil (\<open>isNilModule\<close> also finds typed nil pointers,
  which are \<open>None\<close> here too). The state is the \<open>Latest\<close> map with the world; the mutex makes
  each access to the map atomic.
\<close>

record 'w Module =
  mod_ID :: MonitorModuleID
  mod_ValidateConfig :: "('w, gerror option) io"
  mod_Bootstrap :: "('w, gerror + BootstrapFragment) io"
  mod_Monitor :: "('w, gerror + MonitorResult) io"

type_synonym 'w ResultHandler = "MonitorResult list \<Rightarrow> ('w, gerror option) io"

record 'w MonitorService =
  ms_Modules :: "'w Module option list"
  ms_Storage :: "'w Driver"
  ms_Clock :: "'w Clock"
  ms_ResultHandler :: "'w ResultHandler option"

type_synonym Latest = "(MonitorModuleID, MonitorResult) fmap"
type_synonym 'w mstate = "Latest \<times> 'w"

definition NewService :: "'w Clock \<Rightarrow> 'w Module option list \<Rightarrow> 'w Driver \<Rightarrow> 'w Clock option
    \<Rightarrow> 'w MonitorService \<times> Latest" where
  "NewService sys modules repos clock =
     (\<lparr>ms_Modules = modules, ms_Storage = repos, ms_Clock = clock_now sys clock,
       ms_ResultHandler = None\<rparr>, fmempty)"

definition staleResult :: "MonitorModuleID \<Rightarrow> gerror \<Rightarrow> Time \<Rightarrow> MonitorResult" where
  "staleResult moduleID err now =
     \<lparr>mr_ModuleID = moduleID, mr_Status = MonitorStatusUnknown, mr_ObservedAt = now,
      mr_Metrics = None,
      mr_Findings = Some [\<lparr>f_Key = FindingStaleData, f_Severity = SeverityWarn,
        f_Message = ''module '' @ moduleID @ '' failed: '' @ error_text err,
        f_Evidence = Some (fmap_of_list [(''module_id'', moduleID)])\<rparr>]\<rparr>"

definition invalidModule :: "gerror option \<Rightarrow> gerror \<Rightarrow> gerror option" where
  "invalidModule resultErr e = errors_Join [resultErr, Some (Var ErrInvalidMonitorModule), Some e]"

definition setLatest :: "MonitorResult \<Rightarrow> ('w mstate, unit) io" where
  "setLatest r s = ((), (fmupd (mr_ModuleID r) r (fst s), snd s))"

text \<open>
  What \<open>Monitor\<close> reports, or the stale result made of its error, with the error so far. The
  module's own identifier overwrites the one in its result.
\<close>

definition observeModule :: "'w MonitorService \<Rightarrow> 'w Module \<Rightarrow> gerror option
    \<Rightarrow> ('w, MonitorResult \<times> gerror option) io" where
  "observeModule svc module resultErr =
     bindIO (mod_Monitor module) (\<lambda>r.
       case r of
         Inr result \<Rightarrow> ret (result\<lparr>mr_ModuleID := mod_ID module\<rparr>, resultErr)
       | Inl err \<Rightarrow> bindIO (ms_Clock svc) (\<lambda>now.
           ret (staleResult (mod_ID module) err now,
                errors_Join [resultErr, Some (Var ErrMonitorModuleFailure),
                  Some (Wrap (''run monitor module '' @ mod_ID module @ '': '') err [])])))"

text \<open>The loop of \<open>RunOnce\<close>; the last component tells whether it ran to its end.\<close>

fun runModules :: "'w MonitorService \<Rightarrow> 'w Module option list \<Rightarrow> MonitorResult list \<Rightarrow> gerror option
    \<Rightarrow> ('w mstate, MonitorResult list \<times> gerror option \<times> bool) io" where
  "runModules svc [] results resultErr = ret (results, resultErr, True)"
| "runModules svc (None # rest) results resultErr =
     ret (results, invalidModule resultErr (New ''monitor module is nil''), False)"
| "runModules svc (Some module # rest) results resultErr =
     (let moduleID = mod_ID module in
      if moduleID = []
      then ret (results, invalidModule resultErr (New ''monitor module id is empty''), False)
      else onErr (envIO (mod_ValidateConfig module))
        (\<lambda>err. ret (results, invalidModule resultErr
            (Wrap (''validate monitor module '' @ moduleID @ '': '') err []), False))
        (bindIO (envIO (observeModule svc module resultErr)) (\<lambda>(result, resultErr).
         bindIO (setLatest result) (\<lambda>_.
         bindIO (envIO (ms_Clock svc)) (\<lambda>now.
         bindIO (envIO (InsertMonitorResult (ms_Storage svc) result now)) (\<lambda>stored.
         let resultErr = (case stored of
               None \<Rightarrow> resultErr
             | Some err \<Rightarrow> errors_Join [resultErr, Some (Var ErrMonitorStorage),
                 Some (Wrap (''store monitor result for '' @ moduleID @ '': '') err [])])
         in runModules svc rest (results @ [result]) resultErr))))))"

definition shouldHandleMonitorResults :: "gerror option \<Rightarrow> bool" where
  "shouldHandleMonitorResults err \<longleftrightarrow>
     \<not> error_is err ErrInvalidMonitorModule \<and> \<not> error_is err ErrMonitorStorage"

definition RunOnce :: "'w MonitorService \<Rightarrow> ('w mstate, MonitorResult list \<times> gerror option) io" where
  "RunOnce svc =
     bindIO (runModules svc (ms_Modules svc) [] None) (\<lambda>(results, resultErr, completed).
       if \<not> completed then ret (results, resultErr)
       else (case ms_ResultHandler svc of
               None \<Rightarrow> ret (results, resultErr)
             | Some handler \<Rightarrow>
                 if shouldHandleMonitorResults resultErr
                 then onErr (envIO (handler results))
                   (\<lambda>err. ret (results,
                      errors_Join [resultErr, Some (Var ErrMonitorResultHandler), Some err]))
                   (ret (results, resultErr))
                 else ret (results, resultErr)))"

text \<open>\<open>Snapshot\<close> copies the map; values are immutable here, so the copy is the map.\<close>

definition Snapshot :: "('w mstate, Latest) io" where
  "Snapshot s = (fst s, s)"

definition isRecoverableMonitorError :: "gerror \<Rightarrow> bool" where
  "isRecoverableMonitorError err =
     (if errors_Is err ErrInvalidMonitorModule \<or> errors_Is err ErrMonitorStorage then False
      else errors_Is err ErrMonitorModuleFailure \<or> errors_Is err ErrMonitorResultHandler)"

text \<open>
  The loop over what its \<open>select\<close> receives: a tick, or the end of the context. The result is
  the error that ended the loop, or \<open>None\<close> while it is still waiting when the events given
  are used up.
\<close>

datatype loop_event = Tick | ContextDone gerror

definition fatal :: "gerror option \<Rightarrow> bool" where
  "fatal r \<longleftrightarrow> (case r of None \<Rightarrow> False | Some err \<Rightarrow> \<not> isRecoverableMonitorError err)"

fun tickLoop :: "'w MonitorService \<Rightarrow> loop_event list \<Rightarrow> ('w mstate, gerror option) io" where
  "tickLoop svc [] = ret None"
| "tickLoop svc (ContextDone err # rest) = ret (Some err)"
| "tickLoop svc (Tick # rest) =
     bindIO (RunOnce svc) (\<lambda>(results, err).
       if fatal err then ret err else tickLoop svc rest)"

definition RunLoop :: "'w MonitorService \<Rightarrow> Duration \<Rightarrow> loop_event list \<Rightarrow> ('w mstate, gerror option) io"
  where
  "RunLoop svc interval arrivals =
     (if interval \<le> 0 then ret (Some (New ''monitor interval must be positive''))
      else tickLoop svc (Tick # arrivals))"

subsection \<open>One result per module\<close>

definition record_results :: "MonitorResult list \<Rightarrow> Latest \<Rightarrow> Latest" where
  "record_results rs m = fold (\<lambda>r. fmupd (mr_ModuleID r) r) rs m"

lemma observeModule_ID:
  "observeModule svc module e w = ((r, e'), w') \<Longrightarrow> mr_ModuleID r = mod_ID module"
  unfolding observeModule_def
  by (auto elim!: io_elims split: sum.splits simp: staleResult_def)

text \<open>One step of the loop on a module that is present and valid.\<close>

lemma runModules_step:
  assumes "runModules svc (Some module # rest) results e s = ((results', e', ok), s')"
  obtains (stopped) err where "\<not> ok" "results' = results" "fst s' = fst s"
      "e' = invalidModule e err"
      "snd s' = snd s \<or> (\<exists>verr. mod_ValidateConfig module (snd s) = (Some verr, snd s'))"
  | (ran) w1 r e1 w2 now w3 stored w4 where
      "mod_ID module \<noteq> []" "mod_ValidateConfig module (snd s) = (None, w1)"
      "observeModule svc module e w1 = ((r, e1), w2)" "mr_ModuleID r = mod_ID module"
      "ms_Clock svc w2 = (now, w3)"
      "InsertMonitorResult (ms_Storage svc) r now w3 = (stored, w4)"
      "runModules svc rest (results @ [r])
         (case stored of None \<Rightarrow> e1 | Some err \<Rightarrow> errors_Join [e1, Some (Var ErrMonitorStorage),
            Some (Wrap (''store monitor result for '' @ mod_ID module @ '': '') err [])])
         (fmupd (mr_ModuleID r) r (fst s), w4) = ((results', e', ok), s')"
proof (cases "mod_ID module = []")
  case True
  with assms show thesis by (auto intro: stopped simp: ret_def)
next
  case False
  with assms show thesis
    by (cases s) (auto elim!: io_elims intro: stopped ran simp: Let_def setLatest_def observeModule_ID)
qed

lemma runModules_ids:
  assumes "runModules svc mods results e s = ((results', e', ok), s')"
  shows "\<exists>new. results' = results @ new \<and> fst s' = record_results new (fst s) \<and>
    (ok \<longrightarrow> None \<notin> set mods) \<and> map mr_ModuleID new = map (mod_ID \<circ> the) (take (length new) mods) \<and>
    (ok \<longrightarrow> length new = length mods)"
  using assms
proof (induction mods arbitrary: results e s)
  case Nil
  then show ?case by (auto simp: record_results_def ret_def)
next
  case (Cons m mods)
  show ?case
  proof (cases m)
    case None
    with Cons.prems show ?thesis by (auto simp: record_results_def ret_def)
  next
    case (Some module)
    from Cons.prems [unfolded Some] show ?thesis
    proof (cases rule: runModules_step)
      case (stopped err)
      then show ?thesis by (auto simp: record_results_def)
    next
      case (ran w1 r e1 w2 now w3 stored w4)
      from Cons.IH [OF ran(7)] obtain new where n:
        "results' = (results @ [r]) @ new" "fst s' = record_results new (fmupd (mr_ModuleID r) r (fst s))"
        "ok \<longrightarrow> None \<notin> set mods" "map mr_ModuleID new = map (mod_ID \<circ> the) (take (length new) mods)"
        "ok \<longrightarrow> length new = length mods" by auto
      with ran(4) Some show ?thesis
        by (intro exI [of _ "r # new"]) (auto simp: record_results_def)
    qed
  qed
qed

lemma runModules_invalid:
  assumes "runModules svc mods results e s = ((results', e', ok), s')" "\<not> ok"
  shows "error_is e' ErrInvalidMonitorModule"
  using assms
proof (induction mods arbitrary: results e s)
  case (Cons m mods)
  show ?case
  proof (cases m)
    case None
    with Cons.prems show ?thesis by (auto simp: ret_def invalidModule_def)
  next
    case (Some module)
    from Cons.prems(1) [unfolded Some] show ?thesis
    proof (cases rule: runModules_step)
      case (stopped err)
      then show ?thesis by (simp add: invalidModule_def)
    next
      case (ran w1 r e1 w2 now w3 stored w4)
      then show ?thesis using Cons.IH Cons.prems(2) by blast
    qed
  qed
qed (simp add: ret_def)

subsection \<open>Nothing is handled that was not stored\<close>

definition monitor_sentinels :: "sentinel set" where
  "monitor_sentinels =
     {ErrInvalidMonitorModule, ErrMonitorModuleFailure, ErrMonitorResultHandler, ErrMonitorStorage}"

text \<open>The variables of the package are not exported: no other error wraps them.\<close>

definition foreign :: "gerror \<Rightarrow> bool" where
  "foreign e \<longleftrightarrow> (\<forall>t \<in> monitor_sentinels. \<not> errors_Is e t)"

locale monitor_env = driver dr for dr :: "'w Driver" +
  fixes svc :: "'w MonitorService"
  assumes storage: "ms_Storage svc = dr"
    and clock_rows: "ms_Clock svc w = (t, w')
      \<Longrightarrow> db_snapshots (dr_Get dr w') = db_snapshots (dr_Get dr w)"
    and validate_rows: "Some m \<in> set (ms_Modules svc) \<Longrightarrow> mod_ValidateConfig m w = (r1, w')
      \<Longrightarrow> db_snapshots (dr_Get dr w') = db_snapshots (dr_Get dr w)"
    and monitor_rows: "Some m \<in> set (ms_Modules svc) \<Longrightarrow> mod_Monitor m w = (r2, w')
      \<Longrightarrow> db_snapshots (dr_Get dr w') = db_snapshots (dr_Get dr w)"
    and monitor_foreign: "Some m \<in> set (ms_Modules svc) \<Longrightarrow> mod_Monitor m w = (Inl err, w')
      \<Longrightarrow> foreign err"
begin

lemma observe_law:
  assumes "Some m \<in> set (ms_Modules svc)" "observeModule svc m e w = ((r, e'), w')"
  shows "db_snapshots (dr_Get dr w') = db_snapshots (dr_Get dr w)"
    "error_is e' ErrMonitorStorage = error_is e ErrMonitorStorage"
    "error_is e' ErrInvalidMonitorModule = error_is e ErrInvalidMonitorModule"
proof -
  obtain x w1 where m: "mod_Monitor m w = (x, w1)" by (metis surj_pair)
  note rows = monitor_rows [OF assms(1) m]
  have "db_snapshots (dr_Get dr w') = db_snapshots (dr_Get dr w) \<and>
    error_is e' ErrMonitorStorage = error_is e ErrMonitorStorage \<and>
    error_is e' ErrInvalidMonitorModule = error_is e ErrInvalidMonitorModule"
  proof (cases x)
    case (Inl err)
    with monitor_foreign [OF assms(1)] m have "foreign err" by blast
    with assms(2) m Inl rows show ?thesis
      by (auto simp: observeModule_def bindIO_eq ret_eq foreign_def monitor_sentinels_def
          split: prod.splits dest: clock_rows)
  next
    case (Inr y)
    with assms(2) m rows show ?thesis by (auto simp: observeModule_def bindIO_eq ret_eq)
  qed
  then show "db_snapshots (dr_Get dr w') = db_snapshots (dr_Get dr w)"
    "error_is e' ErrMonitorStorage = error_is e ErrMonitorStorage"
    "error_is e' ErrInvalidMonitorModule = error_is e ErrInvalidMonitorModule" by blast+
qed

definition row_of :: "MonitorResult \<Rightarrow> string \<times> string" where
  "row_of r = (mr_ModuleID r, mr_Status r)"

definition rows :: "'w \<Rightarrow> (string \<times> string) list" where
  "rows w = map (\<lambda>r. (sr_module_id r, sr_status r)) (db_snapshots (dr_Get dr w))"

lemma insert_snapshot_Inr:
  "insert_snapshot q db = Inr db' \<Longrightarrow>
     db_snapshots db' = db_snapshots db @ [q\<lparr>sr_id := db_snapshot_seq db + 1\<rparr>]"
  by (auto simp: insert_snapshot_def)

lemma insert_rows:
  assumes "InsertMonitorResult dr r now w = (stored, w')"
  shows "rows w' = (if stored = None then rows w @ [row_of r] else rows w)"
  using assms unfolding InsertMonitorResult_def
  by (auto elim!: io_elims exec_stmt_cases simp: rows_def row_of_def dest!: insert_snapshot_Inr)

lemma runModules_rows:
  assumes "runModules svc mods results e s = ((results', e', ok), s')"
    and "set mods \<subseteq> set (ms_Modules svc)" "\<not> error_is e' ErrMonitorStorage"
  shows "\<not> error_is e ErrMonitorStorage \<and>
    (\<exists>new. results' = results @ new \<and> rows (snd s') = rows (snd s) @ map row_of new)"
  using assms
proof (induction mods arbitrary: results e s)
  case Nil
  then show ?case by (auto simp: ret_def)
next
  case (Cons m mods)
  show ?case
  proof (cases m)
    case None
    with Cons.prems show ?thesis
      by (auto simp: ret_def invalidModule_def)
  next
    case (Some module)
    then have mem: "Some module \<in> set (ms_Modules svc)" using Cons.prems(2) by auto
    from Cons.prems(1) [unfolded Some] show ?thesis
    proof (cases rule: runModules_step)
      case (stopped err)
      have "rows (snd s') = rows (snd s)"
        using stopped(5) validate_rows [OF mem] by (auto simp: rows_def)
      then show ?thesis using stopped Cons.prems(3) by (auto simp: invalidModule_def)
    next
      case (ran w1 r e1 w2 now w3 stored w4)
      note o = observe_law [OF mem ran(3)]
      have w3: "rows w3 = rows (snd s)"
        using o(1) validate_rows [OF mem ran(2)] clock_rows [OF ran(5)] by (simp add: rows_def)
      from Cons.IH [OF ran(7)] Cons.prems(2,3) obtain new where n:
        "results' = (results @ [r]) @ new" "rows (snd s') = rows w4 @ map row_of new"
        and e: "\<not> error_is (case stored of None \<Rightarrow> e1 | Some err \<Rightarrow> errors_Join [e1, Some (Var ErrMonitorStorage),
            Some (Wrap (''store monitor result for '' @ mod_ID module @ '': '') err [])]) ErrMonitorStorage"
        by auto
      then have "stored = None" "\<not> error_is e1 ErrMonitorStorage"
        by (auto split: option.splits)
      moreover from this have "rows w4 = rows (snd s) @ [row_of r]"
        using insert_rows ran(6) w3 storage by simp
      ultimately show ?thesis using n o(2) by auto
    qed
  qed
qed

text \<open>
  The handler is called at most once, and then with one result per module, each of which has
  a row in the database already.
\<close>

lemma RunOnce_cases:
  assumes run: "RunOnce svc s = ((results, err), s')" and h: "ms_ResultHandler svc = Some h"
  obtains (skipped) "error_is err ErrInvalidMonitorModule \<or> error_is err ErrMonitorStorage"
  | (handled) w1 herr where "h results w1 = (herr, snd s')"
      "map mr_ModuleID results = map (mod_ID \<circ> the) (ms_Modules svc)"
      "rows w1 = rows (snd s) @ map row_of results"
      "herr = None \<Longrightarrow> \<not> error_is err ErrInvalidMonitorModule \<and> \<not> error_is err ErrMonitorStorage"
      "w1 = snd (snd (runModules svc (ms_Modules svc) [] None s))"
proof -
  obtain rs e ok s1 where loop: "runModules svc (ms_Modules svc) [] None s = ((rs, e, ok), s1)"
    by (metis surj_pair)
  note ids = runModules_ids [OF loop]
  show thesis
  proof (cases "ok \<and> shouldHandleMonitorResults e")
    case True
    then have ok: "ok" "\<not> error_is e ErrMonitorStorage" "\<not> error_is e ErrInvalidMonitorModule"
      by (auto simp: shouldHandleMonitorResults_def)
    obtain herr w2 where hd: "h rs (snd s1) = (herr, w2)" by (metis surj_pair)
    have r: "rows (snd s1) = rows (snd s) @ map row_of rs"
      using runModules_rows [OF loop _ ok(2)] by simp
    show thesis
      using run loop h True hd ids ok r
      by (intro handled [of "snd s1" herr])
        (auto simp: RunOnce_def bindIO_eq onErr_eq ret_eq envIO_def split: prod.splits option.splits)
  next
    case False
    then have "RunOnce svc s = ((rs, e), s1)"
      by (cases ok) (simp_all add: RunOnce_def loop bindIO_eq ret_eq h)
    with run have "err = e" by simp
    moreover have "error_is e ErrInvalidMonitorModule \<or> error_is e ErrMonitorStorage"
      using False runModules_invalid [OF loop] by (auto simp: shouldHandleMonitorResults_def)
    ultimately show thesis by (intro skipped) simp
  qed
qed

end

subsection \<open>Properties\<close>

text \<open>C21: The monitor loop survives everything it can recover from: with a positive interval it
  ends only when its context is done or with an error that is not recoverable, and an error that
  comes from failing modules or from the result handler alone is recoverable; an invalid module
  and a result that could not be stored are not.\<close>

theorem monitor_loop_ends_only_when_fatal:
  assumes "0 < interval" "RunLoop svc interval arrivals s = (Some err, s')"
  shows "ContextDone err \<in> set arrivals \<or>
    (errors_Is err ErrInvalidMonitorModule \<or> errors_Is err ErrMonitorStorage \<or>
     \<not> errors_Is err ErrMonitorModuleFailure \<and> \<not> errors_Is err ErrMonitorResultHandler)"
proof -
  have "ContextDone err \<in> set arrivals \<or> \<not> isRecoverableMonitorError err"
    if "tickLoop svc evs s = (Some err, s')" "set evs \<subseteq> insert Tick (set arrivals)" for evs s
    using that
    by (induction svc evs arbitrary: s rule: tickLoop.induct)
      (auto elim!: io_elims split: if_splits prod.splits simp: fatal_def)
  from this [of "Tick # arrivals" s] assms show ?thesis
    by (auto simp: RunLoop_def isRecoverableMonitorError_def split: if_splits)
qed

definition idle_driver :: "unit Driver" where
  "idle_driver = \<lparr>dr_Get = (\<lambda>w. emptyDatabase), dr_Put = (\<lambda>db w. w), dr_Fault = (\<lambda>name. ret None),
     dr_HashText = (\<lambda>h. [])\<rparr>"

theorem monitor_loop_ends_only_when_fatal_witness:
  "\<exists>err. RunLoop \<lparr>ms_Modules = [None], ms_Storage = idle_driver, ms_Clock = ret 0, ms_ResultHandler = None\<rparr> 60 []
      (fmempty, ()) = (Some err, (fmempty, ())) \<and>
    (errors_Is err ErrInvalidMonitorModule \<or> errors_Is err ErrMonitorStorage \<or>
     \<not> errors_Is err ErrMonitorModuleFailure \<and> \<not> errors_Is err ErrMonitorResultHandler)"
proof -
  have "\<exists>err. RunLoop \<lparr>ms_Modules = [None], ms_Storage = idle_driver, ms_Clock = ret 0, ms_ResultHandler = None\<rparr>
      60 [] (fmempty, ()) = (Some err, (fmempty, ()))"
    by (simp add: RunLoop_def RunOnce_def io_simps fatal_def isRecoverableMonitorError_def
        invalidModule_def errors_Join_eq)
  then show ?thesis using monitor_loop_ends_only_when_fatal [of 60] by fastforce
qed

end
