(* ===== verification/Core_Clone.thy ===== *)
theory Core_Clone
  imports Monitor_Service
begin

text \<open>
  \<open>internal/core/clone.go\<close> with the memory made explicit. Big integers, byte slices, slices of
  metrics and findings and maps live in a heap and are shared by reference; the structs that
  hold them are values, as in Go. A reading function (\<open>read_*\<close>) gives the immutable value object
  of \<open>Core_Types\<close> that a struct stands for in a heap. This is what the other theories rest on when
  they treat value objects as values: a clone reads as its original and shares nothing with it.
\<close>

subsection \<open>The heap\<close>

type_synonym ref = nat

record hFinding =
  hf_Key :: FindingKey
  hf_Severity :: Severity
  hf_Message :: string
  hf_Evidence :: "ref option"

record hMonitorResult =
  hr_ModuleID :: MonitorModuleID
  hr_Status :: MonitorStatus
  hr_ObservedAt :: Time
  hr_Metrics :: "ref option"
  hr_Findings :: "ref option"

datatype cell =
    BigCell int
  | BytesCell bytes
  | MetricsCell "Metric list"
  | FindingsCell "hFinding list"
  | MapCell "(string, string) fmap"

record heap =
  hp_cell :: "ref \<Rightarrow> cell"
  hp_next :: ref

type_synonym 'a heap_io = "(heap, 'a) io"

definition alloc :: "cell \<Rightarrow> ref heap_io" where
  "alloc c h = (hp_next h, h\<lparr>hp_cell := (hp_cell h)(hp_next h := c), hp_next := Suc (hp_next h)\<rparr>)"

definition store :: "ref \<Rightarrow> cell \<Rightarrow> heap \<Rightarrow> heap" where
  "store r c h = h\<lparr>hp_cell := (hp_cell h)(r := c)\<rparr>"

text \<open>Dereferencing; a cell of another type does not occur.\<close>

definition big_at :: "heap \<Rightarrow> ref \<Rightarrow> int" where
  "big_at h r = (case hp_cell h r of BigCell n \<Rightarrow> n | _ \<Rightarrow> 0)"

definition bytes_at :: "heap \<Rightarrow> ref \<Rightarrow> bytes" where
  "bytes_at h r = (case hp_cell h r of BytesCell bs \<Rightarrow> bs | _ \<Rightarrow> [])"

definition metrics_at :: "heap \<Rightarrow> ref \<Rightarrow> Metric list" where
  "metrics_at h r = (case hp_cell h r of MetricsCell ms \<Rightarrow> ms | _ \<Rightarrow> [])"

definition findings_at :: "heap \<Rightarrow> ref \<Rightarrow> hFinding list" where
  "findings_at h r = (case hp_cell h r of FindingsCell fs \<Rightarrow> fs | _ \<Rightarrow> [])"

definition map_at :: "heap \<Rightarrow> ref \<Rightarrow> (string, string) fmap" where
  "map_at h r = (case hp_cell h r of MapCell m \<Rightarrow> m | _ \<Rightarrow> fmempty)"

subsection \<open>Cloning\<close>

definition cloneRef :: "(heap \<Rightarrow> ref \<Rightarrow> cell) \<Rightarrow> ref option \<Rightarrow> ref option heap_io" where
  "cloneRef copy value h =
     (case value of
        None \<Rightarrow> (None, h)
      | Some r \<Rightarrow> (case alloc (copy h r) h of (r', h') \<Rightarrow> (Some r', h')))"

definition h_cloneBigInt :: "ref option \<Rightarrow> ref option heap_io" where
  "h_cloneBigInt = cloneRef (\<lambda>h r. BigCell (big_at h r))"

definition h_cloneBytes :: "ref option \<Rightarrow> ref option heap_io" where
  "h_cloneBytes = cloneRef (\<lambda>h r. BytesCell (bytes_at h r))"

definition h_cloneMetrics :: "ref option \<Rightarrow> ref option heap_io" where
  "h_cloneMetrics = cloneRef (\<lambda>h r. MetricsCell (metrics_at h r))"

definition copy_map :: "(string, string) fmap \<Rightarrow> (string, string) fmap" where
  "copy_map m = fold (\<lambda>(key, v). fmupd key v) (sorted_list_of_fmap m) fmempty"

definition h_cloneEvidence :: "ref option \<Rightarrow> ref option heap_io" where
  "h_cloneEvidence = cloneRef (\<lambda>h r. MapCell (copy_map (map_at h r)))"

definition h_Finding_Clone :: "hFinding \<Rightarrow> hFinding heap_io" where
  "h_Finding_Clone finding =
     bindIO (h_cloneEvidence (hf_Evidence finding)) (\<lambda>evidence. ret (finding\<lparr>hf_Evidence := evidence\<rparr>))"

fun cloneEach :: "('a \<Rightarrow> 'a heap_io) \<Rightarrow> 'a list \<Rightarrow> 'a list heap_io" where
  "cloneEach clone [] = ret []"
| "cloneEach clone (x # xs) =
     bindIO (clone x) (\<lambda>y. bindIO (cloneEach clone xs) (\<lambda>ys. ret (y # ys)))"

definition h_cloneFindings :: "ref option \<Rightarrow> ref option heap_io" where
  "h_cloneFindings findings h =
     (case findings of
        None \<Rightarrow> (None, h)
      | Some r \<Rightarrow>
          bindIO (cloneEach h_Finding_Clone (findings_at h r)) (\<lambda>fs.
          bindIO (alloc (FindingsCell fs)) (\<lambda>r'. ret (Some r'))) h)"

definition h_MonitorResult_Clone :: "hMonitorResult \<Rightarrow> hMonitorResult heap_io" where
  "h_MonitorResult_Clone result =
     bindIO (h_cloneMetrics (hr_Metrics result)) (\<lambda>metrics.
     bindIO (h_cloneFindings (hr_Findings result)) (\<lambda>findings.
     ret (result\<lparr>hr_Metrics := metrics, hr_Findings := findings\<rparr>)))"

text \<open>\<open>cloneMonitorResults\<close> of \<open>internal/monitor/service.go\<close>.\<close>

definition h_cloneMonitorResults :: "hMonitorResult list option \<Rightarrow> hMonitorResult list option heap_io" where
  "h_cloneMonitorResults results =
     (case results of
        None \<Rightarrow> ret None
      | Some rs \<Rightarrow> bindIO (cloneEach h_MonitorResult_Clone rs) (\<lambda>clones. ret (Some clones)))"

text \<open>The structs with at most two pointers of their own: the pointer that each clone replaces.\<close>

record hPositionSnapshot =
  hs_Vault :: address
  hs_Owner :: address
  hs_Receiver :: address
  hs_ShareBalance :: "ref option"
  hs_AssetSymbol :: string
  hs_AssetDecimals :: uint8
  hs_ObservedAt :: Time

record hFullExitRequest =
  hq_Vault :: address
  hq_Owner :: address
  hq_Receiver :: address
  hq_Shares :: "ref option"

record hTxCandidate =
  hc_To :: address
  hc_Data :: "ref option"
  hc_Value :: "ref option"

record hFullExitSimulation =
  hm_Success :: bool
  hm_ExpectedAssetUnits :: "ref option"
  hm_GasUnits :: uint64
  hm_RevertReason :: string

definition h_PositionSnapshot_Clone :: "hPositionSnapshot \<Rightarrow> hPositionSnapshot heap_io" where
  "h_PositionSnapshot_Clone snapshot =
     bindIO (h_cloneBigInt (hs_ShareBalance snapshot)) (\<lambda>b. ret (snapshot\<lparr>hs_ShareBalance := b\<rparr>))"

definition h_FullExitRequest_Clone :: "hFullExitRequest \<Rightarrow> hFullExitRequest heap_io" where
  "h_FullExitRequest_Clone request =
     bindIO (h_cloneBigInt (hq_Shares request)) (\<lambda>b. ret (request\<lparr>hq_Shares := b\<rparr>))"

definition h_TxCandidate_Clone :: "hTxCandidate \<Rightarrow> hTxCandidate heap_io" where
  "h_TxCandidate_Clone candidate =
     bindIO (h_cloneBytes (hc_Data candidate)) (\<lambda>d.
     bindIO (h_cloneBigInt (hc_Value candidate)) (\<lambda>v.
     ret (candidate\<lparr>hc_Data := d, hc_Value := v\<rparr>)))"

definition h_FullExitSimulation_Clone :: "hFullExitSimulation \<Rightarrow> hFullExitSimulation heap_io" where
  "h_FullExitSimulation_Clone simulation =
     bindIO (h_cloneBigInt (hm_ExpectedAssetUnits simulation))
       (\<lambda>b. ret (simulation\<lparr>hm_ExpectedAssetUnits := b\<rparr>))"

subsection \<open>What a struct stands for, and the memory it owns\<close>

definition read_finding :: "heap \<Rightarrow> hFinding \<Rightarrow> Finding" where
  "read_finding h f = \<lparr>f_Key = hf_Key f, f_Severity = hf_Severity f, f_Message = hf_Message f,
     f_Evidence = map_option (map_at h) (hf_Evidence f)\<rparr>"

definition read_result :: "heap \<Rightarrow> hMonitorResult \<Rightarrow> MonitorResult" where
  "read_result h r = \<lparr>mr_ModuleID = hr_ModuleID r, mr_Status = hr_Status r,
     mr_ObservedAt = hr_ObservedAt r, mr_Metrics = map_option (metrics_at h) (hr_Metrics r),
     mr_Findings = map_option (\<lambda>a. map (read_finding h) (findings_at h a)) (hr_Findings r)\<rparr>"

definition finding_refs :: "hFinding \<Rightarrow> ref set" where
  "finding_refs f = set_option (hf_Evidence f)"

definition result_refs :: "heap \<Rightarrow> hMonitorResult \<Rightarrow> ref set" where
  "result_refs h r = set_option (hr_Metrics r) \<union> set_option (hr_Findings r) \<union>
     (\<Union>a \<in> set_option (hr_Findings r). \<Union>f \<in> set (findings_at h a). finding_refs f)"

text \<open>All of it has been allocated.\<close>

definition allocated :: "heap \<Rightarrow> ref set \<Rightarrow> bool" where
  "allocated h rs \<longleftrightarrow> (\<forall>r \<in> rs. r < hp_next h)"

text \<open>A heap later than another that leaves its cells alone; the memory owned is new.\<close>

definition extends :: "heap \<Rightarrow> heap \<Rightarrow> bool" where
  "extends h h' \<longleftrightarrow> hp_next h \<le> hp_next h' \<and> (\<forall>r < hp_next h. hp_cell h' r = hp_cell h r)"

definition fresh_in :: "heap \<Rightarrow> heap \<Rightarrow> ref set \<Rightarrow> bool" where
  "fresh_in h h' rs \<longleftrightarrow> (\<forall>r \<in> rs. hp_next h \<le> r \<and> r < hp_next h')"

lemma extends_refl [simp]: "extends h h"
  by (simp add: extends_def)

lemma extends_trans: "extends h h1 \<Longrightarrow> extends h1 h2 \<Longrightarrow> extends h h2"
  by (auto simp: extends_def)

lemma extends_allocated: "extends h h' \<Longrightarrow> allocated h rs \<Longrightarrow> allocated h' rs"
  by (auto simp: extends_def allocated_def)

lemma fresh_allocated: "fresh_in h h' rs \<Longrightarrow> allocated h' rs"
  by (simp add: fresh_in_def allocated_def)

lemma fresh_extends:
  "fresh_in h h1 rs \<Longrightarrow> extends h1 h2 \<Longrightarrow> fresh_in h h2 rs"
  "extends h h1 \<Longrightarrow> fresh_in h1 h2 rs \<Longrightarrow> fresh_in h h2 rs"
  by (auto simp: fresh_in_def extends_def)

lemma fresh_Un [simp]: "fresh_in h h' (a \<union> b) \<longleftrightarrow> fresh_in h h' a \<and> fresh_in h h' b"
  by (auto simp: fresh_in_def)

lemma fresh_empty [simp]: "fresh_in h h' {}"
  by (simp add: fresh_in_def)

lemma allocated_Un [simp]: "allocated h (a \<union> b) \<longleftrightarrow> allocated h a \<and> allocated h b"
  by (auto simp: allocated_def)

lemma allocated_empty [simp]: "allocated h {}"
  by (simp add: allocated_def)

lemma alloc_extends: "alloc c h = (r, h') \<Longrightarrow>
    extends h h' \<and> fresh_in h h' {r} \<and> hp_cell h' r = c"
  by (auto simp: alloc_def extends_def fresh_in_def)

subsection \<open>The contract of a clone\<close>

text \<open>
  \<open>rd\<close> reads a value, which owns the memory \<open>refs\<close>. The clone is made in new memory only, leaves
  the old memory alone and reads as the original; what a value reads depends on its own memory
  alone.
\<close>

locale clone_of =
  fixes cl :: "'a \<Rightarrow> 'a heap_io"
    and rd :: "heap \<Rightarrow> 'a \<Rightarrow> 'v"
    and refs :: "heap \<Rightarrow> 'a \<Rightarrow> ref set"
  assumes clone_extends: "cl x h = (y, h') \<Longrightarrow> extends h h'"
    and clone_fresh: "cl x h = (y, h') \<Longrightarrow> allocated h (refs h x) \<Longrightarrow> fresh_in h h' (refs h' y)"
    and clone_reads: "cl x h = (y, h') \<Longrightarrow> allocated h (refs h x) \<Longrightarrow> rd h' y = rd h x"
    and frame_refs: "(\<And>r. r \<in> refs h x \<Longrightarrow> hp_cell h' r = hp_cell h r) \<Longrightarrow> refs h' x = refs h x"
    and frame_reads: "(\<And>r. r \<in> refs h x \<Longrightarrow> hp_cell h' r = hp_cell h r) \<Longrightarrow> rd h' x = rd h x"
begin

lemma later:
  assumes "extends h h'" "allocated h (refs h x)"
  shows "rd h' x = rd h x" "refs h' x = refs h x"
  using assms by (auto simp: extends_def allocated_def intro!: frame_reads frame_refs)

text \<open>Whatever is written to the memory there was before the clone, the clone reads the same.\<close>

lemma clone_survives:
  assumes "cl x h = (y, h')" "allocated h (refs h x)"
    and "\<And>r. hp_next h \<le> r \<Longrightarrow> hp_cell h'' r = hp_cell h' r"
  shows "rd h'' y = rd h x"
proof -
  have "rd h'' y = rd h' y"
    using clone_fresh [OF assms(1,2)] by (intro frame_reads assms(3)) (auto simp: fresh_in_def)
  with clone_reads [OF assms(1,2)] show ?thesis by simp
qed

text \<open>Whatever is written to the clone, and to memory newer still, the original reads the same.\<close>

lemma original_survives:
  assumes "cl x h = (y, h')" "allocated h (refs h x)"
    and "\<And>r. r < hp_next h \<Longrightarrow> hp_cell h'' r = hp_cell h' r"
  shows "rd h'' x = rd h x"
  using assms clone_extends [OF assms(1)]
  by (intro frame_reads) (auto simp: allocated_def extends_def)

end

subsection \<open>Every clone meets it\<close>

lemma clone_of_cloneRef:
  assumes at_cell: "\<And>h h' r. hp_cell h' r = hp_cell h r \<Longrightarrow> at h' r = at h r"
    and at_copy: "\<And>h h' r r'. hp_cell h' r' = copy h r \<Longrightarrow> at h' r' = at h r"
  shows "clone_of (cloneRef copy) (\<lambda>h. map_option (at h)) (\<lambda>h. set_option)"
proof -
  have law: "extends h h' \<and> fresh_in h h' (set_option y) \<and> map_option (at h') y = map_option (at h) x"
    if run: "cloneRef copy x h = (y, h')" for x h y h'
  proof (cases x)
    case None
    with run show ?thesis by (simp add: cloneRef_def)
  next
    case (Some r)
    then obtain r' where a: "alloc (copy h r) h = (r', h')" "y = Some r'"
      using run by (cases "alloc (copy h r) h") (simp add: cloneRef_def)
    from alloc_extends [OF a(1)] a(2) Some at_copy [of h' r' h r] show ?thesis by simp
  qed
  show ?thesis
    by unfold_locales (auto dest: law intro: at_cell option.map_cong)
qed

lemma clone_of_cloneEach:
  assumes "clone_of cl rd refs"
  shows "clone_of (cloneEach cl) (\<lambda>h. map (rd h)) (\<lambda>h xs. \<Union> (refs h ` set xs))"
proof -
  note one = clone_of.clone_extends [OF assms] clone_of.clone_fresh [OF assms] clone_of.clone_reads [OF assms]
  note later = clone_of.later [OF assms]
  have ext: "cloneEach cl xs h = (ys, h') \<Longrightarrow> extends h h'" for xs h ys h'
    by (induction xs arbitrary: h ys) (auto elim!: io_elims dest: one(1) intro: extends_trans)
  have law: "fresh_in h h' (\<Union> (refs h' ` set ys)) \<and> map (rd h') ys = map (rd h) xs"
    if "cloneEach cl xs h = (ys, h')" "allocated h (\<Union> (refs h ` set xs))" for xs h ys h'
    using that
  proof (induction xs arbitrary: h ys)
    case (Cons x xs)
    then obtain y h1 zs where c: "cl x h = (y, h1)" "cloneEach cl xs h1 = (zs, h')" "ys = y # zs"
      by (auto elim!: io_elims)
    have al: "allocated h (refs h x)" "\<And>z. z \<in> set xs \<Longrightarrow> allocated h (refs h z)"
      using Cons.prems(2) by (auto simp: allocated_def)
    note e = one(1) [OF c(1)] ext [OF c(2)]
    have old: "refs h1 z = refs h z" "rd h1 z = rd h z" if "z \<in> set xs" for z
      using later [OF e(1) al(2) [OF that]] by simp_all
    have "allocated h1 (refs h1 z)" if "z \<in> set xs" for z
      using extends_allocated [OF e(1) al(2) [OF that]] old(1) [OF that] by simp
    then have "allocated h1 (\<Union> (refs h1 ` set xs))" by (auto simp: allocated_def)
    from Cons.IH [OF c(2) this] have rest: "fresh_in h1 h' (\<Union> (refs h' ` set zs))"
      "map (rd h') zs = map (rd h) xs" using old by auto
    have f: "fresh_in h h1 (refs h1 y)" using one(2) [OF c(1) al(1)] .
    then have y: "refs h' y = refs h1 y" "rd h' y = rd h x"
      using later [OF e(2) fresh_allocated [OF f]] one(3) [OF c(1) al(1)] by simp_all
    show ?case
      using rest y f fresh_extends(1) [OF f e(2)] fresh_extends(2) [OF e(1) rest(1)] c(3) by simp
  qed (auto simp: ret_def)
  show ?thesis
    using law ext
    by unfold_locales
      (auto intro!: clone_of.frame_reads [OF assms] SUP_cong clone_of.frame_refs [OF assms], blast+)
qed

text \<open>A struct with one pointer, and one with two.\<close>

lemma clone_of_one:
  assumes "clone_of c rd refs"
    and "\<And>x a. get (put x a) = a" "\<And>x a v. build (put x a) v = build x v"
  shows "clone_of (\<lambda>x. bindIO (c (get x)) (\<lambda>a. ret (put x a))) (\<lambda>h x. build x (rd h (get x)))
    (\<lambda>h x. refs h (get x))"
proof -
  note c = clone_of.clone_extends [OF assms(1)] clone_of.clone_fresh [OF assms(1)]
    clone_of.clone_reads [OF assms(1)] clone_of.frame_refs [OF assms(1)] clone_of.frame_reads [OF assms(1)]
  show ?thesis
  proof (unfold_locales, goal_cases)
    case 4 then show ?case by (intro c(4))
  next
    case 5 then show ?case by (intro arg_cong [OF c(5)])
  qed (auto elim!: io_elims simp: assms(2,3) c(1-3))
qed

lemma clone_of_two:
  assumes "clone_of c rd refs" "clone_of c2 rd2 refs2"
    and "\<And>x a b. get (put x a b) = a" "\<And>x a b. get2 (put x a b) = b"
    and "\<And>x a b v v2. build (put x a b) v v2 = build x v v2"
  shows "clone_of (\<lambda>x. bindIO (c (get x)) (\<lambda>a. bindIO (c2 (get2 x)) (\<lambda>b. ret (put x a b))))
    (\<lambda>h x. build x (rd h (get x)) (rd2 h (get2 x))) (\<lambda>h x. refs h (get x) \<union> refs2 h (get2 x))"
    (is "clone_of ?cl ?rd ?refs")
proof -
  note a = clone_of.clone_extends [OF assms(1)] clone_of.clone_fresh [OF assms(1)]
    clone_of.clone_reads [OF assms(1)] clone_of.frame_refs [OF assms(1)] clone_of.frame_reads [OF assms(1)]
  note b = clone_of.clone_extends [OF assms(2)] clone_of.clone_fresh [OF assms(2)]
    clone_of.clone_reads [OF assms(2)] clone_of.frame_refs [OF assms(2)] clone_of.frame_reads [OF assms(2)]
  have ext: "extends h h'" if "?cl x h = (y, h')" for x h y h'
    using that by (auto elim!: io_elims dest: a(1) b(1) intro: extends_trans)
  have law: "fresh_in h h' (?refs h' y) \<and> ?rd h' y = ?rd h x"
    if run: "?cl x h = (y, h')" and al0: "allocated h (?refs h x)" for x h y h'
  proof -
    obtain p h1 q where s: "c (get x) h = (p, h1)" "c2 (get2 x) h1 = (q, h')" "y = put x p q"
      using run by (auto elim!: io_elims)
    have al: "allocated h (refs h (get x))" "allocated h (refs2 h (get2 x))" using al0 by simp_all
    note e = a(1) [OF s(1)] b(1) [OF s(2)]
    note old = clone_of.later [OF assms(2) e(1) al(2)]
    have al1: "allocated h1 (refs2 h1 (get2 x))" using extends_allocated [OF e(1) al(2)] old(2) by simp
    have f: "fresh_in h h1 (refs h1 p)" using a(2) [OF s(1) al(1)] .
    note new = clone_of.later [OF assms(1) e(2) fresh_allocated [OF f]]
    show ?thesis
      using new old(1) f fresh_extends(1) [OF f e(2)] a(3) [OF s(1) al(1)]
        b(3) [OF s(2) al1] fresh_extends(2) [OF e(1) b(2) [OF s(2) al1]] s(3)
      by (simp add: assms(3-5))
  qed
  show ?thesis
  proof (unfold_locales, goal_cases)
    case 1 then show ?case by (rule ext)
  next
    case 2 then show ?case using law by blast
  next
    case 3 then show ?case using law by blast
  next
    case (4 h x h')
    then show ?case using a(4) [of h "get x" h'] b(4) [of h "get2 x" h'] by simp
  next
    case (5 h x h')
    then show ?case using a(5) [of h "get x" h'] b(5) [of h "get2 x" h'] by simp
  qed
qed

text \<open>The clones of the code.\<close>

interpretation big_clone: clone_of h_cloneBigInt "\<lambda>h. map_option (big_at h)" "\<lambda>h. set_option"
  unfolding h_cloneBigInt_def by (rule clone_of_cloneRef) (simp_all add: big_at_def)

interpretation bytes_clone: clone_of h_cloneBytes "\<lambda>h. map_option (bytes_at h)" "\<lambda>h. set_option"
  unfolding h_cloneBytes_def by (rule clone_of_cloneRef) (simp_all add: bytes_at_def)

interpretation metrics_clone: clone_of h_cloneMetrics "\<lambda>h. map_option (metrics_at h)" "\<lambda>h. set_option"
  unfolding h_cloneMetrics_def by (rule clone_of_cloneRef) (simp_all add: metrics_at_def)

lemma copy_map_id: "copy_map m = m"
  by (simp add: copy_map_def fold_fmupd_distinct distinct_sorted_list_of_fmap)

interpretation evidence_clone: clone_of h_cloneEvidence "\<lambda>h. map_option (map_at h)" "\<lambda>h. set_option"
  unfolding h_cloneEvidence_def copy_map_id by (rule clone_of_cloneRef) (simp_all add: map_at_def)

interpretation finding_clone: clone_of h_Finding_Clone read_finding "\<lambda>h. finding_refs"
  using clone_of_one [OF evidence_clone.clone_of_axioms, of hf_Evidence "\<lambda>x a. x\<lparr>hf_Evidence := a\<rparr>"
      "\<lambda>x v. \<lparr>f_Key = hf_Key x, f_Severity = hf_Severity x, f_Message = hf_Message x, f_Evidence = v\<rparr>"]
  by (simp add: h_Finding_Clone_def [abs_def] read_finding_def [abs_def] finding_refs_def [abs_def])

interpretation findings_each: clone_of "cloneEach h_Finding_Clone" "\<lambda>h. map (read_finding h)"
    "\<lambda>h fs. \<Union> (finding_refs ` set fs)"
  by (rule clone_of_cloneEach [OF finding_clone.clone_of_axioms])

definition slice_refs :: "heap \<Rightarrow> ref option \<Rightarrow> ref set" where
  "slice_refs h s = set_option s \<union> (\<Union>a \<in> set_option s. \<Union>f \<in> set (findings_at h a). finding_refs f)"

definition read_slice :: "heap \<Rightarrow> ref option \<Rightarrow> Finding slice" where
  "read_slice h s = map_option (\<lambda>a. map (read_finding h) (findings_at h a)) s"

lemma cloneFindings_law:
  assumes "h_cloneFindings s h = (t, h')" "allocated h (slice_refs h s)"
  shows "fresh_in h h' (slice_refs h' t) \<and> read_slice h' t = read_slice h s"
proof (cases s)
  case None
  with assms show ?thesis by (simp add: h_cloneFindings_def slice_refs_def read_slice_def)
next
  case (Some a)
  then obtain fs h1 r where c: "cloneEach h_Finding_Clone (findings_at h a) h = (fs, h1)"
      "alloc (FindingsCell fs) h1 = (r, h')" "t = Some r"
    using assms(1) by (auto simp: h_cloneFindings_def elim!: io_elims)
  have al: "allocated h (\<Union> (finding_refs ` set (findings_at h a)))"
    using assms(2) Some by (auto simp: slice_refs_def allocated_def)
  note f = findings_each.clone_fresh [OF c(1) al]
  note e = findings_each.clone_extends [OF c(1)] alloc_extends [OF c(2)]
  have "map (read_finding h') fs = map (read_finding h1) fs"
    using findings_each.later(1) [OF _ fresh_allocated [OF f]] e(2) by blast
  moreover have "fresh_in h h' (\<Union> (finding_refs ` set fs))" "fresh_in h h' {r}"
    using fresh_extends(1) [OF f] fresh_extends(2) [OF e(1)] e(2) by blast+
  moreover have "findings_at h' r = fs" using e(2) by (simp add: findings_at_def)
  ultimately show ?thesis
    using findings_each.clone_reads [OF c(1) al] Some c(3)
    by (simp add: slice_refs_def read_slice_def) (simp add: fresh_in_def)
qed

interpretation findings_clone: clone_of h_cloneFindings read_slice slice_refs
proof (unfold_locales, goal_cases)
  case (1 s h t h')
  then show ?case
    by (auto simp: h_cloneFindings_def elim!: io_elims split: option.splits
        dest!: findings_each.clone_extends alloc_extends intro: extends_trans)
next
  case (4 h s h')
  then show ?case by (cases s) (auto simp: slice_refs_def findings_at_def)
next
  case (5 h s h')
  show ?case
  proof (cases s)
    case (Some a)
    then have "findings_at h' a = findings_at h a" using 5 by (simp add: slice_refs_def findings_at_def)
    moreover have "read_finding h' f = read_finding h f" if "f \<in> set (findings_at h a)" for f
      using that Some 5 by (intro finding_clone.frame_reads) (auto simp: slice_refs_def)
    ultimately show ?thesis by (simp add: read_slice_def Some)
  qed (simp add: read_slice_def)
qed (use cloneFindings_law in blast)+

interpretation result_clone: clone_of h_MonitorResult_Clone read_result result_refs
  using clone_of_two [OF metrics_clone.clone_of_axioms findings_clone.clone_of_axioms,
      of hr_Metrics "\<lambda>x a b. x\<lparr>hr_Metrics := a, hr_Findings := b\<rparr>" hr_Findings
      "\<lambda>x v v2. \<lparr>mr_ModuleID = hr_ModuleID x, mr_Status = hr_Status x, mr_ObservedAt = hr_ObservedAt x,
         mr_Metrics = v, mr_Findings = v2\<rparr>"]
  by (simp add: h_MonitorResult_Clone_def [abs_def] read_result_def [abs_def] result_refs_def [abs_def]
      read_slice_def slice_refs_def Un_assoc)

interpretation results_each: clone_of "cloneEach h_MonitorResult_Clone" "\<lambda>h. map (read_result h)"
    "\<lambda>h rs. \<Union> (result_refs h ` set rs)"
  by (rule clone_of_cloneEach [OF result_clone.clone_of_axioms])

interpretation position_clone: clone_of h_PositionSnapshot_Clone
    "\<lambda>h x. \<lparr>ps_Vault = hs_Vault x, ps_Owner = hs_Owner x, ps_Receiver = hs_Receiver x,
       ps_ShareBalance = map_option (big_at h) (hs_ShareBalance x), ps_AssetSymbol = hs_AssetSymbol x,
       ps_AssetDecimals = hs_AssetDecimals x, ps_ObservedAt = hs_ObservedAt x\<rparr>"
    "\<lambda>h x. set_option (hs_ShareBalance x)"
  unfolding h_PositionSnapshot_Clone_def [abs_def]
  by (rule clone_of_one [OF big_clone.clone_of_axioms,
      of hs_ShareBalance "\<lambda>x a. x\<lparr>hs_ShareBalance := a\<rparr>"
        "\<lambda>x v. \<lparr>ps_Vault = hs_Vault x, ps_Owner = hs_Owner x, ps_Receiver = hs_Receiver x,
           ps_ShareBalance = v, ps_AssetSymbol = hs_AssetSymbol x,
           ps_AssetDecimals = hs_AssetDecimals x, ps_ObservedAt = hs_ObservedAt x\<rparr>"]) simp_all

interpretation request_clone: clone_of h_FullExitRequest_Clone
    "\<lambda>h x. \<lparr>rq_Vault = hq_Vault x, rq_Owner = hq_Owner x, rq_Receiver = hq_Receiver x,
       rq_Shares = map_option (big_at h) (hq_Shares x)\<rparr>"
    "\<lambda>h x. set_option (hq_Shares x)"
  unfolding h_FullExitRequest_Clone_def [abs_def]
  by (rule clone_of_one [OF big_clone.clone_of_axioms, of hq_Shares "\<lambda>x a. x\<lparr>hq_Shares := a\<rparr>"
        "\<lambda>x v. \<lparr>rq_Vault = hq_Vault x, rq_Owner = hq_Owner x, rq_Receiver = hq_Receiver x,
           rq_Shares = v\<rparr>"]) simp_all

interpretation candidate_clone: clone_of h_TxCandidate_Clone
    "\<lambda>h x. \<lparr>tc_To = hc_To x, tc_Data = map_option (bytes_at h) (hc_Data x),
       tc_Value = map_option (big_at h) (hc_Value x)\<rparr>"
    "\<lambda>h x. set_option (hc_Data x) \<union> set_option (hc_Value x)"
  unfolding h_TxCandidate_Clone_def [abs_def]
  by (rule clone_of_two [OF bytes_clone.clone_of_axioms big_clone.clone_of_axioms,
      of hc_Data "\<lambda>x a b. x\<lparr>hc_Data := a, hc_Value := b\<rparr>" hc_Value
        "\<lambda>x v v2. \<lparr>tc_To = hc_To x, tc_Data = v, tc_Value = v2\<rparr>"]) simp_all

interpretation simulation_clone: clone_of h_FullExitSimulation_Clone
    "\<lambda>h x. \<lparr>sim_Success = hm_Success x, sim_ExpectedAssetUnits = map_option (big_at h) (hm_ExpectedAssetUnits x),
       sim_GasUnits = hm_GasUnits x, sim_RevertReason = hm_RevertReason x\<rparr>"
    "\<lambda>h x. set_option (hm_ExpectedAssetUnits x)"
  unfolding h_FullExitSimulation_Clone_def [abs_def]
  by (rule clone_of_one [OF big_clone.clone_of_axioms,
      of hm_ExpectedAssetUnits "\<lambda>x a. x\<lparr>hm_ExpectedAssetUnits := a\<rparr>"
        "\<lambda>x v. \<lparr>sim_Success = hm_Success x, sim_ExpectedAssetUnits = v,
           sim_GasUnits = hm_GasUnits x, sim_RevertReason = hm_RevertReason x\<rparr>"]) simp_all

subsection \<open>Properties\<close>

text \<open>Any sequence of writes.\<close>

definition stores :: "(ref \<times> cell) list \<Rightarrow> heap \<Rightarrow> heap" where
  "stores writes h = fold (\<lambda>(r, c). store r c) writes h"

lemma stores_elsewhere:
  "r \<notin> fst ` set writes \<Longrightarrow> hp_cell (stores writes h) r = hp_cell h r"
  unfolding stores_def by (induction writes arbitrary: h) (auto simp: store_def)

text \<open>C35: A clone of a monitor result and its original share no memory: whatever is written to
  anything that existed before, the clone still reads as the original did, and whatever is
  written to anything made since, by the clone or later, the original does.\<close>

theorem clone_shares_nothing:
  assumes "allocated h (result_refs h m)"
    and "\<forall>(r, c) \<in> set before. r < hp_next h" "\<forall>(r, c) \<in> set since. hp_next h \<le> r"
  shows "case h_MonitorResult_Clone m h of (c, h') \<Rightarrow>
    read_result (stores before h') c = read_result h m \<and>
    read_result (stores since h') m = read_result h m"
proof -
  obtain c h' where run: "h_MonitorResult_Clone m h = (c, h')" by (metis surj_pair)
  have "hp_cell (stores before h') r = hp_cell h' r" if "hp_next h \<le> r" for r
    using assms(2) that by (intro stores_elsewhere) force
  moreover have "hp_cell (stores since h') r = hp_cell h' r" if "r < hp_next h" for r
    using assms(3) that by (intro stores_elsewhere) force
  ultimately show ?thesis
    using result_clone.clone_survives [OF run assms(1)] result_clone.original_survives [OF run assms(1)] run
    by simp
qed

definition demo_heap :: heap where
  "demo_heap = \<lparr>hp_cell = (\<lambda>r. if r = 0 then MetricsCell [\<lparr>m_Key = ''k'', m_Value = ''1'', m_Unit = ''u''\<rparr>]
       else FindingsCell []), hp_next = 2\<rparr>"

definition demo_result :: hMonitorResult where
  "demo_result = \<lparr>hr_ModuleID = ''m'', hr_Status = MonitorStatusOK, hr_ObservedAt = 0,
     hr_Metrics = Some 0, hr_Findings = Some 1\<rparr>"

theorem clone_shares_nothing_witness:
  "case h_MonitorResult_Clone demo_result demo_heap of (c, h') \<Rightarrow>
    read_result (stores [(0, MetricsCell [])] h') c = read_result demo_heap demo_result \<and>
    read_result (stores [(2, MetricsCell [])] h') demo_result = read_result demo_heap demo_result"
  by (rule clone_shares_nothing)
    (simp_all add: allocated_def result_refs_def demo_result_def demo_heap_def findings_at_def)

end
