(* ===== verification/Config.thy ===== *)
theory Config
  imports Share_Price
begin

text \<open>
  \<open>internal/config\<close>: the configuration and its validation (\<open>config.go\<close>), amounts and basis
  points (\<open>units.go\<close>), the accessors of the modules' configuration blocks
  (\<open>module_helpers.go\<close>) and the secrets of the environment (\<open>env.go\<close>).

  A value decoded from YAML into an \<open>any\<close> is an \<open>anyval\<close>. The YAML library itself is a
  parameter: \<open>Load\<close> takes the parser, \<open>ModuleStruct\<close> the composition of \<open>yaml.Marshal\<close> and
  \<open>yaml.Unmarshal\<close>. A duration's fraction is computed exactly, where package time goes
  through a float64; every malformed duration has the error of an invalid one.
\<close>

subsection \<open>Values of a module block\<close>

datatype anyval =
    AnyNil
  | AnyBool bool
  | AnyInt int64
  | AnyUint64 uint64
  | AnyFloat string
  | AnyString string
  | AnySeq "anyval list"
  | AnyMap "(string \<times> anyval) list"

type_synonym ModuleConfig = "anyval gomap"

definition config_lookup :: "ModuleConfig \<Rightarrow> string \<Rightarrow> anyval option" where
  "config_lookup m k = (case m of None \<Rightarrow> None | Some fm \<Rightarrow> fmlookup fm k)"

record AppConfig =
  ac_MonitorInterval :: string
  ac_DataDir :: string

record EthereumConfig =
  ec_ChainID :: int64
  ec_VaultAddress :: string
  ec_AssetSymbol :: string
  ec_AssetDecimals :: uint8
  ec_ReceiverAddress :: string

record TelegramConfig =
  tg_ChatID :: int64
  tg_AllowedUserIDs :: "int64 list"
  tg_DailyReportUTCTime :: string

record GasConfig =
  gc_ReplacementTimeout :: string
  gc_GasLimitBufferBPS :: int64
  gc_FeeBumpBPS :: int64
  gc_MaxFeePerGasGwei :: string
  gc_MaxPriorityFeePerGasGwei :: string

record LogConfig =
  lc_FilePath :: string
  lc_MaxSizeMB :: int64
  lc_MaxBackups :: int64
  lc_MaxAgeDays :: int64

record Config =
  cfg_App :: AppConfig
  cfg_Ethereum :: EthereumConfig
  cfg_Telegram :: TelegramConfig
  cfg_Gas :: GasConfig
  cfg_Logs :: LogConfig
  cfg_Modules :: "ModuleConfig gomap"

subsection \<open>Durations\<close>

definition duration_unit :: "string \<Rightarrow> nat option" where
  "duration_unit u =
     (if u = ''ns'' then Some 1
      else if u = ''us'' \<or> u = [char_of (0xC2 :: nat), char_of (0xB5 :: nat), CHR ''s'']
        \<or> u = [char_of (0xCE :: nat), char_of (0xBC :: nat), CHR ''s''] then Some 1000
      else if u = ''ms'' then Some 1000000
      else if u = ''s'' then Some 1000000000
      else if u = ''m'' then Some 60000000000
      else if u = ''h'' then Some 3600000000000
      else None)"

definition unit_char :: "char \<Rightarrow> bool" where
  "unit_char c \<longleftrightarrow> c \<noteq> CHR ''.'' \<and> \<not> is_digit c"

text \<open>
  One number with its unit: the digits before and after the point (at least one of them), the
  unit up to the next digit or point. A component beyond \<open>2 ^ 63\<close> is an error. A sum of
  exactly \<open>2 ^ 63\<close> is possible only with a minus sign.
\<close>

definition duration_part :: "string \<Rightarrow> (nat \<times> string) option" where
  "duration_part s =
     (let pre = takeWhile is_digit s; s1 = dropWhile is_digit s;
          point = (s1 \<noteq> [] \<and> hd s1 = CHR ''.'');
          s2 = (if point then tl s1 else s1);
          post = (if point then takeWhile is_digit s2 else []);
          s3 = (if point then dropWhile is_digit s2 else s2);
          u = takeWhile unit_char s3; s4 = dropWhile unit_char s3 in
      if pre = [] \<and> post = [] then None
      else (case duration_unit u of
              None \<Rightarrow> None
            | Some unit_ns \<Rightarrow>
                let v = nat_of_digits 0 pre * unit_ns
                      + nat_of_digits 0 post * unit_ns div 10 ^ length post in
                if v > 2 ^ 63 then None else Some (v, s4)))"

fun duration_parts :: "nat \<Rightarrow> string \<Rightarrow> nat \<Rightarrow> nat option" where
  "duration_parts 0 s acc = None"
| "duration_parts (Suc n) s acc =
     (if s = [] then Some acc
      else (case duration_part s of
              None \<Rightarrow> None
            | Some (v, rest) \<Rightarrow> if acc + v > 2 ^ 63 then None else duration_parts n rest (acc + v)))"

text \<open>Every part takes at least two bytes, so the length of the string is enough fuel.\<close>

definition ParseDuration :: "string \<Rightarrow> gerror + Duration" where
  "ParseDuration s =
     (let bad = Inl (New (''time: invalid duration '' @ Quote s));
          (neg, body) = (case s of
              c # cs \<Rightarrow> if c = CHR ''-'' then (True, cs) else if c = CHR ''+'' then (False, cs)
                        else (False, s)
            | [] \<Rightarrow> (False, [])) in
      if body = ''0'' then Inr 0
      else if body = [] then bad
      else (case duration_parts (Suc (length body)) body 0 of
              None \<Rightarrow> bad
            | Some d \<Rightarrow>
                if neg then Inr (- int d)
                else if d > 2 ^ 63 - 1 then bad
                else Inr (int d)))"

subsection \<open>Amounts\<close>

definition ValidateBPS :: "string \<Rightarrow> int64 \<Rightarrow> gerror option" where
  "ValidateBPS name v =
     (if sint v < 0 \<or> sint v > 10000
      then Some (New (name @ '' must be between 0 and 10000 bps''))
      else None)"

fun unsignedDecimalLoop :: "string \<Rightarrow> bool \<Rightarrow> bool \<Rightarrow> nat \<Rightarrow> bool" where
  "unsignedDecimalLoop [] sawDigit sawDecimalPoint digitsAfter =
     (sawDigit \<and> (\<not> sawDecimalPoint \<or> digitsAfter > 0))"
| "unsignedDecimalLoop (c # cs) sawDigit sawDecimalPoint digitsAfter =
     (if is_digit c
      then unsignedDecimalLoop cs True sawDecimalPoint
             (if sawDecimalPoint then Suc digitsAfter else digitsAfter)
      else if c = CHR ''.'' \<and> \<not> sawDecimalPoint \<and> sawDigit
      then unsignedDecimalLoop cs sawDigit True digitsAfter
      else False)"

definition isUnsignedBase10Decimal :: "string \<Rightarrow> bool" where
  "isUnsignedBase10Decimal v = unsignedDecimalLoop v False False 0"

text \<open>
  \<open>new(big.Rat).SetString\<close> of a string of that form: the integer its digits spell over the
  power of ten of the number of digits after the point.
\<close>

definition decimal_value :: "string \<Rightarrow> nat \<times> nat" where
  "decimal_value s =
     (let pre = takeWhile is_digit s; post = tl (dropWhile is_digit s) in
      (nat_of_digits 0 (pre @ post), length post))"

definition ParseDecimalUnits :: "string \<Rightarrow> string \<Rightarrow> uint8 \<Rightarrow> gerror + int" where
  "ParseDecimalUnits name v decimals =
     (let clean = TrimSpace v in
      if clean = [] then Inl (New (name @ '' is required''))
      else if \<not> isUnsignedBase10Decimal clean
      then Inl (New (name @ '' must be an unsigned base-10 decimal string''))
      else (case decimal_value clean of
              (num, k) \<Rightarrow>
                let scaled = num * 10 ^ unat decimals in
                if \<not> 10 ^ k dvd scaled
                then Inl (New (name @ '' has more than '' @ dec_nat (unat decimals) @ '' decimal places''))
                else Inr (int (scaled div 10 ^ k))))"

definition ParseGwei :: "string \<Rightarrow> string \<Rightarrow> gerror + int" where
  "ParseGwei name v = ParseDecimalUnits name v 9"

text \<open>\<open>new(big.Int).SetString(text, 10)\<close>\<close>

definition big_SetString :: "string \<Rightarrow> int option" where
  "big_SetString s =
     (let (neg, ds) = (case s of
          c # cs \<Rightarrow> if c = CHR ''+'' then (False, cs) else if c = CHR ''-'' then (True, cs)
                    else (False, s)
        | [] \<Rightarrow> (False, []))
      in if ds = [] \<or> \<not> list_all is_digit ds then None
         else Some (if neg then - int (nat_of_digits 0 ds) else int (nat_of_digits 0 ds)))"

subsection \<open>Validation\<close>

definition required_duration :: "string \<Rightarrow> string \<Rightarrow> gerror option" where
  "required_duration name v =
     (if v = [] then Some (New (name @ '' is required''))
      else (case ParseDuration v of
              Inl err \<Rightarrow> Some (Wrap (name @ '' must be a Go duration: '') err [])
            | Inr d \<Rightarrow> if d \<le> 0 then Some (New (name @ '' must be positive'')) else None))"

definition first_error :: "gerror option list \<Rightarrow> gerror option" where
  "first_error checks = (case filter (\<lambda>e. e \<noteq> None) checks of [] \<Rightarrow> None | e # _ \<Rightarrow> e)"

definition check :: "bool \<Rightarrow> string \<Rightarrow> gerror option" where
  "check bad text = (if bad then Some (New text) else None)"

definition left_error :: "gerror + 'a \<Rightarrow> gerror option" where
  "left_error r = (case r of Inl e \<Rightarrow> Some e | Inr _ \<Rightarrow> None)"

text \<open>The checks of \<open>Validate\<close> in their order; they have no effects, so the first error wins.\<close>

definition Validate :: "Config \<Rightarrow> gerror option" where
  "Validate cfg = first_error [
     required_duration ''app.monitor_interval'' (ac_MonitorInterval (cfg_App cfg)),
     check (ac_DataDir (cfg_App cfg) = []) ''app.data_dir is required'',
     check (sint (ec_ChainID (cfg_Ethereum cfg)) \<le> 0) ''ethereum.chain_id must be positive'',
     check (ec_VaultAddress (cfg_Ethereum cfg) = []) ''ethereum.vault_address is required'',
     check (ec_AssetDecimals (cfg_Ethereum cfg) = 0) ''ethereum.asset_decimals is required'',
     check (tg_ChatID (cfg_Telegram cfg) = 0) ''telegram.chat_id is required'',
     check (tg_AllowedUserIDs (cfg_Telegram cfg) = []) ''telegram.allowed_user_ids must not be empty'',
     required_duration ''gas.replacement_timeout'' (gc_ReplacementTimeout (cfg_Gas cfg)),
     ValidateBPS ''gas.gas_limit_buffer_bps'' (gc_GasLimitBufferBPS (cfg_Gas cfg)),
     ValidateBPS ''gas.fee_bump_bps'' (gc_FeeBumpBPS (cfg_Gas cfg)),
     left_error (ParseGwei ''gas.max_fee_per_gas_gwei'' (gc_MaxFeePerGasGwei (cfg_Gas cfg))),
     left_error (ParseGwei ''gas.max_priority_fee_per_gas_gwei''
       (gc_MaxPriorityFeePerGasGwei (cfg_Gas cfg)))]"

text \<open>\<open>Load\<close>, given what reading the file and decoding its YAML yield.\<close>

definition Load :: "(string \<Rightarrow> gerror + bytes) \<Rightarrow> (bytes \<Rightarrow> gerror + Config) \<Rightarrow> string \<Rightarrow> gerror + Config"
  where
  "Load readFile yamlUnmarshal path =
     (case readFile path of
        Inl err \<Rightarrow> Inl (Wrap (''read config '' @ path @ '': '') err [])
      | Inr data \<Rightarrow>
          (case yamlUnmarshal data of
             Inl err \<Rightarrow> Inl (Wrap (''parse config '' @ path @ '': '') err [])
           | Inr cfg \<Rightarrow> (case Validate cfg of Some err \<Rightarrow> Inl err | None \<Rightarrow> Inr cfg)))"

subsection \<open>Module blocks\<close>

definition ModuleEnabled :: "ModuleConfig \<Rightarrow> MonitorModuleID \<Rightarrow> gerror + bool" where
  "ModuleEnabled moduleConfig moduleID =
     (case config_lookup moduleConfig ''enabled'' of
        None \<Rightarrow> Inl (New (moduleID @ ''.enabled is required''))
      | Some v \<Rightarrow> (case v of
            AnyBool enabled \<Rightarrow> Inr enabled
          | _ \<Rightarrow> Inl (New (moduleID @ ''.enabled must be a bool''))))"

definition cfg_module :: "Config \<Rightarrow> string \<Rightarrow> ModuleConfig option" where
  "cfg_module cfg k = (case cfg_Modules cfg of None \<Rightarrow> None | Some fm \<Rightarrow> fmlookup fm k)"

definition EnabledModuleConfig :: "Config \<Rightarrow> MonitorModuleID \<Rightarrow> gerror + ModuleConfig option" where
  "EnabledModuleConfig cfg moduleID =
     (case cfg_module cfg moduleID of
        None \<Rightarrow> Inr None
      | Some moduleConfig \<Rightarrow>
          (case ModuleEnabled moduleConfig moduleID of
             Inl err \<Rightarrow> Inl err
           | Inr enabled \<Rightarrow> if \<not> enabled then Inr None else Inr (Some moduleConfig)))"

definition missing_field :: "MonitorModuleID \<Rightarrow> string \<Rightarrow> gerror" where
  "missing_field moduleID key = New (moduleID @ ''.'' @ key @ '' is required'')"

definition not_a_string :: "MonitorModuleID \<Rightarrow> string \<Rightarrow> gerror" where
  "not_a_string moduleID key = New (moduleID @ ''.'' @ key @ '' must be a string'')"

definition ModuleString :: "ModuleConfig \<Rightarrow> MonitorModuleID \<Rightarrow> string \<Rightarrow> gerror + string" where
  "ModuleString moduleConfig moduleID key =
     (case config_lookup moduleConfig key of
        None \<Rightarrow> Inl (missing_field moduleID key)
      | Some v \<Rightarrow> (case v of
            AnyString text \<Rightarrow> if text = [] then Inl (not_a_string moduleID key) else Inr text
          | _ \<Rightarrow> Inl (not_a_string moduleID key)))"

definition ModuleBigInt :: "ModuleConfig \<Rightarrow> MonitorModuleID \<Rightarrow> string \<Rightarrow> gerror + int" where
  "ModuleBigInt moduleConfig moduleID key =
     (case ModuleString moduleConfig moduleID key of
        Inl err \<Rightarrow> Inl err
      | Inr text \<Rightarrow>
          (case big_SetString text of
             None \<Rightarrow> Inl (not_a_string moduleID key)
           | Some v \<Rightarrow> Inr v))"

definition ModuleInt64 :: "ModuleConfig \<Rightarrow> MonitorModuleID \<Rightarrow> string \<Rightarrow> gerror + int64" where
  "ModuleInt64 moduleConfig moduleID key =
     (case config_lookup moduleConfig key of
        None \<Rightarrow> Inl (missing_field moduleID key)
      | Some v \<Rightarrow> (case v of
            AnyInt i \<Rightarrow> Inr i
          | _ \<Rightarrow> Inl (New (moduleID @ ''.'' @ key @ '' must be an integer''))))"

definition ModuleDecimalUnits :: "ModuleConfig \<Rightarrow> MonitorModuleID \<Rightarrow> string \<Rightarrow> uint8 \<Rightarrow> gerror + int"
  where
  "ModuleDecimalUnits moduleConfig moduleID key decimals =
     (case ModuleString moduleConfig moduleID key of
        Inl err \<Rightarrow> Inl err
      | Inr text \<Rightarrow> ParseDecimalUnits (moduleID @ ''.'' @ key) text decimals)"

text \<open>\<open>json.Marshal\<close> of a decoded value: map keys are sorted.\<close>

fun json_of_any :: "anyval \<Rightarrow> json" where
  "json_of_any AnyNil = JNull"
| "json_of_any (AnyBool b) = JBool b"
| "json_of_any (AnyInt i) = JNum (dec_int (sint i))"
| "json_of_any (AnyUint64 u) = JNum (dec_nat (unat u))"
| "json_of_any (AnyFloat l) = JNum l"
| "json_of_any (AnyString s) = JStr s"
| "json_of_any (AnySeq vs) = JArr (map json_of_any vs)"
| "json_of_any (AnyMap kvs) = JObj (sort_key fst (map (\<lambda>(k, v). (k, json_of_any v)) kvs))"

definition ModuleStruct :: "(anyval \<Rightarrow> gerror + anyval) \<Rightarrow> (json \<Rightarrow> gerror + 'a) \<Rightarrow> ModuleConfig
    \<Rightarrow> MonitorModuleID \<Rightarrow> string \<Rightarrow> gerror + 'a" where
  "ModuleStruct yamlReread unmarshal moduleConfig moduleID key =
     (case config_lookup moduleConfig key of
        None \<Rightarrow> Inl (missing_field moduleID key)
      | Some v \<Rightarrow>
          (case yamlReread v of
             Inl err \<Rightarrow> Inl err
           | Inr intermediate \<Rightarrow>
               (case json_decode (json_encode (json_of_any intermediate)) of
                  None \<Rightarrow> Inl (New ''invalid JSON'')
                | Some j \<Rightarrow> unmarshal j)))"

subsection \<open>Secrets\<close>

record Secrets =
  sec_PrivateKey :: string
  sec_TelegramToken :: string
  sec_PrimaryRPCURL :: string
  sec_FallbackRPCURLs :: "string list"

definition fallbackURLs :: "string \<Rightarrow> string list" where
  "fallbackURLs raw =
     (let fallbacks = TrimSpace raw in
      if fallbacks = [] then []
      else filter (\<lambda>v. v \<noteq> []) (map TrimSpace (Split fallbacks CHR '','')))"

definition LoadSecretsFromEnv :: "(string \<Rightarrow> string) \<Rightarrow> gerror + Secrets" where
  "LoadSecretsFromEnv getenv =
     (let secrets = \<lparr>
        sec_PrivateKey = TrimSpace (getenv ''WITHDRAW_BOT_PRIVATE_KEY''),
        sec_TelegramToken = TrimSpace (getenv ''WITHDRAW_BOT_TELEGRAM_BOT_TOKEN''),
        sec_PrimaryRPCURL = TrimSpace (getenv ''WITHDRAW_BOT_ETHEREUM_PRIMARY_RPC_URL''),
        sec_FallbackRPCURLs = fallbackURLs (getenv ''WITHDRAW_BOT_ETHEREUM_FALLBACK_RPC_URLS'')\<rparr> in
      if sec_PrivateKey secrets = [] then Inl (New ''WITHDRAW_BOT_PRIVATE_KEY is required'')
      else if sec_TelegramToken secrets = []
      then Inl (New ''WITHDRAW_BOT_TELEGRAM_BOT_TOKEN is required'')
      else if sec_PrimaryRPCURL secrets = []
      then Inl (New ''WITHDRAW_BOT_ETHEREUM_PRIMARY_RPC_URL is required'')
      else Inr secrets)"

subsection \<open>Decimal amounts are exact\<close>

definition digit_string :: "string \<Rightarrow> bool" where
  "digit_string s \<longleftrightarrow> s \<noteq> [] \<and> (\<forall>c \<in> set s. is_digit c)"

definition decimal_form :: "string \<Rightarrow> bool" where
  "decimal_form s \<longleftrightarrow> digit_string s \<or>
     (\<exists>pre post. s = pre @ CHR ''.'' # post \<and> digit_string pre \<and> digit_string post)"

lemma point_not_digit [simp]: "\<not> is_digit CHR ''.''"
  by (simp add: is_digit_def)

lemma unsignedDecimalLoop_after:
  "unsignedDecimalLoop s True True n \<longleftrightarrow> (\<forall>c \<in> set s. is_digit c) \<and> 0 < n + length s"
  by (induction s arbitrary: n) auto

lemma point_split_Cons:
  "(\<exists>pre post. c # s = pre @ CHR ''.'' # post \<and> Q pre post) \<longleftrightarrow>
     (c = CHR ''.'' \<and> Q [] s) \<or> (\<exists>pre post. s = pre @ CHR ''.'' # post \<and> Q (c # pre) post)"
  by (auto simp: Cons_eq_append_conv)

lemma unsignedDecimalLoop_before:
  "unsignedDecimalLoop s True False n \<longleftrightarrow> (\<forall>c \<in> set s. is_digit c) \<or>
     (\<exists>pre post. s = pre @ CHR ''.'' # post \<and> ((\<forall>c \<in> set pre. is_digit c) \<and>
        (\<forall>c \<in> set post. is_digit c) \<and> (0 < n \<or> post \<noteq> [])))"
proof (induction s)
  case (Cons c s)
  show ?case
  proof (cases "is_digit c")
    case True
    then have "c \<noteq> CHR ''.''" by auto
    with True Cons show ?thesis unfolding point_split_Cons by simp
  next
    case False
    then show ?thesis
      unfolding point_split_Cons by (auto simp: unsignedDecimalLoop_after)
  qed
qed simp

lemma isUnsignedBase10Decimal_iff: "isUnsignedBase10Decimal s \<longleftrightarrow> decimal_form s"
proof (cases s)
  case (Cons c cs)
  show ?thesis
  proof (cases "is_digit c")
    case True
    then have "c \<noteq> CHR ''.''" by auto
    with True Cons show ?thesis
      unfolding isUnsignedBase10Decimal_def decimal_form_def Cons point_split_Cons
      by (auto simp: unsignedDecimalLoop_before digit_string_def)
  next
    case False
    with Cons show ?thesis
      unfolding isUnsignedBase10Decimal_def decimal_form_def Cons point_split_Cons
      by (simp add: digit_string_def)
  qed
qed (simp add: isUnsignedBase10Decimal_def decimal_form_def digit_string_def)

lemma ParseDecimalUnits_Inr:
  "ParseDecimalUnits name v d = Inr u \<longleftrightarrow>
     (decimal_form (TrimSpace v) \<and>
      (case decimal_value (TrimSpace v) of (num, k) \<Rightarrow> u * 10 ^ k = int num * 10 ^ unat d))"
proof -
  obtain num k where n: "decimal_value (TrimSpace v) = (num, k)" by (cases "decimal_value (TrimSpace v)")
  let ?s = "num * 10 ^ unat d"
  have e: "(10 ^ k dvd ?s \<and> u = int (?s div 10 ^ k)) \<longleftrightarrow> u * 10 ^ k = int num * 10 ^ unat d"
  proof
    assume "10 ^ k dvd ?s \<and> u = int (?s div 10 ^ k)"
    then have d: "?s div 10 ^ k * 10 ^ k = ?s" and u: "u = int (?s div 10 ^ k)" by simp_all
    have "u * 10 ^ k = int (?s div 10 ^ k * 10 ^ k)" unfolding u by simp
    then show "u * 10 ^ k = int num * 10 ^ unat d" unfolding d by simp
  next
    assume a: "u * 10 ^ k = int num * 10 ^ unat d"
    then have "0 \<le> u * 10 ^ k" by simp
    moreover have "\<not> (10 :: int) ^ k \<le> 0" by (simp add: not_le)
    ultimately have "0 \<le> u" by (auto simp: zero_le_mult_iff)
    with a have "int (nat u * 10 ^ k) = int ?s" by simp
    then have "nat u * 10 ^ k = ?s" by (simp only: of_nat_eq_iff)
    then have "10 ^ k dvd ?s \<and> ?s div 10 ^ k = nat u"
      by (metis dvd_triv_right nonzero_mult_div_cancel_right power_not_zero zero_neq_numeral)
    with \<open>0 \<le> u\<close> show "10 ^ k dvd ?s \<and> u = int (?s div 10 ^ k)" by simp
  qed
  have "\<not> decimal_form []" by (simp add: decimal_form_def digit_string_def)
  with e n show ?thesis
    by (auto simp: ParseDecimalUnits_def Let_def isUnsignedBase10Decimal_iff)
qed

lemma ParseDecimalUnits_nonneg: "ParseDecimalUnits name v d = Inr u \<Longrightarrow> 0 \<le> u"
  by (auto simp: ParseDecimalUnits_def Let_def split: if_splits prod.splits)

subsection \<open>What validation guarantees\<close>

lemma first_error_None: "first_error es = None \<longleftrightarrow> (\<forall>e \<in> set es. e = None)"
  by (induction es) (auto simp: first_error_def)

lemma check_None: "check b t = None \<longleftrightarrow> \<not> b"
  by (simp add: check_def)

lemma ValidateBPS_None: "ValidateBPS name v = None \<longleftrightarrow> 0 \<le> sint v \<and> sint v \<le> 10000"
  by (auto simp: ValidateBPS_def)

lemma left_error_None: "left_error r = None \<longleftrightarrow> (\<exists>x. r = Inr x)"
  by (cases r) (auto simp: left_error_def)

lemma required_duration_None:
  "required_duration name v = None \<longleftrightarrow> v \<noteq> [] \<and> (\<exists>d. ParseDuration v = Inr d \<and> 0 < d)"
  by (auto simp: required_duration_def split: sum.splits)

lemma Validate_None:
  assumes "Validate cfg = None"
  obtains interval timeout feeCap tipCap where
    "ParseDuration (ac_MonitorInterval (cfg_App cfg)) = Inr interval" "0 < interval"
    "ParseDuration (gc_ReplacementTimeout (cfg_Gas cfg)) = Inr timeout" "0 < timeout"
    "0 \<le> sint (gc_FeeBumpBPS (cfg_Gas cfg))" "sint (gc_FeeBumpBPS (cfg_Gas cfg)) \<le> 10000"
    "0 \<le> sint (gc_GasLimitBufferBPS (cfg_Gas cfg))" "sint (gc_GasLimitBufferBPS (cfg_Gas cfg)) \<le> 10000"
    "ParseGwei ''gas.max_fee_per_gas_gwei'' (gc_MaxFeePerGasGwei (cfg_Gas cfg)) = Inr feeCap" "0 \<le> feeCap"
    "ParseGwei ''gas.max_priority_fee_per_gas_gwei'' (gc_MaxPriorityFeePerGasGwei (cfg_Gas cfg)) = Inr tipCap"
    "0 \<le> tipCap" "0 < sint (ec_ChainID (cfg_Ethereum cfg))"
    "tg_AllowedUserIDs (cfg_Telegram cfg) \<noteq> []" "tg_ChatID (cfg_Telegram cfg) \<noteq> 0"
proof -
  have "\<exists>d. ParseDuration (ac_MonitorInterval (cfg_App cfg)) = Inr d \<and> 0 < d"
    "\<exists>d. ParseDuration (gc_ReplacementTimeout (cfg_Gas cfg)) = Inr d \<and> 0 < d"
    "ValidateBPS ''gas.gas_limit_buffer_bps'' (gc_GasLimitBufferBPS (cfg_Gas cfg)) = None"
    "ValidateBPS ''gas.fee_bump_bps'' (gc_FeeBumpBPS (cfg_Gas cfg)) = None"
    "\<exists>c. ParseGwei ''gas.max_fee_per_gas_gwei'' (gc_MaxFeePerGasGwei (cfg_Gas cfg)) = Inr c"
    "\<exists>c. ParseGwei ''gas.max_priority_fee_per_gas_gwei''
       (gc_MaxPriorityFeePerGasGwei (cfg_Gas cfg)) = Inr c"
    "0 < sint (ec_ChainID (cfg_Ethereum cfg))"
    "tg_AllowedUserIDs (cfg_Telegram cfg) \<noteq> []" "tg_ChatID (cfg_Telegram cfg) \<noteq> 0"
    using assms
    by (simp_all add: Validate_def first_error_None check_None left_error_None required_duration_None
        not_le)
  then show thesis
    using that ParseDecimalUnits_nonneg unfolding ParseGwei_def ValidateBPS_None by blast
qed

lemma duration_parts_range: "duration_parts n s acc = Some d \<Longrightarrow> acc \<le> 2 ^ 63 \<Longrightarrow> d \<le> 2 ^ 63"
  by (induction n s acc rule: duration_parts.induct) (auto split: if_splits option.splits)

lemma ParseDuration_range:
  assumes "ParseDuration s = Inr d"
  shows "- (2 ^ 63) \<le> d" "d < 2 ^ 63"
  using assms by (auto simp: ParseDuration_def Let_def split: if_splits prod.splits option.splits
      dest!: duration_parts_range)

subsection \<open>Properties\<close>

text \<open>A decimal amount parses exactly when it is, up to white space, a run of digits, or two
  with a point between, and its value in the asset's smallest unit is a whole number; the result
  is that number: \<open>u * 10 ^ k = n * 10 ^ decimals\<close> for the digits \<open>n\<close> with \<open>k\<close> after the
  point. Nothing is rounded.\<close>

theorem decimal_units_exact:
  "ParseDecimalUnits name v decimals = Inr u \<longleftrightarrow>
     (decimal_form (TrimSpace v) \<and>
      (case decimal_value (TrimSpace v) of (n, k) \<Rightarrow> u * 10 ^ k = int n * 10 ^ unat decimals))"
  by (rule ParseDecimalUnits_Inr)

end
