(* ===== verification/Vault_State.thy ===== *)
theory Vault_State
  imports Share_Price Storage
begin

text \<open>
  \<open>internal/monitor/modules/morpho/vault_state.go\<close>: the module that compares the vault's
  governance state with a configured baseline. A slice or map field is \<open>None\<close> when it is
  nil; nil and empty collections are not distinguished by the comparison.
\<close>

text \<open>
  The selectors whose timelocks were to be tracked, and the exported copy of that list: nothing
  else in the program reads them.
\<close>

definition trackedTimelockSelectorKeys :: "string list" where
  "trackedTimelockSelectorKeys =
     [''setIsAllocator'', ''setReceiveSharesGate'', ''setSendSharesGate'', ''setReceiveAssetsGate'',
      ''setSendAssetsGate'', ''setAdapterRegistry'', ''addAdapter'', ''removeAdapter'',
      ''increaseTimelock'', ''decreaseTimelock'', ''abdicate'', ''setPerformanceFee'',
      ''setManagementFee'', ''setPerformanceFeeRecipient'', ''setManagementFeeRecipient'',
      ''setForceDeallocatePenalty'']"

definition TrackedTimelockSelectorKeys :: "string list" where
  "TrackedTimelockSelectorKeys = trackedTimelockSelectorKeys"

record VaultStateSnapshot =
  vs_Owner :: string
  vs_Curator :: string
  vs_ReceiveSharesGate :: string
  vs_SendSharesGate :: string
  vs_ReceiveAssetsGate :: string
  vs_SendAssetsGate :: string
  vs_AdapterRegistry :: string
  vs_LiquidityAdapter :: string
  vs_LiquidityDataHex :: string
  vs_PerformanceFee :: string
  vs_PerformanceFeeRecipient :: string
  vs_ManagementFee :: string
  vs_ManagementFeeRecipient :: string
  vs_MaxRate :: string
  vs_Adapters :: "string slice"
  vs_AllocatorRoles :: "bool gomap"
  vs_SentinelRoles :: "bool gomap"
  vs_Timelocks :: "string gomap"
  vs_Abdicated :: "bool gomap"
  vs_ForceDeallocatePenalties :: "string gomap"

record StateDiff =
  sd_Field :: string
  sd_Expected :: string
  sd_Actual :: string

record 'w VaultStateModule =
  vm_Reader :: "('w, gerror + VaultStateSnapshot) io option"
  vm_Baseline :: VaultStateSnapshot
  vm_ChangeSeverity :: Severity
  vm_Clock :: "'w Clock option"

subsection \<open>JSON of the collections\<close>

definition json_bool_map :: "bool gomap \<Rightarrow> json" where
  "json_bool_map m =
     (case m of
        None \<Rightarrow> JNull
      | Some fm \<Rightarrow> JObj (map (\<lambda>(k, v). (k, JBool v)) (sorted_list_of_fmap fm)))"

definition json_strings :: "string slice \<Rightarrow> json" where
  "json_strings xs = (case xs of None \<Rightarrow> JNull | Some l \<Rightarrow> JArr (map JStr l))"

definition json_snapshot :: "VaultStateSnapshot \<Rightarrow> json" where
  "json_snapshot s = JObj [
     (''owner'', JStr (vs_Owner s)),
     (''curator'', JStr (vs_Curator s)),
     (''receive_shares_gate'', JStr (vs_ReceiveSharesGate s)),
     (''send_shares_gate'', JStr (vs_SendSharesGate s)),
     (''receive_assets_gate'', JStr (vs_ReceiveAssetsGate s)),
     (''send_assets_gate'', JStr (vs_SendAssetsGate s)),
     (''adapter_registry'', JStr (vs_AdapterRegistry s)),
     (''liquidity_adapter'', JStr (vs_LiquidityAdapter s)),
     (''liquidity_data_hex'', JStr (vs_LiquidityDataHex s)),
     (''performance_fee'', JStr (vs_PerformanceFee s)),
     (''performance_fee_recipient'', JStr (vs_PerformanceFeeRecipient s)),
     (''management_fee'', JStr (vs_ManagementFee s)),
     (''management_fee_recipient'', JStr (vs_ManagementFeeRecipient s)),
     (''max_rate'', JStr (vs_MaxRate s)),
     (''adapters'', json_strings (vs_Adapters s)),
     (''allocator_roles'', json_bool_map (vs_AllocatorRoles s)),
     (''sentinel_roles'', json_bool_map (vs_SentinelRoles s)),
     (''timelocks'', json_string_map (vs_Timelocks s)),
     (''abdicated'', json_bool_map (vs_Abdicated s)),
     (''force_deallocate_penalties'', json_string_map (vs_ForceDeallocatePenalties s))]"

subsection \<open>The diff\<close>

definition appendStringDiff :: "StateDiff list \<Rightarrow> string \<Rightarrow> string \<Rightarrow> string \<Rightarrow> StateDiff list" where
  "appendStringDiff diffs name expected actual =
     (if expected = actual then diffs
      else diffs @ [\<lparr>sd_Field = name, sd_Expected = expected, sd_Actual = actual\<rparr>])"

definition empty_slice :: "'a slice \<Rightarrow> bool" where
  "empty_slice s \<longleftrightarrow> elems s = []"

definition empty_map :: "'a gomap \<Rightarrow> bool" where
  "empty_map m \<longleftrightarrow> (case m of None \<Rightarrow> True | Some fm \<Rightarrow> fm = fmempty)"

text \<open>
  \<open>isEmptyCollection\<close> and \<open>json.Marshal\<close> are chosen by the static type, here by the
  arguments \<open>is_empty\<close> and \<open>enc\<close>; \<open>reflect.DeepEqual\<close> is equality.
\<close>

definition appendComparableDiff :: "('t \<Rightarrow> bool) \<Rightarrow> ('t \<Rightarrow> json) \<Rightarrow> StateDiff list \<Rightarrow> string
    \<Rightarrow> 't \<Rightarrow> 't \<Rightarrow> StateDiff list" where
  "appendComparableDiff is_empty enc diffs name expected actual =
     (if is_empty expected \<and> is_empty actual then diffs
      else if expected = actual then diffs
      else diffs @ [\<lparr>sd_Field = name, sd_Expected = json_encode (enc expected),
                     sd_Actual = json_encode (enc actual)\<rparr>])"

definition unsorted_diffs :: "VaultStateSnapshot \<Rightarrow> VaultStateSnapshot \<Rightarrow> StateDiff list" where
  "unsorted_diffs e a =
     (let d = appendStringDiff [] ''owner'' (vs_Owner e) (vs_Owner a);
          d = appendStringDiff d ''curator'' (vs_Curator e) (vs_Curator a);
          d = appendStringDiff d ''receive_shares_gate'' (vs_ReceiveSharesGate e) (vs_ReceiveSharesGate a);
          d = appendStringDiff d ''send_shares_gate'' (vs_SendSharesGate e) (vs_SendSharesGate a);
          d = appendStringDiff d ''receive_assets_gate'' (vs_ReceiveAssetsGate e) (vs_ReceiveAssetsGate a);
          d = appendStringDiff d ''send_assets_gate'' (vs_SendAssetsGate e) (vs_SendAssetsGate a);
          d = appendStringDiff d ''adapter_registry'' (vs_AdapterRegistry e) (vs_AdapterRegistry a);
          d = appendStringDiff d ''liquidity_adapter'' (vs_LiquidityAdapter e) (vs_LiquidityAdapter a);
          d = appendStringDiff d ''liquidity_data_hex'' (vs_LiquidityDataHex e) (vs_LiquidityDataHex a);
          d = appendStringDiff d ''performance_fee'' (vs_PerformanceFee e) (vs_PerformanceFee a);
          d = appendStringDiff d ''performance_fee_recipient'' (vs_PerformanceFeeRecipient e)
                (vs_PerformanceFeeRecipient a);
          d = appendStringDiff d ''management_fee'' (vs_ManagementFee e) (vs_ManagementFee a);
          d = appendStringDiff d ''management_fee_recipient'' (vs_ManagementFeeRecipient e)
                (vs_ManagementFeeRecipient a);
          d = appendStringDiff d ''max_rate'' (vs_MaxRate e) (vs_MaxRate a);
          d = appendComparableDiff empty_slice json_strings d ''adapters'' (vs_Adapters e) (vs_Adapters a);
          d = appendComparableDiff empty_map json_bool_map d ''allocator_roles''
                (vs_AllocatorRoles e) (vs_AllocatorRoles a);
          d = appendComparableDiff empty_map json_bool_map d ''sentinel_roles''
                (vs_SentinelRoles e) (vs_SentinelRoles a);
          d = appendComparableDiff empty_map json_string_map d ''timelocks''
                (vs_Timelocks e) (vs_Timelocks a);
          d = appendComparableDiff empty_map json_bool_map d ''abdicated''
                (vs_Abdicated e) (vs_Abdicated a)
      in appendComparableDiff empty_map json_string_map d ''force_deallocate_penalties''
           (vs_ForceDeallocatePenalties e) (vs_ForceDeallocatePenalties a))"

text \<open>The field names are distinct, so \<open>sort.Slice\<close> has one possible result.\<close>

definition DiffVaultState :: "VaultStateSnapshot \<Rightarrow> VaultStateSnapshot \<Rightarrow> StateDiff list" where
  "DiffVaultState expected actual = sort_key sd_Field (unsorted_diffs expected actual)"

subsection \<open>The module\<close>

definition VaultState_ValidateConfig :: "'w VaultStateModule \<Rightarrow> gerror option" where
  "VaultState_ValidateConfig module =
     (if vm_Reader module = None then Some (New (ModuleVaultState @ '' reader is required''))
      else if vm_ChangeSeverity module \<noteq> [] \<and> vm_ChangeSeverity module \<noteq> SeverityWarn
          \<and> vm_ChangeSeverity module \<noteq> SeverityUrgent
      then Some (New (ModuleVaultState @ '' change severity must be warn or urgent''))
      else None)"

definition VaultState_Bootstrap :: "'w VaultStateModule \<Rightarrow> ('w, gerror + BootstrapFragment) io" where
  "VaultState_Bootstrap module =
     (case vm_Reader module of
        None \<Rightarrow> ret (Inl (New (ModuleVaultState @ '' reader is required'')))
      | Some reader \<Rightarrow> bindE reader (\<lambda>snapshot. ret (Inr [(''baseline'', json_snapshot snapshot)])))"

definition resolvedSeverity :: "'w VaultStateModule \<Rightarrow> Severity" where
  "resolvedSeverity module =
     (if vm_ChangeSeverity module = SeverityWarn then SeverityWarn else SeverityUrgent)"

definition monitorStatusForSeverity :: "Severity \<Rightarrow> MonitorStatus" where
  "monitorStatusForSeverity severity =
     (if severity = SeverityWarn then MonitorStatusWarn else MonitorStatusUrgent)"

definition diff_finding :: "Severity \<Rightarrow> StateDiff \<Rightarrow> Finding" where
  "diff_finding severity d =
     \<lparr>f_Key = FindingVaultStateDiff, f_Severity = severity,
      f_Message = ''vault state changed from baseline'',
      f_Evidence = Some (fmap_of_list [(''field'', sd_Field d), (''expected'', sd_Expected d),
        (''actual'', sd_Actual d)])\<rparr>"

definition VaultState_Monitor :: "'w Clock \<Rightarrow> 'w VaultStateModule \<Rightarrow> ('w, gerror + MonitorResult) io"
  where
  "VaultState_Monitor sys module =
     (case VaultState_ValidateConfig module of
        Some err \<Rightarrow> ret (Inl err)
      | None \<Rightarrow>
          bindE (the (vm_Reader module)) (\<lambda>actual.
          let diffs = DiffVaultState (vm_Baseline module) actual;
              severity = resolvedSeverity module;
              status = (if diffs = [] then MonitorStatusOK else monitorStatusForSeverity severity) in
          bindIO (clock_now sys (vm_Clock module)) (\<lambda>now.
            ret (Inr \<lparr>mr_ModuleID = ModuleVaultState, mr_Status = status, mr_ObservedAt = now,
              mr_Metrics = Some [\<lparr>m_Key = ''diff_count'', m_Value = dec_nat (length diffs),
                m_Unit = ''count''\<rparr>],
              mr_Findings = Some (map (diff_finding severity) diffs)\<rparr>))))"

subsection \<open>The diff is exactly what differs\<close>

datatype fieldval =
    FText string | FStrings "string list"
  | FBools "(string, bool) fmap" | FTexts "(string, string) fmap"

definition fmap_of :: "'v gomap \<Rightarrow> (string, 'v) fmap" where
  "fmap_of m = (case m of None \<Rightarrow> fmempty | Some fm \<Rightarrow> fm)"

text \<open>A snapshot as the list of its fields, nil collections read as empty ones.\<close>

definition snapshot_view :: "VaultStateSnapshot \<Rightarrow> (string \<times> fieldval) list" where
  "snapshot_view s = [
     (''owner'', FText (vs_Owner s)),
     (''curator'', FText (vs_Curator s)),
     (''receive_shares_gate'', FText (vs_ReceiveSharesGate s)),
     (''send_shares_gate'', FText (vs_SendSharesGate s)),
     (''receive_assets_gate'', FText (vs_ReceiveAssetsGate s)),
     (''send_assets_gate'', FText (vs_SendAssetsGate s)),
     (''adapter_registry'', FText (vs_AdapterRegistry s)),
     (''liquidity_adapter'', FText (vs_LiquidityAdapter s)),
     (''liquidity_data_hex'', FText (vs_LiquidityDataHex s)),
     (''performance_fee'', FText (vs_PerformanceFee s)),
     (''performance_fee_recipient'', FText (vs_PerformanceFeeRecipient s)),
     (''management_fee'', FText (vs_ManagementFee s)),
     (''management_fee_recipient'', FText (vs_ManagementFeeRecipient s)),
     (''max_rate'', FText (vs_MaxRate s)),
     (''adapters'', FStrings (elems (vs_Adapters s))),
     (''allocator_roles'', FBools (fmap_of (vs_AllocatorRoles s))),
     (''sentinel_roles'', FBools (fmap_of (vs_SentinelRoles s))),
     (''timelocks'', FTexts (fmap_of (vs_Timelocks s))),
     (''abdicated'', FBools (fmap_of (vs_Abdicated s))),
     (''force_deallocate_penalties'', FTexts (fmap_of (vs_ForceDeallocatePenalties s)))]"

definition changed_fields :: "VaultStateSnapshot \<Rightarrow> VaultStateSnapshot \<Rightarrow> string list" where
  "changed_fields e a =
     map (fst \<circ> fst) (filter (\<lambda>(x, y). snd x \<noteq> snd y) (zip (snapshot_view e) (snapshot_view a)))"

lemma appendStringDiff_fields [simp]:
  "map sd_Field (appendStringDiff d f x y) = map sd_Field d @ (if FText x \<noteq> FText y then [f] else [])"
  by (simp add: appendStringDiff_def)

lemma appendComparableDiff_slice [simp]:
  "map sd_Field (appendComparableDiff empty_slice enc d f x y) =
     map sd_Field d @ (if FStrings (elems x) \<noteq> FStrings (elems y) then [f] else [])"
  by (cases x; cases y) (auto simp: appendComparableDiff_def empty_slice_def)

lemma appendComparableDiff_bools [simp]:
  "map sd_Field (appendComparableDiff empty_map enc d f x y) =
     map sd_Field d @ (if FBools (fmap_of x) \<noteq> FBools (fmap_of y) then [f] else [])"
  by (cases x; cases y) (auto simp: appendComparableDiff_def empty_map_def fmap_of_def)

lemma appendComparableDiff_texts [simp]:
  "map sd_Field (appendComparableDiff empty_map enc d f x y) =
     map sd_Field d @ (if FTexts (fmap_of x) \<noteq> FTexts (fmap_of y) then [f] else [])"
  by (cases x; cases y) (auto simp: appendComparableDiff_def empty_map_def fmap_of_def)

lemma filter_Cons_append:
  "filter P (x # xs) = (if P x then [x] else []) @ filter P xs"
  by simp

lemma map_if_singleton: "map g (if b then [x] else []) = (if b then [g x] else [])"
  by simp

lemma unsorted_fields: "map sd_Field (unsorted_diffs e a) = changed_fields e a"
  unfolding unsorted_diffs_def changed_fields_def snapshot_view_def Let_def
  by (simp only: appendStringDiff_fields appendComparableDiff_slice appendComparableDiff_bools
      appendComparableDiff_texts zip_Cons_Cons zip_Nil filter_Cons_append map_append
      map_if_singleton list.map(1) filter.simps(1) case_prod_conv fst_conv snd_conv
      comp_def append_assoc append_Nil append_Nil2)

lemma map_sort_key: "map f (sort_key f xs) = sort (map f xs)"
proof (induction xs)
  case (Cons x xs)
  have "map f (insort_key f x ys) = insort (f x) (map f ys)" for ys
    by (induction ys) auto
  with Cons show ?case by simp
qed simp

lemma DiffVaultState_fields:
  "map sd_Field (DiffVaultState e a) = sort (changed_fields e a)"
  by (simp add: DiffVaultState_def map_sort_key unsorted_fields)

lemma snapshot_view_names: "map fst (snapshot_view s) = map fst (snapshot_view t)"
  by (simp add: snapshot_view_def)

lemma changed_fields_Nil:
  "changed_fields e a = [] \<longleftrightarrow> snapshot_view e = snapshot_view a"
proof -
  have "map fst xs = map fst ys \<Longrightarrow>
      (filter (\<lambda>(x, y). snd x \<noteq> snd y) (zip xs ys) = []) \<longleftrightarrow> xs = ys"
    for xs ys :: "(string \<times> fieldval) list"
    by (induction xs arbitrary: ys) (auto simp: map_eq_Cons_conv split: if_splits)
  from this [OF snapshot_view_names, of e a] show ?thesis
    by (simp add: changed_fields_def)
qed

lemma DiffVaultState_Nil:
  "DiffVaultState e a = [] \<longleftrightarrow> snapshot_view e = snapshot_view a"
  using changed_fields_Nil [of e a] DiffVaultState_fields [of e a]
  by (metis list.map_disc_iff set_empty set_sort)

lemma DiffVaultState_sorted: "sorted (map sd_Field (DiffVaultState e a))"
  by (simp add: DiffVaultState_fields)

subsection \<open>Properties\<close>

text \<open>C11: \<open>DiffVaultState\<close> reports exactly the fields whose values differ, each once and in
  alphabetical order, where a nil and an empty collection count as equal; it reports nothing
  exactly when the snapshots agree on every field.\<close>

theorem vault_diff_exact:
  "map sd_Field (DiffVaultState e a) = sort (changed_fields e a)
    \<and> (DiffVaultState e a = [] \<longleftrightarrow> snapshot_view e = snapshot_view a)"
  by (simp add: DiffVaultState_fields DiffVaultState_Nil)

text \<open>C12: With a valid configuration and a readable vault, the vault state module is OK exactly
  when the vault agrees with the baseline; otherwise its status is the configured severity
  (urgent unless warn is configured) and there is one finding of it per differing field.\<close>

theorem vault_state_verdict:
  assumes "VaultState_ValidateConfig module = None" "the (vm_Reader module) w = (Inr actual, w1)"
    and "clock_now sys (vm_Clock module) w1 = (now, w2)"
  shows "\<exists>r. VaultState_Monitor sys module w = (Inr r, w2) \<and>
    mr_Status r =
      (if snapshot_view (vm_Baseline module) = snapshot_view actual then MonitorStatusOK
       else if vm_ChangeSeverity module = SeverityWarn then MonitorStatusWarn
       else MonitorStatusUrgent) \<and>
    map f_Severity (elems (mr_Findings r)) =
      replicate (length (changed_fields (vm_Baseline module) actual))
        (if vm_ChangeSeverity module = SeverityWarn then SeverityWarn else SeverityUrgent)"
proof -
  have "length (DiffVaultState (vm_Baseline module) actual) =
      length (changed_fields (vm_Baseline module) actual)"
    using DiffVaultState_fields [of "vm_Baseline module" actual] by (metis length_map length_sort)
  then show ?thesis
    using assms
    by (simp add: VaultState_Monitor_def Let_def bindE_eq bindIO_eq ret_eq DiffVaultState_Nil
        resolvedSeverity_def monitorStatusForSeverity_def diff_finding_def comp_def
        map_replicate_const)
qed

definition demo_snapshot :: VaultStateSnapshot where
  "demo_snapshot = \<lparr>vs_Owner = ''0xa'', vs_Curator = [], vs_ReceiveSharesGate = [],
     vs_SendSharesGate = [], vs_ReceiveAssetsGate = [], vs_SendAssetsGate = [],
     vs_AdapterRegistry = [], vs_LiquidityAdapter = [], vs_LiquidityDataHex = ''0x'',
     vs_PerformanceFee = ''0'', vs_PerformanceFeeRecipient = [], vs_ManagementFee = ''0'',
     vs_ManagementFeeRecipient = [], vs_MaxRate = ''0'', vs_Adapters = Some [], vs_AllocatorRoles = None,
     vs_SentinelRoles = None, vs_Timelocks = Some fmempty, vs_Abdicated = Some fmempty,
     vs_ForceDeallocatePenalties = None\<rparr>"

definition demo_vault_state :: "unit VaultStateModule" where
  "demo_vault_state = \<lparr>vm_Reader = Some (ret (Inr (demo_snapshot\<lparr>vs_Owner := ''0xb'',
       vs_Timelocks := None\<rparr>))),
     vm_Baseline = demo_snapshot, vm_ChangeSeverity = SeverityWarn,
     vm_Clock = Some (FixedClock_Now 0)\<rparr>"

theorem vault_state_verdict_witness:
  "\<exists>r. VaultState_Monitor (ret 0) demo_vault_state () = (Inr r, ()) \<and> mr_Status r = MonitorStatusWarn
     \<and> map f_Severity (elems (mr_Findings r)) = [SeverityWarn]"
  using vault_state_verdict [of demo_vault_state "()" "demo_snapshot\<lparr>vs_Owner := ''0xb'',
      vs_Timelocks := None\<rparr>" "()" "ret 0" 0 "()"]
  by (simp add: demo_vault_state_def demo_snapshot_def VaultState_ValidateConfig_def clock_now_def
      FixedClock_Now_def ret_def snapshot_view_def changed_fields_def fmap_of_def)

end
