(* ===== verification/Vault_Baseline.thy ===== *)
theory Vault_Baseline
  imports Vault_State
begin

text \<open>
  Reading a configured baseline: \<open>json.Unmarshal\<close> into a \<open>VaultStateSnapshot\<close>, with the
  matching of member names to fields that ignores letter case. The bootstrap of the vault state
  module writes a snapshot as JSON; here it is shown that it is read back unchanged.
\<close>

subsection \<open>Member names\<close>

text \<open>
  Package json compares names after folding each rune to the smallest one that differs in case
  only. The names of the fields are ASCII, and only these runes fold to ASCII.
\<close>

definition foldRune :: "nat \<Rightarrow> nat" where
  "foldRune r = (if 97 \<le> r \<and> r \<le> 122 then r - 32 else if r = 0x17F then 83
     else if r = 0x212A then 75 else r)"

definition foldName :: "string \<Rightarrow> nat list" where
  "foldName s = map (\<lambda>(r, bs). foldRune r) (runes s)"

definition named :: "string \<Rightarrow> (string \<times> json) list \<Rightarrow> (string \<times> json) list" where
  "named name kvs = filter (\<lambda>(k, v). foldName k = foldName name) kvs"

subsection \<open>Values of the fields\<close>

text \<open>
  A member that is null leaves a string as it is and makes a slice or a map nil; an array is
  decoded over the old elements, an object into the old map. A value of another kind is an
  error of the whole call, which is decided first.
\<close>

datatype field_kind = KText | KStrings | KBools | KTexts

definition is_text :: "json \<Rightarrow> bool" where
  "is_text v = (case v of JNull \<Rightarrow> True | JStr s \<Rightarrow> True | _ \<Rightarrow> False)"

definition is_flag :: "json \<Rightarrow> bool" where
  "is_flag v = (case v of JNull \<Rightarrow> True | JBool b \<Rightarrow> True | _ \<Rightarrow> False)"

definition fits :: "field_kind \<Rightarrow> json \<Rightarrow> bool" where
  "fits kind v =
     (case kind of
        KText \<Rightarrow> is_text v
      | KStrings \<Rightarrow> (case v of JNull \<Rightarrow> True | JArr vs \<Rightarrow> list_all is_text vs | _ \<Rightarrow> False)
      | KBools \<Rightarrow> (case v of JNull \<Rightarrow> True | JObj kvs \<Rightarrow> list_all (is_flag \<circ> snd) kvs | _ \<Rightarrow> False)
      | KTexts \<Rightarrow> (case v of JNull \<Rightarrow> True | JObj kvs \<Rightarrow> list_all (is_text \<circ> snd) kvs | _ \<Rightarrow> False))"

definition text_of :: "json \<Rightarrow> string \<Rightarrow> string" where
  "text_of v old = (case v of JStr s \<Rightarrow> s | _ \<Rightarrow> old)"

lemma text_of_JStr [simp]: "text_of (JStr s) old = s"
  by (simp add: text_of_def)

fun texts_over :: "json list \<Rightarrow> string list \<Rightarrow> string list" where
  "texts_over [] old = []"
| "texts_over (v # vs) old =
     text_of v (case old of [] \<Rightarrow> [] | x # _ \<Rightarrow> x) # texts_over vs (tl old)"

definition text_field :: "string \<Rightarrow> (string \<times> json) list \<Rightarrow> string" where
  "text_field name kvs = fold (\<lambda>(k, v). text_of v) (named name kvs) []"

definition strings_field :: "string \<Rightarrow> (string \<times> json) list \<Rightarrow> string slice" where
  "strings_field name kvs =
     fold (\<lambda>(k, v) old. case v of JNull \<Rightarrow> None | JArr vs \<Rightarrow> Some (texts_over vs (elems old)) | _ \<Rightarrow> old)
       (named name kvs) None"

definition map_field :: "(json \<Rightarrow> 'v) \<Rightarrow> string \<Rightarrow> (string \<times> json) list \<Rightarrow> 'v gomap" where
  "map_field dec name kvs =
     fold (\<lambda>(k, v) old. case v of
         JNull \<Rightarrow> None
       | JObj ms \<Rightarrow> Some (fold (\<lambda>(k, x). fmupd k (dec x)) ms (fmap_of old))
       | _ \<Rightarrow> old)
       (named name kvs) None"

definition flag_of :: "json \<Rightarrow> bool" where
  "flag_of v = (case v of JBool b \<Rightarrow> b | _ \<Rightarrow> False)"

definition snapshot_kinds :: "(string \<times> field_kind) list" where
  "snapshot_kinds = [
     (''owner'', KText), (''curator'', KText), (''receive_shares_gate'', KText),
     (''send_shares_gate'', KText), (''receive_assets_gate'', KText), (''send_assets_gate'', KText),
     (''adapter_registry'', KText), (''liquidity_adapter'', KText), (''liquidity_data_hex'', KText),
     (''performance_fee'', KText), (''performance_fee_recipient'', KText), (''management_fee'', KText),
     (''management_fee_recipient'', KText), (''max_rate'', KText), (''adapters'', KStrings),
     (''allocator_roles'', KBools), (''sentinel_roles'', KBools), (''timelocks'', KTexts),
     (''abdicated'', KBools), (''force_deallocate_penalties'', KTexts)]"

definition all_fit :: "(string \<times> json) list \<Rightarrow> bool" where
  "all_fit kvs \<longleftrightarrow>
     list_all (\<lambda>(name, kind). list_all (fits kind \<circ> snd) (named name kvs)) snapshot_kinds"

definition snapshot_of_members :: "(string \<times> json) list \<Rightarrow> VaultStateSnapshot" where
  "snapshot_of_members kvs = \<lparr>
     vs_Owner = text_field ''owner'' kvs,
     vs_Curator = text_field ''curator'' kvs,
     vs_ReceiveSharesGate = text_field ''receive_shares_gate'' kvs,
     vs_SendSharesGate = text_field ''send_shares_gate'' kvs,
     vs_ReceiveAssetsGate = text_field ''receive_assets_gate'' kvs,
     vs_SendAssetsGate = text_field ''send_assets_gate'' kvs,
     vs_AdapterRegistry = text_field ''adapter_registry'' kvs,
     vs_LiquidityAdapter = text_field ''liquidity_adapter'' kvs,
     vs_LiquidityDataHex = text_field ''liquidity_data_hex'' kvs,
     vs_PerformanceFee = text_field ''performance_fee'' kvs,
     vs_PerformanceFeeRecipient = text_field ''performance_fee_recipient'' kvs,
     vs_ManagementFee = text_field ''management_fee'' kvs,
     vs_ManagementFeeRecipient = text_field ''management_fee_recipient'' kvs,
     vs_MaxRate = text_field ''max_rate'' kvs,
     vs_Adapters = strings_field ''adapters'' kvs,
     vs_AllocatorRoles = map_field flag_of ''allocator_roles'' kvs,
     vs_SentinelRoles = map_field flag_of ''sentinel_roles'' kvs,
     vs_Timelocks = map_field (\<lambda>v. text_of v []) ''timelocks'' kvs,
     vs_Abdicated = map_field flag_of ''abdicated'' kvs,
     vs_ForceDeallocatePenalties = map_field (\<lambda>v. text_of v []) ''force_deallocate_penalties'' kvs\<rparr>"

definition unmarshal_snapshot :: "json \<Rightarrow> gerror + VaultStateSnapshot" where
  "unmarshal_snapshot j =
     (case j of
        JNull \<Rightarrow> Inr (snapshot_of_members [])
      | JObj kvs \<Rightarrow>
          if all_fit kvs then Inr (snapshot_of_members kvs)
          else Inl (New ''json: cannot unmarshal value into Go struct VaultStateSnapshot'')
      | _ \<Rightarrow> Inl (New ''json: cannot unmarshal value into Go struct VaultStateSnapshot''))"

subsection \<open>Folding is injective on the names of the fields\<close>

definition plain_char :: "char \<Rightarrow> bool" where
  "plain_char c \<longleftrightarrow> (97 \<le> (of_char c :: nat) \<and> (of_char c :: nat) \<le> 122) \<or> c = CHR ''_''"

lemma foldName_Nil [simp]: "foldName [] = []"
  by (simp add: foldName_def)

lemma foldName_plain_Cons:
  assumes "plain_char c"
  shows "foldName (c # s) = foldRune (of_char c) # foldName s"
proof -
  have "(of_char c :: nat) < 128" using assms by (auto simp: plain_char_def)
  then have "decode_rune (c # s) = (of_char c, 1)"
    by (simp add: decode_rune_def byte_at_def)
  then show ?thesis by (simp add: foldName_def runes.simps [of "c # s"])
qed

lemma foldRune_plain_inject:
  assumes "plain_char c" "plain_char d" "foldRune (of_char c) = foldRune (of_char d)"
  shows "c = d"
proof -
  have inj: "m = n" if "foldRune m = foldRune n" "97 \<le> m \<and> m \<le> 122 \<or> m = 95" "97 \<le> n \<and> n \<le> 122 \<or> n = 95"
    for m n
    using that by (auto simp: foldRune_def split: if_splits)
  have "(of_char c :: nat) = of_char d"
    by (rule inj) (use assms in \<open>auto simp: plain_char_def\<close>)
  then show ?thesis by (simp only: of_char_eq_iff)
qed

lemma foldName_plain_inject:
  assumes "list_all plain_char s" "list_all plain_char t" "foldName s = foldName t"
  shows "s = t"
  using assms
proof (induction s arbitrary: t)
  case Nil
  then show ?case by (cases t) (simp_all add: foldName_plain_Cons)
next
  case (Cons c s)
  then show ?case
    by (cases t) (auto simp: foldName_plain_Cons dest: foldRune_plain_inject)
qed

lemma snapshot_names_plain: "(name, kind) \<in> set snapshot_kinds \<Longrightarrow> list_all plain_char name"
  by (auto simp: snapshot_kinds_def plain_char_def)

subsection \<open>A snapshot is read back as it was written\<close>

definition snapshot_members :: "VaultStateSnapshot \<Rightarrow> (string \<times> json) list" where
  "snapshot_members s = (case json_snapshot s of JObj kvs \<Rightarrow> kvs | _ \<Rightarrow> [])"

lemma json_snapshot_members: "json_snapshot s = JObj (snapshot_members s)"
  by (simp add: snapshot_members_def json_snapshot_def)

lemma map_fst_members: "map fst (snapshot_members s) = map fst snapshot_kinds"
  by (simp add: snapshot_members_def json_snapshot_def snapshot_kinds_def)

lemma distinct_members: "distinct (map fst snapshot_kinds)"
  by (simp add: snapshot_kinds_def)

lemma filter_key:
  "distinct (map fst xs) \<Longrightarrow> (k, v) \<in> set xs \<Longrightarrow> filter (\<lambda>(k', v'). k' = k) xs = [(k, v)]"
proof (induction xs)
  case (Cons x xs)
  show ?case
  proof (cases "fst x = k")
    case True
    then have "k \<notin> fst ` set xs" using Cons.prems(1) by auto
    then have "filter (\<lambda>(k', v'). k' = k) xs = []" "(k, v) \<notin> set xs"
      by (force simp: filter_empty_conv)+
    with True Cons.prems(2) show ?thesis by (cases x) auto
  next
    case False
    with Cons show ?thesis by (cases x) auto
  qed
qed simp

text \<open>The members in any order: each field finds the one member with its name.\<close>

lemma named_members:
  assumes "set kvs = set (snapshot_members s)" "distinct (map fst kvs)" "(name, v) \<in> set (snapshot_members s)"
  shows "named name kvs = [(name, v)]"
proof -
  have plain: "list_all plain_char k" if "k \<in> fst ` set (snapshot_members s)" for k
  proof -
    from that have "k \<in> set (map fst (snapshot_members s))" by simp
    then have "k \<in> set (map fst snapshot_kinds)" unfolding map_fst_members .
    then show ?thesis using snapshot_names_plain by force
  qed
  have "foldName k = foldName name \<longleftrightarrow> k = name" if "(k, x) \<in> set kvs" for k x
  proof -
    have "list_all plain_char k" "list_all plain_char name"
      using that assms(1,3) plain by force+
    then show ?thesis using foldName_plain_inject by blast
  qed
  then have "named name kvs = filter (\<lambda>(k, v). k = name) kvs"
    unfolding named_def by (intro filter_cong) auto
  also have "\<dots> = [(name, v)]" using assms by (intro filter_key) auto
  finally show ?thesis .
qed

lemma texts_over_JStr: "texts_over (map JStr xs) old = xs"
  by (induction xs arbitrary: old) (simp_all add: text_of_def)

lemma strings_value:
  "(case json_strings xs of JNull \<Rightarrow> None | JArr vs \<Rightarrow> Some (texts_over vs (elems None)) | _ \<Rightarrow> None) = xs"
  by (cases xs) (simp_all add: json_strings_def texts_over_JStr)

lemma fold_fmupd_map:
  "fold (\<lambda>(k, x). fmupd k (dec x)) (map (\<lambda>(k, v). (k, enc v)) (sorted_list_of_fmap fm)) fmempty = fm"
  if "\<And>v. dec (enc v) = v" for fm :: "(string, 'a) fmap"
proof -
  have "fold (\<lambda>(k, x). fmupd k (dec x)) (map (\<lambda>(k, v). (k, enc v)) kvs) m =
      fold (\<lambda>(k, v). fmupd k v) kvs m" for kvs and m :: "(string, 'a) fmap"
    by (induction kvs arbitrary: m) (auto simp: that)
  then show ?thesis by (simp add: fold_fmupd_distinct distinct_sorted_list_of_fmap)
qed

lemma flags_value:
  "(case json_bool_map m of JNull \<Rightarrow> None
     | JObj ms \<Rightarrow> Some (fold (\<lambda>(k, x). fmupd k (flag_of x)) ms (fmap_of None)) | _ \<Rightarrow> None) = m"
  by (cases m) (simp_all add: json_bool_map_def fmap_of_def fold_fmupd_map flag_of_def)

lemma texts_value:
  "(case json_string_map m of JNull \<Rightarrow> None
     | JObj ms \<Rightarrow> Some (fold (\<lambda>(k, x). fmupd k (text_of x [])) ms (fmap_of None)) | _ \<Rightarrow> None) = m"
  by (cases m) (simp_all add: json_string_map_def fmap_of_def fold_fmupd_map text_of_def)

lemma fits_members:
  "fits KText (JStr t)" "fits KStrings (json_strings xs)" "fits KBools (json_bool_map bs)"
  "fits KTexts (json_string_map ts)"
  by (auto simp: fits_def is_text_def json_strings_def json_bool_map_def json_string_map_def is_flag_def
      list_all_iff split: option.splits)

lemma snapshot_members_kinds:
  "list_all2 (\<lambda>(name, v) (name', kind). name = name' \<and> fits kind v) (snapshot_members s) snapshot_kinds"
  by (simp add: snapshot_members_def json_snapshot_def snapshot_kinds_def fits_members)

lemma all_fit_members:
  assumes "set kvs = set (snapshot_members s)" "distinct (map fst kvs)"
  shows "all_fit kvs"
proof -
  have "list_all (fits kind \<circ> snd) (named name kvs)" if k: "(name, kind) \<in> set snapshot_kinds" for name kind
  proof -
    obtain v where "(name, v) \<in> set (snapshot_members s)" "fits kind v"
      using list_all2_mem2 [OF snapshot_members_kinds k] by fastforce
    with named_members [OF assms] show ?thesis by simp
  qed
  then show ?thesis by (auto simp: all_fit_def list_all_iff)
qed

lemma snapshot_of_members_set:
  assumes "set kvs = set (snapshot_members s)" "distinct (map fst kvs)"
  shows "snapshot_of_members kvs = s"
proof -
  note n = named_members [OF assms, unfolded snapshot_members_def json_snapshot_def, simplified]
  show ?thesis
    by (simp add: snapshot_of_members_def text_field_def strings_field_def map_field_def n
        strings_value flags_value texts_value)
qed

lemma unmarshal_snapshot_members:
  assumes "set kvs = set (snapshot_members s)" "distinct (map fst kvs)"
  shows "unmarshal_snapshot (JObj kvs) = Inr s"
  by (simp add: unmarshal_snapshot_def all_fit_members [OF assms] snapshot_of_members_set [OF assms])

lemma unmarshal_snapshot_sorted:
  "unmarshal_snapshot (JObj (sort_key fst (snapshot_members s))) = Inr s"
proof (rule unmarshal_snapshot_members)
  have "distinct (map fst (snapshot_members s))"
    by (simp add: map_fst_members distinct_members)
  then show "distinct (map fst (sort_key fst (snapshot_members s)))"
    by (simp add: map_sort_key)
qed simp

end
