(* ===== verification/Withdraw_Liquidity.thy ===== *)
theory Withdraw_Liquidity
  imports Share_Price
begin

text \<open>
  \<open>internal/monitor/modules/morpho/withdraw_liquidity.go\<close>: the module that watches the idle
  assets of the vault and simulates the full exit of the position.
\<close>

record 'w WithdrawLiquidityModule =
  wl_IdleAssetReader :: "(address \<Rightarrow> ('w, gerror + bigint) io) option"
  wl_ExitSimulator :: "'w ExitSimulator option"
  wl_Owner :: address
  wl_Receiver :: address
  wl_Vault :: address
  wl_IdleWarn :: bigint
  wl_IdleUrgent :: bigint
  wl_Clock :: "'w Clock option"

definition withdraw_liquidity_error :: "string \<Rightarrow> gerror" where
  "withdraw_liquidity_error text = New (ModuleWithdrawLiquidity @ '' '' @ text)"

definition not_positive :: "bigint \<Rightarrow> bool" where
  "not_positive v \<longleftrightarrow> (case v of None \<Rightarrow> True | Some x \<Rightarrow> x \<le> 0)"

definition WithdrawLiquidity_ValidateConfig :: "'w WithdrawLiquidityModule \<Rightarrow> gerror option" where
  "WithdrawLiquidity_ValidateConfig module =
     (if wl_IdleAssetReader module = None
      then Some (withdraw_liquidity_error ''idle asset reader is required'')
      else if wl_ExitSimulator module = None
      then Some (withdraw_liquidity_error ''exit simulator is required'')
      else if wl_Owner module = 0 then Some (withdraw_liquidity_error ''owner address is required'')
      else if wl_Receiver module = 0
      then Some (withdraw_liquidity_error ''receiver address is required'')
      else if wl_Vault module = 0 then Some (withdraw_liquidity_error ''vault address is required'')
      else if not_positive (wl_IdleWarn module)
      then Some (withdraw_liquidity_error ''idle_warn_threshold_usdc must be positive'')
      else if not_positive (wl_IdleUrgent module)
      then Some (withdraw_liquidity_error ''idle_urgent_threshold_usdc must be positive'')
      else if the (wl_IdleWarn module) < the (wl_IdleUrgent module)
      then Some (withdraw_liquidity_error
             ''warn threshold must be greater than or equal to urgent threshold'')
      else None)"

definition WithdrawLiquidity_Bootstrap :: "'w WithdrawLiquidityModule
    \<Rightarrow> ('w, gerror + BootstrapFragment) io" where
  "WithdrawLiquidity_Bootstrap module = ret (Inr [])"

definition validatePosition :: "'w WithdrawLiquidityModule \<Rightarrow> PositionSnapshot \<Rightarrow> gerror option" where
  "validatePosition module position =
     (if ps_Vault position \<noteq> wl_Vault module
      then Some (withdraw_liquidity_error ''position vault mismatch'')
      else if ps_Owner position \<noteq> wl_Owner module
      then Some (withdraw_liquidity_error ''position owner mismatch'')
      else if ps_Receiver position \<noteq> wl_Receiver module
      then Some (withdraw_liquidity_error ''position receiver mismatch'')
      else None)"

definition idleLiquidityFinding :: "'w WithdrawLiquidityModule \<Rightarrow> Severity \<Rightarrow> int \<Rightarrow> Finding" where
  "idleLiquidityFinding module severity idleAssets =
     \<lparr>f_Key = FindingIdleLiquidity, f_Severity = severity,
      f_Message = ''idle liquidity crossed threshold'',
      f_Evidence = Some (fmap_of_list [(''idle_assets'', dec_int idleAssets),
        (''idle_warn_threshold_usdc'', dec_int (the (wl_IdleWarn module))),
        (''idle_urgent_threshold_usdc'', dec_int (the (wl_IdleUrgent module)))])\<rparr>"

definition exit_simulation_finding :: "int \<Rightarrow> Finding" where
  "exit_simulation_finding expectedExitAssets =
     \<lparr>f_Key = FindingExitSimulation, f_Severity = SeverityUrgent,
      f_Message = ''full-exit simulation failed'',
      f_Evidence = Some (fmap_of_list [(''expected_exit_assets'', dec_int expectedExitAssets),
        (''simulation_success'', ''false'')])\<rparr>"

text \<open>Status and findings from the idle assets, then overruled by a failed simulation.\<close>

definition idle_verdict :: "'w WithdrawLiquidityModule \<Rightarrow> int \<Rightarrow> MonitorStatus \<times> Finding list" where
  "idle_verdict module idleAssets =
     (if idleAssets < the (wl_IdleUrgent module)
      then (MonitorStatusUrgent, [idleLiquidityFinding module SeverityUrgent idleAssets])
      else if idleAssets < the (wl_IdleWarn module)
      then (MonitorStatusWarn, [idleLiquidityFinding module SeverityWarn idleAssets])
      else (MonitorStatusOK, []))"

definition exit_verdict :: "FullExitSimulation \<Rightarrow> int \<Rightarrow> MonitorStatus \<times> Finding list
    \<Rightarrow> MonitorStatus \<times> Finding list" where
  "exit_verdict simulation expectedExitAssets v =
     (if sim_Success simulation then v
      else (MonitorStatusUrgent, snd v @ [exit_simulation_finding expectedExitAssets]))"

text \<open>The expected assets of a simulation: 0 when a failed one gives none.\<close>

definition expected_exit :: "FullExitSimulation \<Rightarrow> gerror + int" where
  "expected_exit simulation =
     (case sim_ExpectedAssetUnits simulation of
        Some e \<Rightarrow>
          if e < 0 then Inl (withdraw_liquidity_error ''expected exit assets must be non-negative'')
          else Inr e
      | None \<Rightarrow>
          if sim_Success simulation
          then Inl (withdraw_liquidity_error
                 ''expected_exit_assets is required for successful simulation'')
          else Inr 0)"

definition WithdrawLiquidity_Monitor :: "'w Clock \<Rightarrow> 'w WithdrawLiquidityModule
    \<Rightarrow> ('w, gerror + MonitorResult) io" where
  "WithdrawLiquidity_Monitor sys module =
     (case WithdrawLiquidity_ValidateConfig module of
        Some err \<Rightarrow> ret (Inl err)
      | None \<Rightarrow>
     (let reader = the (wl_IdleAssetReader module); exitSim = the (wl_ExitSimulator module) in
      bindE (reader (wl_Vault module)) (\<lambda>idle.
      if (case idle of None \<Rightarrow> True | Some v \<Rightarrow> v < 0)
      then ret (Inl (withdraw_liquidity_error ''idle assets must be non-negative''))
      else bindE (es_Position exitSim) (\<lambda>position.
      if not_positive (ps_ShareBalance position)
      then ret (Inl (withdraw_liquidity_error ''share_balance must be positive''))
      else (case validatePosition module position of
        Some err \<Rightarrow> ret (Inl err)
      | None \<Rightarrow>
      bindIO (es_SimulateFullExit exitSim \<lparr>rq_Vault = wl_Vault module, rq_Owner = wl_Owner module,
          rq_Receiver = wl_Receiver module, rq_Shares = ps_ShareBalance position\<rparr>)
        (\<lambda>(simulated, err).
      let simulation = (if err \<noteq> None then zeroSimulation else simulated) in
      case expected_exit simulation of
        Inl e \<Rightarrow> ret (Inl e)
      | Inr expectedExitAssets \<Rightarrow>
          (case exit_verdict simulation expectedExitAssets (idle_verdict module (the idle)) of
             (status, findings) \<Rightarrow>
               bindIO (clock_now sys (wl_Clock module)) (\<lambda>now.
               ret (Inr \<lparr>mr_ModuleID = ModuleWithdrawLiquidity, mr_Status = status,
                 mr_ObservedAt = now,
                 mr_Metrics = Some [
                   \<lparr>m_Key = ''idle_assets'', m_Value = dec_int (the idle), m_Unit = ''asset_units''\<rparr>,
                   \<lparr>m_Key = ''expected_exit_assets'', m_Value = dec_int expectedExitAssets,
                    m_Unit = ''asset_units''\<rparr>],
                 mr_Findings = Some findings\<rparr>)))))))))"

lemma WithdrawLiquidity_ValidateConfig_None:
  "WithdrawLiquidity_ValidateConfig module = None \<Longrightarrow>
     \<exists>warn urgent. wl_IdleWarn module = Some warn \<and> wl_IdleUrgent module = Some urgent \<and>
       0 < urgent \<and> urgent \<le> warn"
  by (auto simp: WithdrawLiquidity_ValidateConfig_def not_positive_def
      split: if_splits option.splits)

text \<open>
  Once the position is known to be the configured one and to hold shares, the module reports
  unless the simulation's figures are inconsistent: a position that cannot be exited is always
  urgent, whatever the idle assets, and an exit that works is judged by the idle assets alone.
\<close>

lemma WithdrawLiquidity_Monitor_result:
  assumes "WithdrawLiquidity_ValidateConfig module = None"
    and "wl_IdleAssetReader module = Some reader" "reader (wl_Vault module) w = (Inr (Some idle), w1)"
    and "0 \<le> idle"
    and "wl_ExitSimulator module = Some exitSim" "es_Position exitSim w1 = (Inr position, w2)"
    and "ps_ShareBalance position = Some shares" "0 < shares" "validatePosition module position = None"
    and "es_SimulateFullExit exitSim \<lparr>rq_Vault = wl_Vault module, rq_Owner = wl_Owner module,
          rq_Receiver = wl_Receiver module, rq_Shares = Some shares\<rparr> w2 = ((sim, err), w3)"
    and "expected_exit (if err \<noteq> None then zeroSimulation else sim) = Inr expected"
    and "clock_now sys (wl_Clock module) w3 = (now, w4)"
  shows "\<exists>r. WithdrawLiquidity_Monitor sys module w = (Inr r, w4) \<and>
    mr_Status r =
      (if err \<noteq> None \<or> \<not> sim_Success sim \<or> idle < the (wl_IdleUrgent module) then MonitorStatusUrgent
       else if idle < the (wl_IdleWarn module) then MonitorStatusWarn else MonitorStatusOK) \<and>
    (SeverityUrgent \<in> f_Severity ` set (elems (mr_Findings r)) \<longleftrightarrow> mr_Status r = MonitorStatusUrgent)"
  using assms
  by (simp add: WithdrawLiquidity_Monitor_def Let_def bindE_eq bindIO_eq ret_eq not_positive_def
      exit_verdict_def idle_verdict_def idleLiquidityFinding_def exit_simulation_finding_def)

subsection \<open>Properties\<close>

text \<open>C10: For the configured position with shares, a full exit that cannot be simulated makes
  the module urgent whatever the idle assets; one that can is judged by the idle assets: urgent
  below the urgent threshold, else warn below the warn threshold, else OK. A finding is urgent
  exactly when the status is.\<close>

theorem withdraw_liquidity_verdict:
  assumes "WithdrawLiquidity_ValidateConfig module = None"
    and "wl_IdleAssetReader module = Some reader" "reader (wl_Vault module) w = (Inr (Some idle), w1)"
    and "0 \<le> idle"
    and "wl_ExitSimulator module = Some exitSim" "es_Position exitSim w1 = (Inr position, w2)"
    and "ps_ShareBalance position = Some shares" "0 < shares" "validatePosition module position = None"
    and "es_SimulateFullExit exitSim \<lparr>rq_Vault = wl_Vault module, rq_Owner = wl_Owner module,
          rq_Receiver = wl_Receiver module, rq_Shares = Some shares\<rparr> w2 = ((sim, err), w3)"
    and "expected_exit (if err \<noteq> None then zeroSimulation else sim) = Inr expected"
    and "clock_now sys (wl_Clock module) w3 = (now, w4)"
  shows "\<exists>r. WithdrawLiquidity_Monitor sys module w = (Inr r, w4) \<and>
    mr_Status r =
      (if err \<noteq> None \<or> \<not> sim_Success sim \<or> idle < the (wl_IdleUrgent module) then MonitorStatusUrgent
       else if idle < the (wl_IdleWarn module) then MonitorStatusWarn else MonitorStatusOK) \<and>
    (SeverityUrgent \<in> f_Severity ` set (elems (mr_Findings r)) \<longleftrightarrow> mr_Status r = MonitorStatusUrgent)"
  using assms by (rule WithdrawLiquidity_Monitor_result)

definition demo_exit_position :: PositionSnapshot where
  "demo_exit_position = \<lparr>ps_Vault = 1, ps_Owner = 2, ps_Receiver = 3, ps_ShareBalance = Some 5,
     ps_AssetSymbol = [], ps_AssetDecimals = 6, ps_ObservedAt = 0\<rparr>"

definition demo_withdraw_liquidity :: "unit WithdrawLiquidityModule" where
  "demo_withdraw_liquidity = \<lparr>wl_IdleAssetReader = Some (\<lambda>v. ret (Inr (Some 70))),
     wl_ExitSimulator = Some \<lparr>es_Position = ret (Inr demo_exit_position),
       es_SimulateFullExit = (\<lambda>rq. ret (zeroSimulation\<lparr>sim_Success := True,
          sim_ExpectedAssetUnits := Some 4\<rparr>, None))\<rparr>,
     wl_Owner = 2, wl_Receiver = 3, wl_Vault = 1, wl_IdleWarn = Some 100, wl_IdleUrgent = Some 50,
     wl_Clock = Some (FixedClock_Now 0)\<rparr>"

theorem withdraw_liquidity_verdict_witness:
  "\<exists>r. WithdrawLiquidity_Monitor (ret 0) demo_withdraw_liquidity () = (Inr r, ())
     \<and> mr_Status r = MonitorStatusWarn"
  using withdraw_liquidity_verdict [of demo_withdraw_liquidity "\<lambda>v. ret (Inr (Some 70))" "()" 70 "()"
      "the (wl_ExitSimulator demo_withdraw_liquidity)" demo_exit_position "()" 5
      "zeroSimulation\<lparr>sim_Success := True, sim_ExpectedAssetUnits := Some 4\<rparr>" None "()" 4 "ret 0" 0 "()"]
  by (fastforce simp: demo_withdraw_liquidity_def demo_exit_position_def WithdrawLiquidity_ValidateConfig_def
      not_positive_def ret_def validatePosition_def expected_exit_def clock_now_def FixedClock_Now_def)

end
