(* ===== verification/Ethereum_Client.thy ===== *)
theory Ethereum_Client
  imports Withdraw_Service
begin

text \<open>
  \<open>internal/ethereum/client.go\<close>: a client over several RPC endpoints. Every read asks the
  primary endpoint and then the fallbacks, in order, until one answers; a transaction goes to
  the primary endpoint only. \<open>RPCClient\<close> is the Go interface as a record of operations.
\<close>

subsection \<open>The RPC interface\<close>

record CallMsg =
  cm_From :: address
  cm_To :: "address option"
  cm_Value :: bigint
  cm_Data :: "bytes option"

record Receipt =
  rcpt_TxHash :: hash
  rcpt_Status :: uint64
  rcpt_BlockNumber :: bigint

record 'w RPCClient =
  rpc_CallContract :: "CallMsg \<Rightarrow> bigint \<Rightarrow> ('w, gerror + bytes) io"
  rpc_PendingNonceAt :: "address \<Rightarrow> ('w, gerror + uint64) io"
  rpc_SuggestGasPrice :: "('w, gerror + bigint) io"
  rpc_SuggestGasTipCap :: "('w, gerror + bigint) io"
  rpc_EstimateGas :: "CallMsg \<Rightarrow> ('w, gerror + uint64) io"
  rpc_SendTransaction :: "Transaction \<Rightarrow> ('w, gerror option) io"
  rpc_TransactionReceipt :: "hash \<Rightarrow> ('w, gerror + Receipt) io"
  rpc_ChainID :: "('w, gerror + bigint) io"
  rpc_Close :: "('w, unit) io"

record 'w MultiClient =
  mc_primary :: "'w RPCClient option"
  mc_fallbacks :: "'w RPCClient option list"

definition errNilPrimaryClient :: string where
  "errNilPrimaryClient = ''ethereum RPC primary client is nil''"

definition errNilTransaction :: string where
  "errNilTransaction = ''transaction is nil''"

definition NewMultiClient :: "'w RPCClient option \<Rightarrow> 'w RPCClient option list \<Rightarrow> 'w MultiClient"
  where "NewMultiClient primary fallbacks = \<lparr>mc_primary = primary, mc_fallbacks = fallbacks\<rparr>"

definition rpcClients :: "'w MultiClient \<Rightarrow> gerror + 'w RPCClient list" where
  "rpcClients client =
     (case mc_primary client of
        None \<Rightarrow> Inl (New errNilPrimaryClient)
      | Some primary \<Rightarrow>
          Inr (primary # map the (filter (\<lambda>f. f \<noteq> None) (mc_fallbacks client))))"

subsection \<open>Reads\<close>

text \<open>
  The loop that every read method writes out: the first success is returned, and after the
  last failure the last error is wrapped. \<open>lastErr\<close> starts as nil and the list of clients is
  never empty, so the wrapped error is never nil.
\<close>

fun firstAnswer :: "string \<Rightarrow> gerror option \<Rightarrow> ('w, gerror + 'a) io list \<Rightarrow> ('w, gerror + 'a) io"
where
  "firstAnswer what lastErr [] w =
     (Inl (case lastErr of
         Some e \<Rightarrow> Wrap (what @ '' failed on all RPC clients: '') e []
       | None \<Rightarrow> New (what @ '' failed on all RPC clients: %!w(<nil>)'')), w)"
| "firstAnswer what lastErr (op # ops) w =
     (case op w of
        (Inr x, w') \<Rightarrow> (Inr x, w')
      | (Inl e, w') \<Rightarrow> firstAnswer what (Some e) ops w')"

definition readAll :: "string \<Rightarrow> ('w RPCClient \<Rightarrow> ('w, gerror + 'a) io) \<Rightarrow> 'w MultiClient
    \<Rightarrow> ('w, gerror + 'a) io" where
  "readAll what op client =
     (case rpcClients client of
        Inl e \<Rightarrow> ret (Inl (Wrap (what @ '': '') e []))
      | Inr clients \<Rightarrow> firstAnswer what None (map op clients))"

definition CallContract :: "'w MultiClient \<Rightarrow> CallMsg \<Rightarrow> bigint \<Rightarrow> ('w, gerror + bytes) io" where
  "CallContract client msg block = readAll ''call contract'' (\<lambda>rpc. rpc_CallContract rpc msg block) client"

definition PendingNonceAt :: "'w MultiClient \<Rightarrow> address \<Rightarrow> ('w, gerror + uint64) io" where
  "PendingNonceAt client account = readAll ''pending nonce'' (\<lambda>rpc. rpc_PendingNonceAt rpc account) client"

definition SuggestGasTipCap :: "'w MultiClient \<Rightarrow> ('w, gerror + bigint) io" where
  "SuggestGasTipCap client = readAll ''suggest gas tip cap'' rpc_SuggestGasTipCap client"

definition SuggestGasPrice :: "'w MultiClient \<Rightarrow> ('w, gerror + bigint) io" where
  "SuggestGasPrice client = readAll ''suggest gas price'' rpc_SuggestGasPrice client"

definition EstimateGas :: "'w MultiClient \<Rightarrow> CallMsg \<Rightarrow> ('w, gerror + uint64) io" where
  "EstimateGas client msg = readAll ''estimate gas'' (\<lambda>rpc. rpc_EstimateGas rpc msg) client"

definition TransactionReceipt :: "'w MultiClient \<Rightarrow> hash \<Rightarrow> ('w, gerror + Receipt) io" where
  "TransactionReceipt client txHash =
     readAll ''transaction receipt'' (\<lambda>rpc. rpc_TransactionReceipt rpc txHash) client"

definition ChainID :: "'w MultiClient \<Rightarrow> ('w, gerror + bigint) io" where
  "ChainID client = readAll ''chain ID'' rpc_ChainID client"

subsection \<open>Sending, dialling, closing\<close>

definition SendTransaction :: "'w MultiClient \<Rightarrow> Transaction option \<Rightarrow> ('w, gerror option) io" where
  "SendTransaction client tx =
     (case mc_primary client of
        None \<Rightarrow> ret (Some (New (''send transaction: '' @ errNilPrimaryClient)))
      | Some primary \<Rightarrow>
          (case tx of
             None \<Rightarrow> ret (Some (New (''send transaction: '' @ errNilTransaction)))
           | Some t \<Rightarrow>
               onErr (rpc_SendTransaction primary t)
                 (\<lambda>err. ret (Some (Wrap ''send transaction: '' err []))) (ret None)))"

fun closeClients :: "'w RPCClient option list \<Rightarrow> ('w, unit) io" where
  "closeClients [] w = ((), w)"
| "closeClients (None # cs) w = closeClients cs w"
| "closeClients (Some c # cs) w = (case rpc_Close c w of (_, w') \<Rightarrow> closeClients cs w')"

definition Close :: "'w MultiClient \<Rightarrow> ('w, unit) io" where
  "Close client =
     bindIO (case mc_primary client of None \<Rightarrow> ret () | Some primary \<Rightarrow> rpc_Close primary)
       (\<lambda>_. closeClients (mc_fallbacks client))"

fun dialFallbacks :: "(string \<Rightarrow> ('w, gerror + 'w RPCClient) io) \<Rightarrow> 'w RPCClient
    \<Rightarrow> 'w RPCClient option list \<Rightarrow> string list \<Rightarrow> ('w, gerror + 'w MultiClient) io" where
  "dialFallbacks dial primary fallbacks [] w =
     (Inr (NewMultiClient (Some primary) fallbacks), w)"
| "dialFallbacks dial primary fallbacks (url # urls) w =
     (case dial url w of
        (Inl err, w') \<Rightarrow>
          (case rpc_Close primary w' of (_, w'') \<Rightarrow>
             (case closeClients fallbacks w'' of (_, w''') \<Rightarrow>
                (Inl (Wrap ''dial fallback RPC: '' err []), w''')))
      | (Inr client, w') \<Rightarrow> dialFallbacks dial primary (fallbacks @ [Some client]) urls w')"

definition dialMulti :: "(string \<Rightarrow> ('w, gerror + 'w RPCClient) io) \<Rightarrow> string \<Rightarrow> string list
    \<Rightarrow> ('w, gerror + 'w MultiClient) io" where
  "dialMulti dial primaryURL fallbackURLs =
     tryE (dial primaryURL) (\<lambda>err. ret (Inl (Wrap ''dial primary RPC: '' err [])))
       (\<lambda>primary. dialFallbacks dial primary [] fallbackURLs)"

subsection \<open>Fallback order\<close>

text \<open>Running a list of calls whose every answer is an error.\<close>

fun all_failed :: "('w, gerror + 'a) io list \<Rightarrow> 'w \<Rightarrow> 'w option" where
  "all_failed [] w = Some w"
| "all_failed (op # ops) w =
     (case op w of (Inr x, w') \<Rightarrow> None | (Inl e, w') \<Rightarrow> all_failed ops w')"

lemma split_list_Cons:
  "(\<exists>pre op post. y # ys = pre @ op # post \<and> Q pre op) \<longleftrightarrow>
     Q [] y \<or> (\<exists>pre op post. ys = pre @ op # post \<and> Q (y # pre) op)"
  by (auto simp: Cons_eq_append_conv)

lemma firstAnswer_Inr:
  "firstAnswer what le ops w = (Inr x, w') \<longleftrightarrow>
     (\<exists>pre op post. ops = pre @ op # post \<and>
        (\<exists>w1. all_failed pre w = Some w1 \<and> op w1 = (Inr x, w')))"
proof (induction what le ops w rule: firstAnswer.induct)
  case (2 what le op ops w)
  then show ?case
    unfolding split_list_Cons firstAnswer.simps all_failed.simps
    by (auto split: prod.splits sum.splits)
qed simp

lemma firstAnswer_Inl:
  "firstAnswer what le ops w = (Inl e, w') \<Longrightarrow> all_failed ops w = Some w'"
  by (induction what le ops w rule: firstAnswer.induct) (auto split: prod.splits sum.splits)

lemma firstAnswer_keeps:
  assumes "firstAnswer what le ops w = (r, w')"
    and "\<And>op w x w'. op \<in> set ops \<Longrightarrow> op w = (x, w') \<Longrightarrow> obs w' = obs w"
  shows "obs w' = obs w"
  using assms
proof (induction what le ops w rule: firstAnswer.induct)
  case (2 what le op ops w)
  obtain a w1 where a: "op w = (a, w1)" by (cases "op w")
  then have "obs w1 = obs w" using 2(3) [of op w a w1] by simp
  with 2 a show ?case by (cases a) auto
qed simp

lemma readAll_keeps:
  assumes "readAll what op client w = (r, w')"
    and "\<And>c w x w'. Some c \<in> insert (mc_primary client) (set (mc_fallbacks client))
      \<Longrightarrow> op c w = (x, w') \<Longrightarrow> obs w' = obs w"
  shows "obs w' = obs w"
proof (cases "rpcClients client")
  case (Inl e)
  with assms(1) show ?thesis by (simp add: readAll_def ret_def)
next
  case (Inr clients)
  with assms(1) have "firstAnswer what None (map op clients) w = (r, w')"
    by (simp add: readAll_def)
  then show ?thesis
  proof (rule firstAnswer_keeps)
    fix q v x v'
    assume "q \<in> set (map op clients)" "q v = (x, v')"
    moreover from this(1) obtain c where "c \<in> set clients" "q = op c" by auto
    moreover have "Some c \<in> insert (mc_primary client) (set (mc_fallbacks client))"
      using \<open>c \<in> set clients\<close> Inr by (auto simp: rpcClients_def split: option.splits)
    ultimately show "obs v' = obs v" by (simp add: assms(2))
  qed
qed

subsection \<open>No connection is leaked\<close>

locale dialer =
  fixes dial :: "string \<Rightarrow> ('w, gerror + 'w RPCClient) io"
    and opened :: "'w \<Rightarrow> int"
  assumes dial_fails: "dial url w = (Inl e, w') \<Longrightarrow> opened w' = opened w"
    and dial_opens: "dial url w = (Inr c, w') \<Longrightarrow> opened w' = opened w + 1"
    and close_closes: "dial url w = (Inr c, w') \<Longrightarrow> opened (snd (rpc_Close c w1)) = opened w1 - 1"
begin

definition dialled :: "'w RPCClient \<Rightarrow> bool" where
  "dialled c \<longleftrightarrow> (\<exists>url w w'. dial url w = (Inr c, w'))"

lemma close_dialled: "dialled c \<Longrightarrow> opened (snd (rpc_Close c w)) = opened w - 1"
  by (auto simp: dialled_def close_closes)

lemma closeClients_dialled:
  assumes "\<forall>c \<in> set cs. \<exists>d. c = Some d \<and> dialled d"
  shows "opened (snd (closeClients cs w)) = opened w - int (length cs)"
  using assms
proof (induction cs w rule: closeClients.induct)
  case (2 cs w)
  from 2(2) show ?case by simp
next
  case (3 c cs w)
  then have "dialled c" by force
  then have "opened (snd (rpc_Close c w)) = opened w - 1" by (rule close_dialled)
  with 3 show ?case by (auto split: prod.splits)
qed simp

lemma dialFallbacks_opened:
  assumes "dialFallbacks dial primary fs urls w = (r, w')" "dialled primary"
    and "\<forall>c \<in> set fs. \<exists>d. c = Some d \<and> dialled d"
  shows "opened w' = opened w +
    (case r of Inl e \<Rightarrow> - 1 - int (length fs) | Inr m \<Rightarrow> int (length urls))"
  using assms
proof (induction urls arbitrary: fs w)
  case (Cons url urls)
  obtain d w1 where d: "dial url w = (d, w1)" by (cases "dial url w")
  show ?case
  proof (cases d)
    case (Inl e)
    obtain w2 where c: "rpc_Close primary w1 = ((), w2)" by (cases "rpc_Close primary w1") auto
    obtain w3 where cs: "closeClients fs w2 = ((), w3)" by (cases "closeClients fs w2") auto
    have "opened w1 = opened w" "opened w2 = opened w1 - 1" "opened w3 = opened w2 - int (length fs)"
      using dial_fails d Inl close_dialled [OF Cons.prems(2), of w1] c closeClients_dialled [of fs w2] Cons.prems(3) cs
      by auto
    with Cons.prems(1) d Inl c cs show ?thesis by auto
  next
    case (Inr c)
    then have "dialled c" using d by (auto simp: dialled_def)
    moreover have "opened w1 = opened w + 1" using d Inr dial_opens by simp
    ultimately show ?thesis
      using Cons.IH [of "fs @ [Some c]" w1] Cons.prems d Inr by (auto split: sum.splits)
  qed
qed auto

text \<open>A dial that fails leaves no connection open; one that succeeds opens one per endpoint.\<close>

lemma dialMulti_opened:
  assumes "dialMulti dial url urls w = (r, w')"
  shows "opened w' = opened w + (case r of Inl e \<Rightarrow> 0 | Inr m \<Rightarrow> 1 + int (length urls))"
  using assms unfolding dialMulti_def
proof (elim io_elims)
  fix primary w1
  assume p: "dial url w = (Inr primary, w1)" and f: "dialFallbacks dial primary [] urls w1 = (r, w')"
  then have "dialled primary" by (auto simp: dialled_def)
  with f p show ?thesis
    using dialFallbacks_opened [of primary "[]" urls w1 r w'] dial_opens [OF p]
    by (auto split: sum.splits)
qed (auto dest: dial_fails)

end

subsection \<open>Properties\<close>


text \<open>A transaction is given to the primary endpoint and to no other, once: whatever the
  fallbacks are, the outcome is the primary endpoint's, its error only wrapped.\<close>

theorem send_uses_primary_only:
  "SendTransaction \<lparr>mc_primary = Some p, mc_fallbacks = fs\<rparr> (Some tx) w =
     (case rpc_SendTransaction p tx w of
        (None, w') \<Rightarrow> (None, w')
      | (Some err, w') \<Rightarrow> (Some (Wrap ''send transaction: '' err []), w'))"
  by (simp add: SendTransaction_def onErr_eq ret_eq cong: option.case_cong)

end
