(* ===== verification/Withdraw_Machine.thy ===== *)
theory Withdraw_Machine
  imports Withdraw_Service
begin

text \<open>
  What an execution of the withdrawal service does to its pending transaction, as an abstract
  machine: \<open>exit_step\<close> has one rule per way \<open>ExecuteFullExit\<close> can end. Every execution, in
  every environment, is a step of the machine (\<open>ExecuteFullExit_refines\<close>), so invariants of
  the machine hold after any sequence of executions, with the environment changing freely
  in between.
\<close>

subsection \<open>The abstract machine\<close>

datatype outcome = Failed | Noop | Await | Submitted uint64 FeeCaps

inductive exit_step :: "GasPolicy \<Rightarrow> Duration \<Rightarrow> pendingWithdrawal option \<Rightarrow> outcome
    \<Rightarrow> pendingWithdrawal option \<Rightarrow> bool" for policy timeout where
  fail: "exit_step policy timeout p Failed p"
| noop: "exit_step policy timeout p Noop None"
| await: "0 < timeout \<Longrightarrow> exit_step policy timeout (Some q) Await (Some q)"
| first: "fees_ok fees \<Longrightarrow> within_caps policy fees \<Longrightarrow>
    exit_step policy timeout None (Submitted nonce fees)
      (Some \<lparr>pw_Nonce = nonce, pw_FeeCaps = fees, pw_SubmittedAt = now, pw_TxHash = h\<rparr>)"
| replace: "BumpChecked policy (pw_FeeCaps q) = Inr fees \<Longrightarrow>
    (0 < timeout \<Longrightarrow> timeout \<le> time_Sub now (pw_SubmittedAt q)) \<Longrightarrow>
    exit_step policy timeout (Some q) (Submitted (pw_Nonce q) fees)
      (Some \<lparr>pw_Nonce = pw_Nonce q, pw_FeeCaps = fees, pw_SubmittedAt = now, pw_TxHash = h\<rparr>)"

inductive_cases exit_step_FailedE: "exit_step policy timeout p Failed p'"
inductive_cases exit_step_SubmittedE: "exit_step policy timeout p (Submitted nonce fees) p'"
inductive_simps exit_step_Noop: "exit_step policy timeout p Noop p'"
inductive_simps exit_step_Await: "exit_step policy timeout p Await p'"

text \<open>What the caller is told about the outcome: the result and the error of the execution.\<close>

fun reports :: "outcome \<Rightarrow> pendingWithdrawal option \<Rightarrow> WithdrawalResult \<times> gerror option \<Rightarrow> bool"
where
  "reports Failed p (res, err) =
     (err \<noteq> None \<and> \<not> wr_Noop res \<and> wr_Status res \<noteq> WithdrawalStatusSubmitted)"
| "reports Noop p (res, err) =
     (err = None \<and> wr_Noop res \<and> wr_Status res = WithdrawalStatusNoop)"
| "reports Await p (res, err) =
     (err = None \<and> \<not> wr_Noop res \<and> wr_Status res = WithdrawalStatusSubmitted \<and>
      (\<exists>q. p = Some q \<and> wr_TxHash res = pw_TxHash q \<and> wr_Nonce res = pw_Nonce q \<and>
           wr_FeeCaps res = pw_FeeCaps q))"
| "reports (Submitted nonce fees) p (res, err) =
     (\<not> wr_Noop res \<and> wr_Status res = WithdrawalStatusSubmitted \<and> wr_Nonce res = nonce \<and>
      wr_FeeCaps res = fees \<and> (\<exists>q. p = Some q \<and> wr_TxHash res = pw_TxHash q))"

subsection \<open>What one execution does\<close>

lemma withdrawal_status_distinct [simp]:
  "WithdrawalStatusNoop \<noteq> WithdrawalStatusSubmitted"
  "WithdrawalStatusSimulationFailed \<noteq> WithdrawalStatusSubmitted"
  "WithdrawalStatusSubmitted \<noteq> WithdrawalStatusSimulationFailed"
  "WithdrawalStatusSimulationFailed \<noteq> WithdrawalStatusNoop"
  "WithdrawalStatusSimulated \<noteq> WithdrawalStatusSimulationFailed"
  "WithdrawalStatusSimulationFailed \<noteq> WithdrawalStatusSimulated"
  "WithdrawalStatusSubmitted \<noteq> []" "[] \<noteq> WithdrawalStatusSubmitted"
  by (simp_all add: name_defs)

lemma zeroResult_simps [simp]:
  "wr_Status zeroResult = []" "wr_Noop zeroResult = False" "wr_FeeCaps zeroResult = zeroFeeCaps"
  by (simp_all add: zeroResult_def)

lemma initialFeeCaps_ok:
  assumes "initialFeeCaps policy submitter w = (Inr fees, w')"
  shows "fees_ok fees" "within_caps policy fees" "validateCaps policy = None"
  using assms unfolding initialFeeCaps_def Let_def
  by (auto elim!: io_elims split: option.splits if_splits simp: fees_ok_def within_caps_def)

lemma nonceAndFeeCaps_None:
  assumes "nonceAndFeeCaps svc submitter None addr now w = (Inr (nonce, fees), w')"
  obtains w1 where "sb_PendingNonceAt submitter addr w = (Inr nonce, w1)"
    "initialFeeCaps (svc_GasPolicy svc) submitter w1 = (Inr fees, w')"
  using assms unfolding nonceAndFeeCaps_def by (auto elim!: io_elims)

lemma nonceAndFeeCaps_Some:
  assumes "nonceAndFeeCaps svc submitter (Some q) addr now w = (Inr (nonce, fees), w')"
    and "svc_ReplacementTimeout svc \<le> 0
       \<or> svc_ReplacementTimeout svc \<le> time_Sub now (pw_SubmittedAt q)"
  shows "nonce = pw_Nonce q" "BumpChecked (svc_GasPolicy svc) (pw_FeeCaps q) = Inr fees" "w' = w"
  using assms unfolding nonceAndFeeCaps_def by (auto elim!: io_elims split: sum.splits)

text \<open>
  A submission, as seen from outside: the pending transaction is what was just signed and
  handed to \<open>SendTransaction\<close> without an error.
\<close>

lemma submitFullExit_cases:
  assumes "submitFullExit pl svc trigger now addr request simulation (p, w) = ((res, err), (p', w'))"
  obtains (failed) e where "res = zeroResult" "err = Some e" "p' = p"
  | (submitted) nonce fees signed cand w1 w2 w3 w4 where
      "nonceAndFeeCaps svc (the (svc_Submitter svc)) p addr now w1 = (Inr (nonce, fees), w2)"
      "sg_SignTransaction (the (svc_Signer svc))
         (buildDynamicFeeTx cand (the (svc_ChainID svc)) nonce
           (bufferedGas (sim_GasUnits simulation) (svc_GasLimitBufferBPS svc)) fees)
         (the (svc_ChainID svc)) w2 = (Inr signed, w3)"
      "sb_SendTransaction (the (svc_Submitter svc)) signed w3 = (None, w4)"
      "p' = Some \<lparr>pw_Nonce = nonce, pw_FeeCaps = fees, pw_SubmittedAt = now,
                  pw_TxHash = pl_TxHash pl signed\<rparr>"
      "wr_Status res = WithdrawalStatusSubmitted" "\<not> wr_Noop res"
      "wr_TxHash res = pl_TxHash pl signed" "wr_Nonce res = nonce" "wr_FeeCaps res = fees"
  using assms unfolding submitFullExit_def Let_def failWith_def
  by (auto elim!: io_elims simp: getPending_def setPending_def split: prod.splits)

lemma ExecuteFullExit_cases:
  assumes "ExecuteFullExit pl svc trigger (p, w) = ((res, err), (p', w'))"
  obtains (failed) e where "err = Some e" "p' = p" "\<not> wr_Noop res"
      "wr_Status res \<noteq> WithdrawalStatusSubmitted"
  | (noop) "err = None" "p' = None" "wr_Noop res" "wr_Status res = WithdrawalStatusNoop"
  | (await) q sim where "p = Some q" "p' = p" "err = None" "res = pendingResult q sim"
      "0 < svc_ReplacementTimeout svc"
  | (submit) now addr request sim w1 where
      "submitFullExit pl svc trigger now addr request sim (p, w1) = ((res, err), (p', w'))"
      "\<And>q. p = Some q \<Longrightarrow> svc_ReplacementTimeout svc \<le> 0
          \<or> svc_ReplacementTimeout svc \<le> time_Sub now (pw_SubmittedAt q)"
  using assms unfolding ExecuteFullExit_def Let_def failWith_def
  by (auto elim!: io_elims simp: getPending_def setPending_def
      split: option.splits prod.splits if_splits)

lemma submitFullExit_step:
  assumes run: "submitFullExit pl svc trigger now addr request simulation (p, w) = ((res, err), (p', w'))"
    and due: "\<And>q. p = Some q \<Longrightarrow> svc_ReplacementTimeout svc \<le> 0
       \<or> svc_ReplacementTimeout svc \<le> time_Sub now (pw_SubmittedAt q)"
  shows "\<exists>out. exit_step (svc_GasPolicy svc) (svc_ReplacementTimeout svc) p out p'
    \<and> reports out p' (res, err)"
  using run
proof (cases rule: submitFullExit_cases)
  case (failed e)
  then show ?thesis
    by (intro exI [of _ Failed]) (auto intro: exit_step.fail)
next
  case (submitted nonce fees signed cand w1 w2 w3 w4)
  have "exit_step (svc_GasPolicy svc) (svc_ReplacementTimeout svc) p (Submitted nonce fees) p'"
  proof (cases p)
    case None
    with submitted(1) obtain wn where
        "initialFeeCaps (svc_GasPolicy svc) (the (svc_Submitter svc)) wn = (Inr fees, w2)"
      by (auto elim: nonceAndFeeCaps_None)
    from initialFeeCaps_ok [OF this] None submitted(4) show ?thesis
      by (auto intro: exit_step.first)
  next
    case (Some q)
    note n = nonceAndFeeCaps_Some [OF submitted(1) [unfolded Some] due [OF Some]]
    from n(1) due [OF Some] submitted(4) Some show ?thesis
      by (auto intro!: exit_step.replace n(2))
  qed
  with submitted show ?thesis
    by (intro exI [of _ "Submitted nonce fees"]) auto
qed

lemma ExecuteFullExit_step:
  assumes "ExecuteFullExit pl svc trigger (p, w) = ((res, err), (p', w'))"
  shows "\<exists>out. exit_step (svc_GasPolicy svc) (svc_ReplacementTimeout svc) p out p'
    \<and> reports out p' (res, err)"
  using assms
proof (cases rule: ExecuteFullExit_cases)
  case (failed e)
  then show ?thesis by (intro exI [of _ Failed]) (auto intro: exit_step.fail)
next
  case noop
  then show ?thesis by (intro exI [of _ Noop]) (auto intro: exit_step.noop)
next
  case (await q sim)
  then show ?thesis
    by (intro exI [of _ Await]) (auto intro: exit_step.await simp: pendingResult_def)
next
  case (submit now addr request sim w1)
  then show ?thesis by (rule submitFullExit_step)
qed

subsection \<open>Runs of the machine\<close>

definition fee_le :: "FeeCaps \<Rightarrow> FeeCaps \<Rightarrow> bool" where
  "fee_le a b \<longleftrightarrow> the (MaxFeePerGas a) \<le> the (MaxFeePerGas b)
     \<and> the (MaxPriorityFeePerGas a) \<le> the (MaxPriorityFeePerGas b)"

lemma fee_le_refl [simp]: "fee_le a a"
  by (simp add: fee_le_def)

lemma fee_le_trans [trans]: "fee_le a b \<Longrightarrow> fee_le b c \<Longrightarrow> fee_le a c"
  by (auto simp: fee_le_def)

text \<open>
  The pending transaction has usable fees within the ceilings, and a replacement keeps the
  nonce and never lowers a fee.
\<close>

definition pending_sound :: "GasPolicy \<Rightarrow> pendingWithdrawal option \<Rightarrow> bool" where
  "pending_sound policy p =
     (case p of None \<Rightarrow> True
      | Some q \<Rightarrow> fees_ok (pw_FeeCaps q) \<and> within_caps policy (pw_FeeCaps q))"

definition replaces :: "pendingWithdrawal option \<Rightarrow> pendingWithdrawal option \<Rightarrow> bool" where
  "replaces p p' =
     (case (p, p') of
        (Some q, Some q') \<Rightarrow> pw_Nonce q' = pw_Nonce q \<and> fee_le (pw_FeeCaps q) (pw_FeeCaps q')
      | _ \<Rightarrow> True)"

fun replacement_chain :: "GasPolicy \<Rightarrow> pendingWithdrawal option list \<Rightarrow> bool" where
  "replacement_chain policy [] = True"
| "replacement_chain policy [p] = pending_sound policy p"
| "replacement_chain policy (p # p' # ps) =
     (pending_sound policy p \<and> replaces p p' \<and> replacement_chain policy (p' # ps))"

lemma exit_step_sound:
  assumes "exit_step policy timeout p out p'" "bump_ok (BumpBPS policy)" "pending_sound policy p"
  shows "pending_sound policy p'" "replaces p p'"
  using assms
  by (auto elim!: exit_step.cases simp: pending_sound_def replaces_def fee_le_def
      BumpChecked_Inr(3) BumpChecked_within_caps dest: BumpChecked_ge split: option.splits)

text \<open>
  A sequence of executions, each in a world of its own: the environment is free to change
  between two executions. The result lists the outcome reported and the pending transaction
  left by each.
\<close>

fun execute_all :: "'w Platform \<Rightarrow> 'w Service \<Rightarrow> pendingWithdrawal option
    \<Rightarrow> (WithdrawalTrigger \<times> 'w) list
    \<Rightarrow> ((WithdrawalResult \<times> gerror option) \<times> pendingWithdrawal option) list" where
  "execute_all pl svc p [] = []"
| "execute_all pl svc p ((trigger, w) # calls) =
     (case ExecuteFullExit pl svc trigger (p, w) of
        (r, (p', w')) \<Rightarrow> (r, p') # execute_all pl svc p' calls)"

inductive exit_run :: "GasPolicy \<Rightarrow> Duration \<Rightarrow> pendingWithdrawal option
    \<Rightarrow> (outcome \<times> pendingWithdrawal option) list \<Rightarrow> bool" for policy timeout where
  stop: "exit_run policy timeout p []"
| cont: "exit_step policy timeout p out p' \<Longrightarrow> exit_run policy timeout p' rest
    \<Longrightarrow> exit_run policy timeout p ((out, p') # rest)"

inductive_cases exit_run_ConsE: "exit_run policy timeout p ((out, p') # rest)"

lemma exit_run_chain:
  assumes "exit_run policy timeout p outs" "bump_ok (BumpBPS policy)" "pending_sound policy p"
  shows "replacement_chain policy (p # map snd outs)"
  using assms
  by (induction rule: exit_run.induct) (auto dest: exit_step_sound)

text \<open>A ceiling that is not positive blocks every submission.\<close>

lemma exit_step_blocked:
  assumes "exit_step policy timeout None out p'" "validateCaps policy \<noteq> None"
  shows "p' = None" "out = Failed \<or> out = Noop"
  using assms
  by (auto elim!: exit_step.cases simp: fees_ok_iff within_caps_def validateCaps_None not_less)

lemma exit_run_blocked:
  assumes "exit_run policy timeout p outs" "validateCaps policy \<noteq> None" "p = None"
  shows "\<forall>(out, q) \<in> set outs. q = None \<and> out \<in> {Failed, Noop}"
  using assms
  by (induction rule: exit_run.induct) (auto dest: exit_step_blocked)

lemma reports_blocked:
  "reports Failed q r \<Longrightarrow> wr_Status (fst r) \<noteq> WithdrawalStatusSubmitted"
  "reports Noop q r \<Longrightarrow> wr_Status (fst r) \<noteq> WithdrawalStatusSubmitted"
  by (cases r; simp)+

lemma execute_all_run:
  "\<exists>outs. exit_run (svc_GasPolicy svc) (svc_ReplacementTimeout svc) p outs
     \<and> list_all2 (\<lambda>(out, q) (r, q'). q = q' \<and> reports out q r) outs (execute_all pl svc p calls)"
proof (induction calls arbitrary: p)
  case Nil
  then show ?case by (auto intro: exit_run.stop)
next
  case (Cons call calls)
  obtain trigger w where c: "call = (trigger, w)" by (cases call)
  obtain res err p' w' where e: "ExecuteFullExit pl svc trigger (p, w) = ((res, err), (p', w'))"
    by (metis surj_pair)
  from ExecuteFullExit_step [OF e] obtain out where
    out: "exit_step (svc_GasPolicy svc) (svc_ReplacementTimeout svc) p out p'"
      "reports out p' (res, err)" by blast
  from Cons.IH [of p'] obtain outs where
    "exit_run (svc_GasPolicy svc) (svc_ReplacementTimeout svc) p' outs"
    "list_all2 (\<lambda>(out, q) (r, q'). q = q' \<and> reports out q r) outs (execute_all pl svc p' calls)"
    by blast
  with out show ?case
    by (intro exI [of _ "(out, p') # outs"]) (auto simp: c e intro: exit_run.cont)
qed

lemma replacement_chain_nth:
  assumes "replacement_chain policy ps" "i \<le> j" "j < length ps"
    "\<And>k. i \<le> k \<Longrightarrow> k \<le> j \<Longrightarrow> ps ! k \<noteq> None"
  shows "pw_Nonce (the (ps ! j)) = pw_Nonce (the (ps ! i))
    \<and> fee_le (pw_FeeCaps (the (ps ! i))) (pw_FeeCaps (the (ps ! j)))"
  using assms(2-4)
proof (induction j rule: dec_induct)
  case (step n)
  have link: "replaces (ps ! n) (ps ! Suc n)"
    using assms(1) step.prems(1)
    by (induction policy ps arbitrary: n rule: replacement_chain.induct) (auto simp: less_Suc_eq_0_disj)
  have "ps ! n \<noteq> None" "ps ! Suc n \<noteq> None"
    using step by auto
  with link step.IH step.prems show ?case
    by (auto simp: replaces_def intro: fee_le_trans)
qed simp

subsection \<open>An environment that answers\<close>

text \<open>\<open>answers m P\<close>: the call \<open>m\<close> returns something that satisfies \<open>P\<close>, in any world.\<close>

definition answers :: "('w, 'a) io \<Rightarrow> ('a \<Rightarrow> bool) \<Rightarrow> bool" where
  "answers m P \<longleftrightarrow> (\<forall>w. P (fst (m w)))"

lemma answersE:
  assumes "answers m P"
  obtains x w' where "m w = (x, w')" "P x"
  using assms by (cases "m w") (auto simp: answers_def dest: spec [of _ w])

text \<open>
  The collaborators that an exit needs answer without an error: the signer owns a position with
  shares, the exit of a \<open>valid\<close> request, as that of the position is, can be built and simulates,
  the suggested prices are positive. The repository is not among them.
\<close>

definition willing :: "'w Service \<Rightarrow> (FullExitRequest \<Rightarrow> bool) \<Rightarrow> bool" where
  "willing svc valid \<longleftrightarrow>
     (let adapter = the (svc_Adapter svc); signer = the (svc_Signer svc);
          submitter = the (svc_Submitter svc) in
      validateExecuteConfig svc = None \<and>
      (\<exists>owner. answers (sg_Address signer) (\<lambda>r. r = Inr owner) \<and>
         answers (ad_Position adapter) (\<lambda>r. \<exists>p s. r = Inr p \<and> ps_Owner p = owner \<and>
           ps_ShareBalance p = Some s \<and> 0 < s \<and> valid (fullExitRequest p))) \<and>
      (\<forall>rq. valid rq \<longrightarrow> answers (ad_BuildFullExit adapter rq) (\<lambda>r. \<exists>c. r = Inr c)) \<and>
      (\<forall>rq. valid rq \<longrightarrow> answers (ad_SimulateFullExit adapter rq)
         (\<lambda>r. \<exists>sim. r = (sim, None) \<and> sim_Success sim)) \<and>
      (\<forall>tx c. answers (sg_SignTransaction signer tx c) (\<lambda>r. \<exists>t. r = Inr t)) \<and>
      (\<forall>a. answers (sb_PendingNonceAt submitter a) (\<lambda>r. \<exists>n. r = Inr n)) \<and>
      answers (sb_SuggestGasPrice submitter) (\<lambda>r. \<exists>v. r = Inr (Some v) \<and> 0 < v) \<and>
      answers (sb_SuggestGasTipCap submitter) (\<lambda>r. \<exists>v. r = Inr (Some v) \<and> 0 < v) \<and>
      (\<forall>tx. answers (sb_SendTransaction submitter tx) (\<lambda>r. r = None)))"

lemma willing_calls:
  assumes "willing svc valid"
  shows "valid rq \<Longrightarrow> \<exists>c w'. ad_BuildFullExit (the (svc_Adapter svc)) rq w = (Inr c, w')"
    "valid rq \<Longrightarrow>
       \<exists>sim w'. ad_SimulateFullExit (the (svc_Adapter svc)) rq w = ((sim, None), w') \<and> sim_Success sim"
    "\<exists>t w'. sg_SignTransaction (the (svc_Signer svc)) tx chainID w = (Inr t, w')"
    "\<exists>n w'. sb_PendingNonceAt (the (svc_Submitter svc)) a w = (Inr n, w')"
    "\<exists>w'. sb_SendTransaction (the (svc_Submitter svc)) tx w = (None, w')"
    "\<exists>p s w1 w2. ad_Position (the (svc_Adapter svc)) w = (Inr p, w1) \<and>
       ps_ShareBalance p = Some s \<and> 0 < s \<and> valid (fullExitRequest p) \<and>
       sg_Address (the (svc_Signer svc)) w1 = (Inr (ps_Owner p), w2)"
  using assms unfolding willing_def Let_def answers_def
  by (metis fst_conv surj_pair)+

lemma initialFeeCaps_answers:
  assumes "caps_consistent policy"
    and "answers (sb_SuggestGasPrice submitter) (\<lambda>r. \<exists>v. r = Inr (Some v) \<and> 0 < v)"
    and "answers (sb_SuggestGasTipCap submitter) (\<lambda>r. \<exists>v. r = Inr (Some v) \<and> 0 < v)"
  shows "answers (initialFeeCaps policy submitter) (\<lambda>r. \<exists>f. r = Inr f)"
  unfolding answers_def
proof
  fix w
  obtain v w1 where p: "sb_SuggestGasPrice submitter w = (Inr (Some v), w1)" "0 < v"
    using assms(2) by (rule answersE) auto
  obtain t w2 where t: "sb_SuggestGasTipCap submitter w1 = (Inr (Some t), w2)" "0 < t"
    using assms(3) by (rule answersE) auto
  let ?t = "capBig t (MaxTipCap policy)"
  have v: "validateCaps policy = None" using assms(1) by (simp add: caps_consistent_def)
  then have "0 < ?t" using t(2) by (auto simp: capBig_def validateCaps_None split: option.splits)
  moreover have "?t \<le> capBig (v + ?t) (MaxFeeCap policy)"
    using caps_consistent_le [OF assms(1), of ?t "v + ?t"] p(2)
    by (simp add: capBig_def split: option.splits if_splits)
  ultimately have "FeeCaps_Validate \<lparr>MaxFeePerGas = Some (capBig (v + ?t) (MaxFeeCap policy)),
      MaxPriorityFeePerGas = Some ?t\<rparr> = None"
    by (simp add: FeeCaps_Validate_def)
  with p t v show "\<exists>f. fst (initialFeeCaps policy submitter w) = Inr f"
    by (simp add: initialFeeCaps_def io_simps Let_def)
qed

lemma nonceAndFeeCaps_answers:
  assumes "willing svc valid" "caps_consistent (svc_GasPolicy svc)" "bump_ok (BumpBPS (svc_GasPolicy svc))"
    and "pending_sound (svc_GasPolicy svc) p"
  shows "answers (nonceAndFeeCaps svc (the (svc_Submitter svc)) p a now) (\<lambda>r. \<exists>n f. r = Inr (n, f))"
  unfolding answers_def
proof
  fix w
  let ?sb = "the (svc_Submitter svc)"
  show "\<exists>n f. fst (nonceAndFeeCaps svc ?sb p a now w) = Inr (n, f)"
  proof (cases p)
    case (Some q)
    with assms(4) obtain r where "BumpChecked (svc_GasPolicy svc) (pw_FeeCaps q) = Inr r"
      using BumpChecked_total [OF assms(2,3)] by (auto simp: pending_sound_def)
    with Some show ?thesis by (auto simp: nonceAndFeeCaps_def ret_eq)
  next
    case None
    obtain n w1 where n: "sb_PendingNonceAt ?sb a w = (Inr n, w1)"
      using willing_calls(4) [OF assms(1)] by blast
    have "answers (initialFeeCaps (svc_GasPolicy svc) ?sb) (\<lambda>r. \<exists>f. r = Inr f)"
      using assms(1,2) by (simp add: willing_def Let_def initialFeeCaps_answers)
    then obtain f w2 where "initialFeeCaps (svc_GasPolicy svc) ?sb w1 = (Inr f, w2)"
      by (rule answersE) auto
    with None n show ?thesis by (simp add: nonceAndFeeCaps_def io_simps)
  qed
qed

text \<open>
  Then an execution ends with something pending, and its only error can be that of the repository.
\<close>

lemma submitFullExit_answers:
  assumes "willing svc valid" "caps_consistent (svc_GasPolicy svc)" "bump_ok (BumpBPS (svc_GasPolicy svc))"
    and "pending_sound (svc_GasPolicy svc) p" "valid rq"
  shows "\<exists>res e q w'. submitFullExit pl svc trigger now a rq sim (p, w) = ((res, e), (Some q, w')) \<and>
    wr_Status res = WithdrawalStatusSubmitted \<and> (e = None \<or> (\<exists>row v. e = fst (the (svc_Repository svc) row v)))"
proof -
  obtain c w1 where c: "ad_BuildFullExit (the (svc_Adapter svc)) rq w = (Inr c, w1)"
    using willing_calls(1) [OF assms(1,5)] by blast
  obtain n f w2 where nf: "nonceAndFeeCaps svc (the (svc_Submitter svc)) p a now w1 = (Inr (n, f), w2)"
    using nonceAndFeeCaps_answers [OF assms(1-4)] by (rule answersE) auto
  let ?tx = "buildDynamicFeeTx c (the (svc_ChainID svc)) n
    (bufferedGas (sim_GasUnits sim) (svc_GasLimitBufferBPS svc)) f"
  obtain t w3 where t: "sg_SignTransaction (the (svc_Signer svc)) ?tx
      (the (svc_ChainID svc)) w2 = (Inr t, w3)"
    using willing_calls(3) [OF assms(1)] by blast
  obtain w4 where s: "sb_SendTransaction (the (svc_Submitter svc)) t w3 = (None, w4)"
    using willing_calls(5) [OF assms(1)] by blast
  let ?res = "zeroResult\<lparr>wr_Status := WithdrawalStatusSubmitted, wr_TxHash := pl_TxHash pl t,
    wr_Nonce := n, wr_GasUnits := tx_Gas ?tx, wr_FeeCaps := f,
    wr_ExpectedAssetUnits := sim_ExpectedAssetUnits sim\<rparr>"
  obtain e w5 where r: "recordAttempt (the (svc_Repository svc)) trigger ?res sim [] now w4 = (e, w5)"
    by (metis surj_pair)
  then have "\<exists>row v. e = fst (the (svc_Repository svc) row v)"
    unfolding recordAttempt_def by (metis fst_conv)
  with c nf t s r show ?thesis
    by (cases e) (auto simp: submitFullExit_def Let_def io_simps getPending_def setPending_def)
qed

lemma ExecuteFullExit_answers:
  assumes "willing svc valid" "caps_consistent (svc_GasPolicy svc)" "bump_ok (BumpBPS (svc_GasPolicy svc))"
    and "pending_sound (svc_GasPolicy svc) p"
  shows "\<exists>res e q w'. ExecuteFullExit pl svc trigger (p, w) = ((res, e), (Some q, w')) \<and>
    wr_Status res = WithdrawalStatusSubmitted \<and> (e = None \<or> (\<exists>row v. e = fst (the (svc_Repository svc) row v)))"
proof -
  obtain now w1 where now: "service_now pl svc w = (now, w1)" by (metis surj_pair)
  obtain pos s w2 w3 where pos: "ad_Position (the (svc_Adapter svc)) w1 = (Inr pos, w2)"
      "ps_ShareBalance pos = Some s" "0 < s" "valid (fullExitRequest pos)"
      "sg_Address (the (svc_Signer svc)) w2 = (Inr (ps_Owner pos), w3)"
    using willing_calls(6) [OF assms(1), of w1] by blast
  obtain sim w4 where sim: "ad_SimulateFullExit (the (svc_Adapter svc)) (fullExitRequest pos) w3 = ((sim, None), w4)"
      "sim_Success sim"
    using willing_calls(2) [OF assms(1) pos(4)] by blast
  have v: "validateExecuteConfig svc = None" using assms(1) by (simp add: willing_def Let_def)
  note sub = submitFullExit_answers [OF assms pos(4), of pl trigger now "ps_Owner pos" sim w4]
  show ?thesis
    using now pos sim v sub
    by (cases p) (auto simp: ExecuteFullExit_def Let_def io_simps no_shares_def getPending_def
        pendingResult_def)
qed

text \<open>When the repository and the adapter accept everything, there is no error either.\<close>

definition obliging :: "'w Service \<Rightarrow> bool" where
  "obliging svc \<longleftrightarrow> willing svc (\<lambda>rq. True) \<and>
     (\<forall>row. answers (the (svc_Repository svc) row) (\<lambda>r. r = None))"

subsection \<open>Properties\<close>


text \<open>C4: Over any sequence of executions of a freshly started service, with the environment
  changing at will between them, the pending transactions form a chain: each has usable fees
  within the ceilings, and a transaction that replaces another keeps its nonce and lowers neither
  fee.\<close>

theorem pending_transactions_form_chain:
  assumes "bump_ok (BumpBPS (svc_GasPolicy svc))"
  shows "replacement_chain (svc_GasPolicy svc) (None # map snd (execute_all pl svc None calls))"
proof -
  obtain outs where outs: "exit_run (svc_GasPolicy svc) (svc_ReplacementTimeout svc) None outs"
    "list_all2 (\<lambda>(out, q) (r, q'). q = q' \<and> reports out q r) outs (execute_all pl svc None calls)"
    using execute_all_run by blast
  from outs(2) have "map snd (execute_all pl svc None calls) = map snd outs"
    by (induction rule: list_all2_induct) auto
  with exit_run_chain [OF outs(1) assms] show ?thesis by (simp add: pending_sound_def)
qed

definition idle_service_of :: "'w Adapter \<Rightarrow> 'w Signer \<Rightarrow> 'w Submitter \<Rightarrow> 'w AttemptRepository
    \<Rightarrow> 'w Service" where
  "idle_service_of adapter signer submitter repository =
     \<lparr>svc_Adapter = Some adapter, svc_Signer = Some signer, svc_ChainID = Some 1, svc_Clock = None,
      svc_Submitter = Some submitter, svc_Repository = Some repository,
      svc_GasPolicy = \<lparr>BumpBPS = 1250, MaxFeeCap = Some 100, MaxTipCap = Some 10\<rparr>,
      svc_GasLimitBufferBPS = 2000, svc_ReplacementTimeout = 300\<rparr>"

definition idle_service :: "unit Service" where
  "idle_service = \<lparr>svc_Adapter = None, svc_Signer = None, svc_ChainID = None, svc_Clock = None,
     svc_Submitter = None, svc_Repository = None,
     svc_GasPolicy = \<lparr>BumpBPS = 1250, MaxFeeCap = Some 100, MaxTipCap = Some 10\<rparr>,
     svc_GasLimitBufferBPS = 2000, svc_ReplacementTimeout = 300\<rparr>"

theorem pending_transactions_form_chain_witness:
  "replacement_chain (svc_GasPolicy idle_service)
     (None # map snd (execute_all \<lparr>pl_SystemClock = ret 0, pl_TxHash = (\<lambda>tx. 0)\<rparr> idle_service None
        [(\<lparr>tr_Kind = ''urgent'', tr_ModuleID = ''m'', tr_FindingKey = ''f''\<rparr>, ())]))"
  by (rule pending_transactions_form_chain) (simp add: idle_service_def bump_ok_def)


definition obliging_service :: "nat Service" where
  "obliging_service = idle_service_of
     \<lparr>ad_Position = ret (Inr \<lparr>ps_Vault = 1, ps_Owner = 2, ps_Receiver = 3, ps_ShareBalance = Some 5,
        ps_AssetSymbol = [], ps_AssetDecimals = 6, ps_ObservedAt = 0\<rparr>),
      ad_BuildFullExit = (\<lambda>rq. ret (Inr \<lparr>tc_To = 1, tc_Data = None, tc_Value = None\<rparr>)),
      ad_SimulateFullExit = (\<lambda>rq. ret (zeroSimulation\<lparr>sim_Success := True\<rparr>, None))\<rparr>
     \<lparr>sg_Address = ret (Inr 2), sg_SignTransaction = (\<lambda>tx c. ret (Inr tx))\<rparr>
     \<lparr>sb_PendingNonceAt = (\<lambda>a n. (Inr (word_of_nat n), n)), sb_SuggestGasPrice = ret (Inr (Some 30)),
      sb_SuggestGasTipCap = ret (Inr (Some 2)), sb_SendTransaction = (\<lambda>tx n. (None, n + 1))\<rparr>
     (\<lambda>a. ret None)"


text \<open>With a fee or tip ceiling that is not positive, no execution ever submits: over any
  sequence of executions of a freshly started service nothing becomes pending and no result has
  the status submitted, whatever the network and the position are.\<close>

theorem nonpositive_ceiling_never_submits:
  assumes "validateCaps (svc_GasPolicy svc) \<noteq> None"
  shows "list_all (\<lambda>(r, q). q = None \<and> wr_Status (fst r) \<noteq> WithdrawalStatusSubmitted)
    (execute_all pl svc None calls)"
proof -
  obtain outs where outs: "exit_run (svc_GasPolicy svc) (svc_ReplacementTimeout svc) None outs"
    "list_all2 (\<lambda>(out, q) (r, q'). q = q' \<and> reports out q r) outs (execute_all pl svc None calls)"
    using execute_all_run by blast
  from exit_run_blocked [OF outs(1) assms] have "\<forall>(out, q) \<in> set outs. q = None \<and> out \<in> {Failed, Noop}"
    by simp
  with outs(2) show ?thesis
    by (induction rule: list_all2_induct) (auto dest: reports_blocked)
qed

theorem nonpositive_ceiling_never_submits_witness:
  "list_all (\<lambda>(r, q). q = None \<and> wr_Status (fst r) \<noteq> WithdrawalStatusSubmitted)
     (execute_all \<lparr>pl_SystemClock = ret 0, pl_TxHash = (\<lambda>tx. 0)\<rparr>
      (obliging_service\<lparr>svc_GasPolicy := \<lparr>BumpBPS = 1250, MaxFeeCap = Some 0, MaxTipCap = Some 0\<rparr>\<rparr>) None
      [(\<lparr>tr_Kind = ''urgent'', tr_ModuleID = ''m'', tr_FindingKey = ''f''\<rparr>, 7)])"
  by (rule nonpositive_ceiling_never_submits) (simp add: validateCaps_def)

end
