(* ===== verification/Withdraw_Env.thy ===== *)
theory Withdraw_Env
  imports Withdraw_Machine
begin

text \<open>
  The contract between the withdrawal service and its collaborators, as two locales.
  \<open>withdraw_env\<close> observes the transactions handed to the network (\<open>sent\<close>): only
  \<open>SendTransaction\<close> adds to them. \<open>withdraw_ledger\<close> also observes the table of attempts.
  The client's theorems, proved once here, say which transactions an execution can send and
  what it records.
\<close>

text \<open>A service whose five collaborators are configured.\<close>

definition wired :: "'w Service \<Rightarrow> 'w Adapter \<Rightarrow> 'w Signer \<Rightarrow> 'w Submitter
    \<Rightarrow> 'w AttemptRepository \<Rightarrow> bool" where
  "wired svc adapter signer submitter repository \<longleftrightarrow>
     svc_Adapter svc = Some adapter \<and> svc_Signer svc = Some signer \<and>
     svc_Submitter svc = Some submitter \<and> svc_Repository svc = Some repository"

lemma wired_the:
  assumes "wired svc adapter signer submitter repository"
  shows "the (svc_Adapter svc) = adapter" "the (svc_Signer svc) = signer"
    "the (svc_Submitter svc) = submitter" "the (svc_Repository svc) = repository"
  using assms by (simp_all add: wired_def)

text \<open>
  The reasons for a transaction: a position with shares, owned by the signer, whose full exit
  was simulated with success in this very execution; the fees come from the policy and the
  transaction is the signed form of what the adapter built.
\<close>

definition returns :: "('w, 'a) io \<Rightarrow> 'w \<Rightarrow> 'a \<Rightarrow> 'w \<Rightarrow> bool" where
  "returns m w r w' \<longleftrightarrow> m w = (r, w')"

definition exit_tx :: "'w Platform \<Rightarrow> 'w Service \<Rightarrow> pendingWithdrawal option \<Rightarrow> 'w
    \<Rightarrow> Transaction \<Rightarrow> bool" where
  "exit_tx pl svc p w tx \<longleftrightarrow>
     (let adapter = the (svc_Adapter svc); signer = the (svc_Signer svc);
          submitter = the (svc_Submitter svc); chainID = the (svc_ChainID svc) in
      \<exists>now w1 position w2 w3 sim w4 cand w5 nonce fees w6 w7.
        returns (service_now pl svc) w now w1 \<and>
        returns (ad_Position adapter) w1 (Inr position) w2 \<and>
        ps_ShareBalance position \<noteq> None \<and> 0 < the (ps_ShareBalance position) \<and>
        returns (sg_Address signer) w2 (Inr (ps_Owner position)) w3 \<and>
        returns (ad_SimulateFullExit adapter (fullExitRequest position)) w3 (sim, None) w4 \<and>
        sim_Success sim \<and>
        returns (ad_BuildFullExit adapter (fullExitRequest position)) w4 (Inr cand) w5 \<and>
        returns (nonceAndFeeCaps svc submitter p (ps_Owner position) now) w5
          (Inr (nonce, fees)) w6 \<and>
        returns (sg_SignTransaction signer
          (buildDynamicFeeTx cand chainID nonce
             (bufferedGas (sim_GasUnits sim) (svc_GasLimitBufferBPS svc)) fees) chainID) w6
          (Inr tx) w7)"

definition transactions_of :: "'w Platform \<Rightarrow> 'w Service \<Rightarrow> pendingWithdrawal option \<Rightarrow> 'w
    \<Rightarrow> Transaction list \<Rightarrow> bool" where
  "transactions_of pl svc p w txs \<longleftrightarrow> txs = [] \<or> (\<exists>tx. txs = [tx] \<and> exit_tx pl svc p w tx)"

text \<open>What an execution may have written, and how that relates to what it returns.\<close>

definition audited :: "'w Platform \<Rightarrow> WithdrawalTrigger \<Rightarrow> Transaction list
    \<Rightarrow> WithdrawalAttempt list \<Rightarrow> WithdrawalResult \<times> gerror option \<Rightarrow> bool" where
  "audited pl trigger txs rows r \<longleftrightarrow>
     (txs = [] \<and> rows = []) \<or>
     (\<exists>tx. txs = [tx] \<and> rows = [] \<and> snd r \<noteq> None) \<or>
     (\<exists>a. rows = [a] \<and> wa_Trigger a = trigger \<and> wa_Status a = wr_Status (fst r) \<and>
        ((txs = [] \<and> wa_Status a \<in> {WithdrawalStatusNoop, WithdrawalStatusSimulationFailed}) \<or>
         (\<exists>tx. txs = [tx] \<and> wa_Status a = WithdrawalStatusSubmitted \<and> snd r = None \<and>
            wa_TxHash a = pl_TxHash pl tx \<and> wr_TxHash (fst r) = pl_TxHash pl tx)))"

locale withdraw_env =
  fixes sent :: "'w \<Rightarrow> Transaction list"
    and clock :: "'w Clock"
    and adapter :: "'w Adapter"
    and signer :: "'w Signer"
    and submitter :: "'w Submitter"
    and repository :: "'w AttemptRepository"
  assumes clock_sent: "clock w = (t, w') \<Longrightarrow> sent w' = sent w"
    and position_sent: "ad_Position adapter w = (r1, w') \<Longrightarrow> sent w' = sent w"
    and build_sent: "ad_BuildFullExit adapter request w = (r2, w') \<Longrightarrow> sent w' = sent w"
    and simulate_sent: "ad_SimulateFullExit adapter request w = (r3, w') \<Longrightarrow> sent w' = sent w"
    and address_sent: "sg_Address signer w = (r4, w') \<Longrightarrow> sent w' = sent w"
    and sign_sent: "sg_SignTransaction signer tx chainID w = (r5, w') \<Longrightarrow> sent w' = sent w"
    and nonce_sent: "sb_PendingNonceAt submitter a w = (r6, w') \<Longrightarrow> sent w' = sent w"
    and price_sent: "sb_SuggestGasPrice submitter w = (r7, w') \<Longrightarrow> sent w' = sent w"
    and tip_sent: "sb_SuggestGasTipCap submitter w = (r8, w') \<Longrightarrow> sent w' = sent w"
    and send_sent: "sb_SendTransaction submitter tx w = (r9, w') \<Longrightarrow> sent w' = sent w @ [tx]"
    and insert_sent: "repository a9 w = (r10, w') \<Longrightarrow> sent w' = sent w"
begin

lemmas sent_laws =
  clock_sent position_sent build_sent simulate_sent address_sent sign_sent nonce_sent
  price_sent tip_sent insert_sent send_sent

text \<open>The laws in the form that keeps the call they apply to.\<close>

lemma laws:
  "clock w = (t, w') \<Longrightarrow> returns clock w t w' \<and> sent w' = sent w"
  "ad_Position adapter w = (r1, w') \<Longrightarrow> returns (ad_Position adapter) w r1 w' \<and> sent w' = sent w"
  "ad_BuildFullExit adapter request w = (r2, w')
    \<Longrightarrow> returns (ad_BuildFullExit adapter request) w r2 w' \<and> sent w' = sent w"
  "ad_SimulateFullExit adapter request w = (r3, w')
    \<Longrightarrow> returns (ad_SimulateFullExit adapter request) w r3 w' \<and> sent w' = sent w"
  "sg_Address signer w = (r4, w') \<Longrightarrow> returns (sg_Address signer) w r4 w' \<and> sent w' = sent w"
  "sg_SignTransaction signer tx chainID w = (r5, w')
    \<Longrightarrow> returns (sg_SignTransaction signer tx chainID) w r5 w' \<and> sent w' = sent w"
  using sent_laws by (simp_all add: returns_def)

lemma initialFeeCaps_sent:
  assumes "initialFeeCaps policy submitter w = (r, w')"
  shows "sent w' = sent w"
  using assms unfolding initialFeeCaps_def Let_def
  by (auto elim!: io_elims split: option.splits if_splits dest!: sent_laws)

lemma nonceAndFeeCaps_sent:
  assumes "nonceAndFeeCaps svc submitter p a now w = (r, w')"
  shows "sent w' = sent w"
  using assms unfolding nonceAndFeeCaps_def
  by (auto elim!: io_elims split: option.splits if_splits sum.splits
      dest!: sent_laws initialFeeCaps_sent)

lemma nonceAndFeeCaps_law:
  assumes "nonceAndFeeCaps svc submitter p a now w = (r, w')"
  shows "returns (nonceAndFeeCaps svc submitter p a now) w r w' \<and> sent w' = sent w"
  using assms nonceAndFeeCaps_sent by (simp add: returns_def)

lemma recordAttempt_sent:
  assumes "recordAttempt repository trigger result sim reason now w = (r, w')"
  shows "sent w' = sent w"
  using assms unfolding recordAttempt_def by (rule insert_sent)

lemma submitFullExit_sent:
  assumes "wired svc adapter signer submitter repository"
    and "submitFullExit pl svc trigger now a request sim (p, w) = (r, (p', w'))"
  obtains (none) "sent w' = sent w"
  | (one) cand w1 nonce fees w2 tx w3 where "sent w' = sent w @ [tx]"
      "returns (ad_BuildFullExit adapter request) w (Inr cand) w1"
      "returns (nonceAndFeeCaps svc submitter p a now) w1 (Inr (nonce, fees)) w2"
      "returns (sg_SignTransaction signer
         (buildDynamicFeeTx cand (the (svc_ChainID svc)) nonce
            (bufferedGas (sim_GasUnits sim) (svc_GasLimitBufferBPS svc)) fees)
         (the (svc_ChainID svc))) w2 (Inr tx) w3"
  using assms(2)
  unfolding submitFullExit_def Let_def failWith_def wired_the [OF assms(1)]
  by (auto elim!: io_elims simp: getPending_def setPending_def split: prod.splits
      dest!: laws nonceAndFeeCaps_law recordAttempt_sent send_sent)

lemma ExecuteFullExit_sent:
  assumes wired: "wired svc adapter signer submitter repository"
    and clock: "service_now pl svc = clock"
    and run: "ExecuteFullExit pl svc trigger (p, w) = (r, (p', w'))"
  shows "\<exists>txs. sent w' = sent w @ txs \<and> transactions_of pl svc p w txs"
proof -
  consider (none) "sent w' = sent w"
  | (submit) now w1 position w2 w3 sim w4 where
      "submitFullExit pl svc trigger now (ps_Owner position) (fullExitRequest position) sim (p, w4)
        = (r, (p', w'))"
      "returns (ad_SimulateFullExit adapter (fullExitRequest position)) w3 (sim, None) w4"
      "returns (sg_Address signer) w2 (Inr (ps_Owner position)) w3"
      "returns (ad_Position adapter) w1 (Inr position) w2"
      "returns clock w now w1"
      "ps_ShareBalance position \<noteq> None" "0 < the (ps_ShareBalance position)"
      "sim_Success sim" "sent w4 = sent w"
    using run unfolding ExecuteFullExit_def Let_def failWith_def wired_the [OF wired] clock
    by (auto elim!: io_elims simp: getPending_def setPending_def no_shares_def
        split: option.splits prod.splits if_splits dest!: laws recordAttempt_sent)
  then show ?thesis
  proof cases
    case none
    then show ?thesis by (auto simp: transactions_of_def)
  next
    case submit
    show ?thesis
      using wired submit(1)
    proof (cases rule: submitFullExit_sent)
      case none
      with submit show ?thesis by (auto simp: transactions_of_def)
    next
      case (one cand w1' nonce fees w2' tx w3')
      have "exit_tx pl svc p w tx"
        unfolding exit_tx_def Let_def wired_the [OF wired] clock
        by (intro exI conjI) (fact submit one)+
      with one submit show ?thesis by (auto simp: transactions_of_def)
    qed
  qed
qed

text \<open>What becomes pending was sent.\<close>

lemma submitFullExit_pending:
  assumes "wired svc adapter signer submitter repository"
    and "submitFullExit pl svc trigger now a request sim (p, w) = (r, (p', w'))"
  shows "p' = p \<or> (\<exists>tx. sent w' = sent w @ [tx])"
  using assms(2)
  unfolding submitFullExit_def Let_def failWith_def wired_the [OF assms(1)]
  by (auto elim!: io_elims simp: getPending_def setPending_def split: prod.splits
      dest!: laws nonceAndFeeCaps_law recordAttempt_sent send_sent)

lemma ExecuteFullExit_pending:
  assumes wired: "wired svc adapter signer submitter repository"
    and clock: "service_now pl svc = clock"
    and run: "ExecuteFullExit pl svc trigger (p, w) = (r, (p', w'))"
  shows "p' = p \<or> p' = None \<or> (\<exists>tx. sent w' = sent w @ [tx])"
proof -
  consider "p' = p" | "p' = None"
  | (submit) now b request sim w4 where
      "submitFullExit pl svc trigger now b request sim (p, w4) = (r, (p', w'))" "sent w4 = sent w"
    using run unfolding ExecuteFullExit_def Let_def failWith_def wired_the [OF wired] clock
    by (auto elim!: io_elims simp: getPending_def setPending_def
        split: option.splits prod.splits if_splits dest!: laws recordAttempt_sent)
  then show ?thesis
  proof cases
    case submit
    then show ?thesis using submitFullExit_pending [OF wired submit(1)] by auto
  qed simp_all
qed

end


text \<open>
  The ledger of attempts, each stored as a \<open>row\<close>. A repository that reports no error has appended the attempt, and
  nothing else writes to it.
\<close>

locale withdraw_ledger = withdraw_env +
  fixes attempts :: "'a \<Rightarrow> 'r list"
    and row :: "WithdrawalAttempt \<Rightarrow> 'r"
  assumes clock_rows: "clock w = (t, w') \<Longrightarrow> attempts w' = attempts w"
    and position_rows: "ad_Position adapter w = (r1, w') \<Longrightarrow> attempts w' = attempts w"
    and build_rows: "ad_BuildFullExit adapter request w = (r2, w') \<Longrightarrow> attempts w' = attempts w"
    and simulate_rows:
      "ad_SimulateFullExit adapter request w = (r3, w') \<Longrightarrow> attempts w' = attempts w"
    and address_rows: "sg_Address signer w = (r4, w') \<Longrightarrow> attempts w' = attempts w"
    and sign_rows:
      "sg_SignTransaction signer tx chainID w = (r5, w') \<Longrightarrow> attempts w' = attempts w"
    and nonce_rows: "sb_PendingNonceAt submitter a w = (r6, w') \<Longrightarrow> attempts w' = attempts w"
    and price_rows: "sb_SuggestGasPrice submitter w = (r7, w') \<Longrightarrow> attempts w' = attempts w"
    and tip_rows: "sb_SuggestGasTipCap submitter w = (r8, w') \<Longrightarrow> attempts w' = attempts w"
    and send_rows: "sb_SendTransaction submitter tx w = (r9, w') \<Longrightarrow> attempts w' = attempts w"
    and insert_row: "repository a9 w = (None, w') \<Longrightarrow> attempts w' = attempts w @ [row a9]"
    and insert_none: "repository a9 w = (Some e, w') \<Longrightarrow> attempts w' = attempts w"
begin

lemmas rows_laws = clock_rows position_rows build_rows simulate_rows address_rows sign_rows
  nonce_rows price_rows tip_rows insert_row insert_none

lemma initialFeeCaps_rows:
  assumes "initialFeeCaps policy submitter w = (r, w')"
  shows "attempts w' = attempts w"
  using assms unfolding initialFeeCaps_def Let_def
  by (auto elim!: io_elims split: option.splits if_splits dest!: rows_laws)

lemma nonceAndFeeCaps_rows:
  assumes "nonceAndFeeCaps svc submitter p a now w = (r, w')"
  shows "attempts w' = attempts w"
  using assms unfolding nonceAndFeeCaps_def
  by (auto elim!: io_elims split: option.splits if_splits sum.splits
      dest!: rows_laws initialFeeCaps_rows)

lemma send_both:
  "sb_SendTransaction submitter tx w = (r9, w')
    \<Longrightarrow> sent w' = sent w @ [tx] \<and> attempts w' = attempts w"
  by (auto dest: send_rows send_sent)

lemma nonceAndFeeCaps_both:
  "nonceAndFeeCaps svc submitter p a now w = (r, w')
    \<Longrightarrow> sent w' = sent w \<and> attempts w' = attempts w"
  by (auto dest: nonceAndFeeCaps_rows nonceAndFeeCaps_sent)

lemma quiet_both:
  "clock w = (t, w') \<Longrightarrow> sent w' = sent w \<and> attempts w' = attempts w"
  "ad_Position adapter w = (r1, w') \<Longrightarrow> sent w' = sent w \<and> attempts w' = attempts w"
  "ad_BuildFullExit adapter request w = (r2, w')
    \<Longrightarrow> sent w' = sent w \<and> attempts w' = attempts w"
  "ad_SimulateFullExit adapter request w = (r3, w')
    \<Longrightarrow> sent w' = sent w \<and> attempts w' = attempts w"
  "sg_Address signer w = (r4, w') \<Longrightarrow> sent w' = sent w \<and> attempts w' = attempts w"
  "sg_SignTransaction signer tx chainID w = (r5, w')
    \<Longrightarrow> sent w' = sent w \<and> attempts w' = attempts w"
  using sent_laws rows_laws by metis+

lemma recordAttempt_row:
  "recordAttempt repository trigger result sim reason now w = (r, w') \<Longrightarrow> sent w' = sent w \<and>
     (case r of
        None \<Rightarrow> \<exists>a. attempts w' = attempts w @ [row a] \<and> wa_Status a = wr_Status result \<and>
          wa_TxHash a = wr_TxHash result \<and> wa_Nonce a = wr_Nonce result \<and>
          wa_FeeCaps a = wr_FeeCaps result \<and> wa_Trigger a = trigger
      | Some e \<Rightarrow> attempts w' = attempts w)"
  by (auto simp: recordAttempt_def split: option.splits dest: insert_row insert_none insert_sent)

lemma single_rowI: "Q [a] \<Longrightarrow> \<exists>as. [f a] = map f as \<and> Q as"
  by (intro exI [of _ "[a]"]) simp

lemma submitFullExit_audit:
  assumes "wired svc adapter signer submitter repository"
    and "submitFullExit pl svc trigger now a request sim (p, w) = (r, (p', w'))"
  shows "\<exists>txs rows. sent w' = sent w @ txs \<and> attempts w' = attempts w @ map row rows \<and>
    audited pl trigger txs rows r"
  using assms(2)
  unfolding submitFullExit_def Let_def failWith_def wired_the [OF assms(1)]
  by (auto elim!: io_elims simp: getPending_def setPending_def audited_def split: prod.splits
      intro!: single_rowI dest!: quiet_both nonceAndFeeCaps_both recordAttempt_row send_both)

lemma ExecuteFullExit_audit:
  assumes wired: "wired svc adapter signer submitter repository"
    and clock: "service_now pl svc = clock"
    and run: "ExecuteFullExit pl svc trigger (p, w) = (r, (p', w'))"
  shows "\<exists>txs rows. sent w' = sent w @ txs \<and> attempts w' = attempts w @ map row rows \<and>
    audited pl trigger txs rows r"
proof -
  consider (none) "sent w' = sent w" "attempts w' = attempts w"
  | (row) a where "attempts w' = attempts w @ [row a]" "sent w' = sent w" "wa_Trigger a = trigger"
      "wa_Status a = wr_Status (fst r)"
      "wa_Status a = WithdrawalStatusNoop \<or> wa_Status a = WithdrawalStatusSimulationFailed"
  | (submit) now b request sim w4 where
      "submitFullExit pl svc trigger now b request sim (p, w4) = (r, (p', w'))"
      "sent w4 = sent w" "attempts w4 = attempts w"
    using run unfolding ExecuteFullExit_def Let_def failWith_def wired_the [OF wired] clock
    by (auto elim!: io_elims simp: getPending_def setPending_def
        split: option.splits prod.splits if_splits dest!: quiet_both recordAttempt_row)
  then show ?thesis
  proof cases
    case submit
    with submitFullExit_audit [OF wired submit(1)] show ?thesis by simp
  qed (auto simp: audited_def intro!: single_rowI)
qed

end

end
