(* ===== verification/Morpho_Client.thy ===== *)
theory Morpho_Client
  imports Ethereum_Client Withdraw_Env
begin

text \<open>
  \<open>internal/morpho/abi.go\<close>, \<open>internal/morpho/vault_client.go\<close> and
  \<open>internal/withdraw/morpho_adapter.go\<close>: reading the vault through the ABI codec, and the
  adapter that turns a position into a redeem call. The codec itself (go-ethereum's
  \<open>accounts/abi\<close>) is a parameter, \<open>Abi\<close>; the values it takes and returns as \<open>any\<close> are
  \<open>abi_value\<close>.
\<close>

subsection \<open>The codec\<close>

datatype abi_value =
    ABig int | AAddress address | ABytes bytes | ABool bool | AUint64 uint64 | AUint8 uint8
  | AFixedBytes bytes

record Abi =
  abi_Pack :: "string \<Rightarrow> abi_value list \<Rightarrow> string + bytes"
  abi_Unpack :: "string \<Rightarrow> bytes \<Rightarrow> string + abi_value list"

definition vaultMethodBalanceOf :: string where [name_defs]: "vaultMethodBalanceOf = ''balanceOf''"
definition vaultMethodPreviewRedeem :: string where
  [name_defs]: "vaultMethodPreviewRedeem = ''previewRedeem''"
definition vaultMethodRedeem :: string where [name_defs]: "vaultMethodRedeem = ''redeem''"

definition PackRedeem :: "Abi \<Rightarrow> int \<Rightarrow> address \<Rightarrow> address \<Rightarrow> gerror + bytes" where
  "PackRedeem VaultABI shares receiver owner =
     library (abi_Pack VaultABI vaultMethodRedeem [ABig shares, AAddress receiver, AAddress owner])"

subsection \<open>The documents\<close>

text \<open>
  The two JSON documents of \<open>abi.go\<close> as tables: a method's name, the types it takes and the types
  it returns. \<open>go_typed\<close> says which Go values the codec uses for a type: \<open>uint8\<close> and \<open>uint64\<close> are
  machine words and the wider unsigned integers \<open>*big.Int\<close>. A codec \<open>follows\<close> a document when
  it packs arguments of the types a method takes and unpacks only values of those it returns.
\<close>

datatype abi_type = TAddress | TUint nat | TBool | TBytes | TFixedBytes nat

type_synonym AbiMethods = "(string \<times> abi_type list \<times> abi_type list) list"

definition vaultABIJSON :: AbiMethods where
  "vaultABIJSON =
     [(''asset'', [], [TAddress]), (''balanceOf'', [TAddress], [TUint 256]),
      (''previewRedeem'', [TUint 256], [TUint 256]),
      (''redeem'', [TUint 256, TAddress, TAddress], [TUint 256]),
      (''totalAssets'', [], [TUint 256]), (''totalSupply'', [], [TUint 256]),
      (''owner'', [], [TAddress]), (''curator'', [], [TAddress]),
      (''receiveSharesGate'', [], [TAddress]), (''sendSharesGate'', [], [TAddress]),
      (''receiveAssetsGate'', [], [TAddress]), (''sendAssetsGate'', [], [TAddress]),
      (''adapterRegistry'', [], [TAddress]), (''liquidityAdapter'', [], [TAddress]),
      (''liquidityData'', [], [TBytes]), (''performanceFee'', [], [TUint 96]),
      (''performanceFeeRecipient'', [], [TAddress]), (''managementFee'', [], [TUint 96]),
      (''managementFeeRecipient'', [], [TAddress]), (''maxRate'', [], [TUint 64]),
      (''adaptersLength'', [], [TUint 256]), (''adapters'', [TUint 256], [TAddress]),
      (''isAllocator'', [TAddress], [TBool]), (''isSentinel'', [TAddress], [TBool]),
      (''timelock'', [TFixedBytes 4], [TUint 256]), (''abdicated'', [TFixedBytes 4], [TBool]),
      (''forceDeallocatePenalty'', [TAddress], [TUint 256])]"

definition erc20ABIJSON :: AbiMethods where
  "erc20ABIJSON =
     [(''balanceOf'', [TAddress], [TUint 256]), (''decimals'', [], [TUint 8])]"

fun go_typed :: "abi_type \<Rightarrow> abi_value \<Rightarrow> bool" where
  "go_typed TAddress v = (case v of AAddress a \<Rightarrow> True | _ \<Rightarrow> False)"
| "go_typed (TUint bits) v =
     (if bits = 8 then (case v of AUint8 n \<Rightarrow> True | _ \<Rightarrow> False)
      else if bits = 64 then (case v of AUint64 n \<Rightarrow> True | _ \<Rightarrow> False)
      else (case v of ABig n \<Rightarrow> 0 \<le> n \<and> n < 2 ^ bits | _ \<Rightarrow> False))"
| "go_typed TBool v = (case v of ABool t \<Rightarrow> True | _ \<Rightarrow> False)"
| "go_typed TBytes v = (case v of ABytes b \<Rightarrow> True | _ \<Rightarrow> False)"
| "go_typed (TFixedBytes n) v = (case v of AFixedBytes b \<Rightarrow> length b = n | _ \<Rightarrow> False)"

definition follows :: "AbiMethods \<Rightarrow> Abi \<Rightarrow> bool" where
  "follows methods codec \<longleftrightarrow>
     (\<forall>(name, inputs, outputs) \<in> set methods.
        (\<forall>args. list_all2 go_typed inputs args \<longrightarrow> (\<exists>data. abi_Pack codec name args = Inr data)) \<and>
        (\<forall>raw out. abi_Unpack codec name raw = Inr out \<longrightarrow> list_all2 go_typed outputs out))"

subsection \<open>The vault client\<close>

record 'w VaultClient =
  vc_Ethereum :: "'w MultiClient"
  vc_Vault :: address

definition zeroCallMsg :: CallMsg where
  "zeroCallMsg = \<lparr>cm_From = 0, cm_To = None, cm_Value = None, cm_Data = None\<rparr>"

definition vault_call :: "Abi \<Rightarrow> 'w VaultClient \<Rightarrow> string \<Rightarrow> abi_value list
    \<Rightarrow> ('w, gerror + abi_value list) io" where
  "vault_call VaultABI client method args =
     (case library (abi_Pack VaultABI method args) of
        Inl err \<Rightarrow> ret (Inl (Wrap (''pack '' @ method @ '' call: '') err []))
      | Inr data \<Rightarrow>
          tryE (CallContract (vc_Ethereum client)
                  (zeroCallMsg\<lparr>cm_To := Some (vc_Vault client), cm_Data := Some data\<rparr>) None)
            (\<lambda>err. ret (Inl (Wrap (''call '' @ method @ '': '') err []))) (\<lambda>raw.
            case library (abi_Unpack VaultABI method raw) of
              Inl err \<Rightarrow> ret (Inl (Wrap (''unpack '' @ method @ '': '') err []))
            | Inr out \<Rightarrow> ret (Inr out)))"

definition uint256Output :: "string \<Rightarrow> abi_value list \<Rightarrow> gerror + int" where
  "uint256Output method out =
     (case out of
        [v] \<Rightarrow> (case v of
            ABig value \<Rightarrow> Inr value
          | _ \<Rightarrow> Inl (New (''unpack '' @ method @ '' output: expected uint256'')))
      | _ \<Rightarrow> Inl (New (''unpack '' @ method @ '' output: expected 1 value, got ''
                 @ dec_nat (length out))))"

definition BalanceOf :: "Abi \<Rightarrow> 'w VaultClient \<Rightarrow> address \<Rightarrow> ('w, gerror + int) io" where
  "BalanceOf VaultABI client owner =
     bindE (vault_call VaultABI client vaultMethodBalanceOf [AAddress owner])
       (\<lambda>out. ret (uint256Output vaultMethodBalanceOf out))"

definition PreviewRedeem :: "Abi \<Rightarrow> 'w VaultClient \<Rightarrow> int \<Rightarrow> ('w, gerror + int) io" where
  "PreviewRedeem VaultABI client shares =
     bindE (vault_call VaultABI client vaultMethodPreviewRedeem [ABig shares])
       (\<lambda>out. ret (uint256Output vaultMethodPreviewRedeem out))"

subsection \<open>The withdrawal adapter\<close>

record 'w MorphoAdapter =
  ma_Ethereum :: "'w MultiClient"
  ma_VaultClient :: "'w VaultClient"
  ma_Vault :: address
  ma_Owner :: address
  ma_Receiver :: address
  ma_AssetSymbol :: string
  ma_AssetDecimals :: uint8
  ma_Clock :: "'w Clock option"

definition simulationFailedReason :: string where
  "simulationFailedReason = ''simulation failed''"

definition validateVaultClient :: "'w MorphoAdapter \<Rightarrow> gerror option" where
  "validateVaultClient adapter =
     (if ma_Vault adapter = 0 then Some (Var ErrZeroVault)
      else if vc_Vault (ma_VaultClient adapter) \<noteq> ma_Vault adapter
      then Some (Var ErrVaultClientMismatch)
      else None)"

definition validateFullExitRequest :: "'w MorphoAdapter \<Rightarrow> FullExitRequest \<Rightarrow> gerror option" where
  "validateFullExitRequest adapter req =
     (case validateVaultClient adapter of
        Some err \<Rightarrow> Some err
      | None \<Rightarrow>
          if rq_Vault req = 0 then Some (Var ErrZeroVault)
          else if rq_Vault req \<noteq> ma_Vault adapter
          then Some (Wrap ''request vault mismatch: '' (Var ErrVaultClientMismatch) [])
          else if rq_Owner req = 0 then Some (Var ErrZeroOwner)
          else if rq_Receiver req = 0 then Some (Var ErrZeroReceiver)
          else (case rq_Shares req of
                  None \<Rightarrow> Some (Var ErrInvalidShares)
                | Some shares \<Rightarrow> if shares \<le> 0 then Some (Var ErrInvalidShares) else None))"

definition Position :: "'w Platform \<Rightarrow> Abi \<Rightarrow> 'w MorphoAdapter \<Rightarrow> ('w, gerror + PositionSnapshot) io"
  where
  "Position pl VaultABI adapter =
     (case validateVaultClient adapter of
        Some err \<Rightarrow> ret (Inl err)
      | None \<Rightarrow>
          bindE (BalanceOf VaultABI (ma_VaultClient adapter) (ma_Owner adapter)) (\<lambda>shares.
          bindIO (clock_now (pl_SystemClock pl) (ma_Clock adapter)) (\<lambda>now.
            ret (Inr \<lparr>ps_Vault = ma_Vault adapter, ps_Owner = ma_Owner adapter,
              ps_Receiver = ma_Receiver adapter, ps_ShareBalance = Some shares,
              ps_AssetSymbol = ma_AssetSymbol adapter,
              ps_AssetDecimals = ma_AssetDecimals adapter, ps_ObservedAt = now\<rparr>))))"

definition BuildFullExit :: "Abi \<Rightarrow> 'w MorphoAdapter \<Rightarrow> FullExitRequest
    \<Rightarrow> ('w, gerror + TxCandidate) io" where
  "BuildFullExit VaultABI adapter req =
     (case validateFullExitRequest adapter req of
        Some err \<Rightarrow> ret (Inl err)
      | None \<Rightarrow>
          (case PackRedeem VaultABI (the (rq_Shares req)) (rq_Receiver req) (rq_Owner req) of
             Inl err \<Rightarrow> ret (Inl err)
           | Inr data \<Rightarrow>
               ret (Inr \<lparr>tc_To = rq_Vault req, tc_Data = Some data, tc_Value = Some 0\<rparr>)))"

definition SimulateFullExit :: "Abi \<Rightarrow> 'w MorphoAdapter \<Rightarrow> FullExitRequest
    \<Rightarrow> ('w, FullExitSimulation \<times> gerror option) io" where
  "SimulateFullExit VaultABI adapter req =
     (let failed = (\<lambda>err. ret (zeroSimulation, Some err)) in
      case validateFullExitRequest adapter req of
        Some err \<Rightarrow> failed err
      | None \<Rightarrow>
          tryE (PreviewRedeem VaultABI (ma_VaultClient adapter) (the (rq_Shares req))) failed
            (\<lambda>expected.
          tryE (BuildFullExit VaultABI adapter req) failed (\<lambda>candidate.
          tryE (EstimateGas (ma_Ethereum adapter)
                 \<lparr>cm_From = rq_Owner req, cm_To = Some (tc_To candidate),
                  cm_Value = tc_Value candidate, cm_Data = tc_Data candidate\<rparr>)
            (\<lambda>err. ret (zeroSimulation\<lparr>sim_Success := False, sim_ExpectedAssetUnits := Some expected,
                sim_RevertReason := simulationFailedReason\<rparr>, None))
            (\<lambda>gas. ret (zeroSimulation\<lparr>sim_Success := True, sim_ExpectedAssetUnits := Some expected,
                sim_GasUnits := gas\<rparr>, None)))))"

definition morpho_adapter :: "'w Platform \<Rightarrow> Abi \<Rightarrow> 'w MorphoAdapter \<Rightarrow> 'w Adapter" where
  "morpho_adapter pl VaultABI adapter =
     \<lparr>ad_Position = Position pl VaultABI adapter,
      ad_BuildFullExit = BuildFullExit VaultABI adapter,
      ad_SimulateFullExit = SimulateFullExit VaultABI adapter\<rparr>"

definition multi_submitter :: "'w MultiClient \<Rightarrow> 'w Submitter" where
  "multi_submitter client =
     \<lparr>sb_PendingNonceAt = PendingNonceAt client, sb_SuggestGasPrice = SuggestGasPrice client,
      sb_SuggestGasTipCap = SuggestGasTipCap client,
      sb_SendTransaction = (\<lambda>tx. SendTransaction client (Some tx))\<rparr>"

end
