(* ===== verification/Morpho_Factory.thy ===== *)
theory Morpho_Factory
  imports Config Vault_Baseline Withdraw_Liquidity Morpho_Client Monitor_Service
begin

text \<open>
  \<open>internal/morpho/factory.go\<close>: the modules are built from their configuration blocks over a
  reader of the vault (\<open>vaultReader\<close>). go-ethereum's texts of addresses and bytes are the
  record \<open>AddressLib\<close>; the codecs of the vault's and the token's ABI are parameters.

  Reading the adapters allocates a slice whose capacity the vault chooses: that can be a
  run-time panic, which is \<open>None\<close>.
\<close>

record AddressLib =
  al_IsHexAddress :: "string \<Rightarrow> bool"
  al_HexToAddress :: "string \<Rightarrow> address"
  al_Hex :: "address \<Rightarrow> string"
  al_HexEncode :: "bytes \<Rightarrow> string"

record 'w VaultReader =
  vr_Ethereum :: "'w MultiClient"
  vr_Vault :: address
  vr_AssetDecimals :: uint8
  vr_VaultABI :: Abi
  vr_ERC20ABI :: Abi
  vr_Lib :: AddressLib

subsection \<open>Single reads\<close>

definition invalid_output :: "string \<Rightarrow> string \<Rightarrow> gerror" where
  "invalid_output method what = New (''call '' @ method @ '': expected '' @ what)"

definition vaultCall :: "'w VaultReader \<Rightarrow> string \<Rightarrow> abi_value list
    \<Rightarrow> ('w, gerror + abi_value list) io" where
  "vaultCall reader method args =
     (case library (abi_Pack (vr_VaultABI reader) method args) of
        Inl err \<Rightarrow> ret (Inl err)
      | Inr data \<Rightarrow>
          bindE (CallContract (vr_Ethereum reader)
                  (zeroCallMsg\<lparr>cm_To := Some (vr_Vault reader), cm_Data := Some data\<rparr>) None)
            (\<lambda>raw. ret (library (abi_Unpack (vr_VaultABI reader) method raw))))"

definition parseUint256Output :: "string \<Rightarrow> abi_value list \<Rightarrow> gerror + int" where
  "parseUint256Output method out =
     (case out of
        [v] \<Rightarrow> (case v of ABig value \<Rightarrow> Inr value | _ \<Rightarrow> Inl (invalid_output method ''uint256''))
      | _ \<Rightarrow> Inl (invalid_output method ''one uint256''))"

definition vaultUint256 :: "'w VaultReader \<Rightarrow> string \<Rightarrow> abi_value list \<Rightarrow> ('w, gerror + int) io" where
  "vaultUint256 reader method args =
     bindE (vaultCall reader method args) (\<lambda>out. ret (parseUint256Output method out))"

definition vaultAddress :: "'w VaultReader \<Rightarrow> string \<Rightarrow> abi_value list \<Rightarrow> ('w, gerror + address) io"
  where
  "vaultAddress reader method args =
     bindE (vaultCall reader method args) (\<lambda>out. ret (
       case out of
         [v] \<Rightarrow> (case v of AAddress a \<Rightarrow> Inr a | _ \<Rightarrow> Inl (invalid_output method ''address''))
       | _ \<Rightarrow> Inl (invalid_output method ''one address'')))"

definition vaultBytes :: "'w VaultReader \<Rightarrow> string \<Rightarrow> abi_value list \<Rightarrow> ('w, gerror + bytes) io" where
  "vaultBytes reader method args =
     bindE (vaultCall reader method args) (\<lambda>out. ret (
       case out of
         [v] \<Rightarrow> (case v of ABytes b \<Rightarrow> Inr b | _ \<Rightarrow> Inl (invalid_output method ''bytes''))
       | _ \<Rightarrow> Inl (invalid_output method ''one bytes value'')))"

definition vaultAddressString :: "'w VaultReader \<Rightarrow> string \<Rightarrow> ('w, gerror + string) io" where
  "vaultAddressString reader method =
     bindE (vaultAddress reader method []) (\<lambda>a. ret (Inr (al_Hex (vr_Lib reader) a)))"

text \<open>\<open>fmt.Sprint\<close> of a decoded value: an address has a \<open>String\<close> method, a byte slice is
  written as its numbers.\<close>

definition Sprint_bytes :: "bytes \<Rightarrow> string" where
  "Sprint_bytes b = ''['' @ strings_Join (map (\<lambda>x. dec_nat (unat x)) b) '' '' @ '']''"

definition Sprint_abi :: "AddressLib \<Rightarrow> abi_value \<Rightarrow> string" where
  "Sprint_abi lib v =
     (case v of
        ABig n \<Rightarrow> dec_int n
      | AAddress a \<Rightarrow> al_Hex lib a
      | ABytes b \<Rightarrow> Sprint_bytes b
      | AFixedBytes b \<Rightarrow> Sprint_bytes b
      | ABool t \<Rightarrow> (if t then ''true'' else ''false'')
      | AUint64 n \<Rightarrow> dec_nat (unat n)
      | AUint8 n \<Rightarrow> dec_nat (unat n))"

definition vaultValueString :: "'w VaultReader \<Rightarrow> string \<Rightarrow> ('w, gerror + string) io" where
  "vaultValueString reader method =
     bindE (vaultCall reader method []) (\<lambda>out. ret (
       case out of
         [v] \<Rightarrow> Inr (Sprint_abi (vr_Lib reader) v)
       | _ \<Rightarrow> Inl (invalid_output method ''one value'')))"

subsection \<open>The readers of the modules\<close>

definition CurrentSharePrice :: "'w VaultReader \<Rightarrow> ('w, gerror + bigint) io" where
  "CurrentSharePrice reader =
     bindE (vaultUint256 reader ''totalAssets'' []) (\<lambda>totalAssets.
     bindE (vaultUint256 reader ''totalSupply'' []) (\<lambda>totalSupply.
     if totalSupply \<le> 0
     then ret (Inl (invalid_output ''totalSupply'' ''positive total supply''))
     else ret (Inr (Some ((totalAssets * 10 ^ unat (vr_AssetDecimals reader)) div totalSupply)))))"

definition IdleAssets :: "'w VaultReader \<Rightarrow> address \<Rightarrow> ('w, gerror + bigint) io" where
  "IdleAssets reader vault =
     bindE (vaultAddress reader ''asset'' []) (\<lambda>asset.
     case library (abi_Pack (vr_ERC20ABI reader) ''balanceOf'' [AAddress vault]) of
       Inl err \<Rightarrow> ret (Inl err)
     | Inr data \<Rightarrow>
         bindE (CallContract (vr_Ethereum reader)
                 (zeroCallMsg\<lparr>cm_To := Some asset, cm_Data := Some data\<rparr>) None) (\<lambda>raw.
         case library (abi_Unpack (vr_ERC20ABI reader) ''balanceOf'' raw) of
           Inl err \<Rightarrow> ret (Inl err)
         | Inr out \<Rightarrow> ret (map_sum id Some (parseUint256Output ''balanceOf'' out))))"

text \<open>
  \<open>make([]string, 0, n)\<close> panics when the capacity is negative or its 16-byte elements would
  not fit the address space of the runtime (\<open>2 ^ 48\<close> bytes). \<open>length.Int64()\<close> keeps the low
  64 bits.
\<close>

definition makeslice_ok :: "int \<Rightarrow> bool" where
  "makeslice_ok n \<longleftrightarrow> 0 \<le> n \<and> n * 16 \<le> 2 ^ 48"

fun adaptersLoop :: "'w VaultReader \<Rightarrow> int \<Rightarrow> nat \<Rightarrow> string list \<Rightarrow> ('w, gerror + string list) io" where
  "adaptersLoop reader index 0 adapters = ret (Inr adapters)"
| "adaptersLoop reader index (Suc remaining) adapters =
     bindE (vaultAddress reader ''adapters'' [ABig index]) (\<lambda>a.
       adaptersLoop reader (index + 1) remaining (adapters @ [al_Hex (vr_Lib reader) a]))"

definition orPanic :: "('w, gerror + 'a) io \<Rightarrow> ('a \<Rightarrow> ('w, (gerror + 'b) option) io)
    \<Rightarrow> ('w, (gerror + 'b) option) io" where
  "orPanic m k = tryE m (\<lambda>err. ret (Some (Inl err))) k"

definition vaultAdapters :: "'w VaultReader \<Rightarrow> ('w, (gerror + string list) option) io" where
  "vaultAdapters reader =
     orPanic (vaultUint256 reader ''adaptersLength'' []) (\<lambda>adaptersLength.
       let n = sint (word_of_int adaptersLength :: int64) in
       if \<not> makeslice_ok n then ret None
       else bindIO (adaptersLoop reader 0 (nat n) []) (\<lambda>r. ret (Some r)))"

definition CurrentVaultState :: "'w VaultReader \<Rightarrow> ('w, (gerror + VaultStateSnapshot) option) io" where
  "CurrentVaultState reader =
     orPanic (vaultAddressString reader ''owner'') (\<lambda>owner.
     orPanic (vaultAddressString reader ''curator'') (\<lambda>curator.
     orPanic (vaultAddressString reader ''receiveSharesGate'') (\<lambda>receiveSharesGate.
     orPanic (vaultAddressString reader ''sendSharesGate'') (\<lambda>sendSharesGate.
     orPanic (vaultAddressString reader ''receiveAssetsGate'') (\<lambda>receiveAssetsGate.
     orPanic (vaultAddressString reader ''sendAssetsGate'') (\<lambda>sendAssetsGate.
     orPanic (vaultAddressString reader ''adapterRegistry'') (\<lambda>adapterRegistry.
     orPanic (vaultAddressString reader ''liquidityAdapter'') (\<lambda>liquidityAdapter.
     orPanic (vaultBytes reader ''liquidityData'' []) (\<lambda>liquidityData.
     orPanic (vaultValueString reader ''performanceFee'') (\<lambda>performanceFee.
     orPanic (vaultAddressString reader ''performanceFeeRecipient'') (\<lambda>performanceFeeRecipient.
     orPanic (vaultValueString reader ''managementFee'') (\<lambda>managementFee.
     orPanic (vaultAddressString reader ''managementFeeRecipient'') (\<lambda>managementFeeRecipient.
     orPanic (vaultValueString reader ''maxRate'') (\<lambda>maxRate.
     bindIO (vaultAdapters reader) (\<lambda>read.
     ret (map_option (map_sum id (\<lambda>adapters.
       \<lparr>vs_Owner = owner, vs_Curator = curator, vs_ReceiveSharesGate = receiveSharesGate,
        vs_SendSharesGate = sendSharesGate, vs_ReceiveAssetsGate = receiveAssetsGate,
        vs_SendAssetsGate = sendAssetsGate, vs_AdapterRegistry = adapterRegistry,
        vs_LiquidityAdapter = liquidityAdapter,
        vs_LiquidityDataHex = al_HexEncode (vr_Lib reader) liquidityData,
        vs_PerformanceFee = performanceFee, vs_PerformanceFeeRecipient = performanceFeeRecipient,
        vs_ManagementFee = managementFee, vs_ManagementFeeRecipient = managementFeeRecipient,
        vs_MaxRate = maxRate, vs_Adapters = Some adapters, vs_AllocatorRoles = Some fmempty,
        vs_SentinelRoles = Some fmempty, vs_Timelocks = Some fmempty, vs_Abdicated = Some fmempty,
        vs_ForceDeallocatePenalties = Some fmempty\<rparr>)) read))))))))))))))))"

text \<open>
  A panic ends the process, so no caller ever sees what the reader returns then. The module
  has an operation of its own only for a process that lives; \<open>lived\<close> fills the other case.
\<close>

definition panicked :: gerror where
  "panicked = New ''panic: runtime error: makeslice: cap out of range''"

definition lived :: "('w, (gerror + 'a) option) io \<Rightarrow> ('w, gerror + 'a) io" where
  "lived m = bindIO m (\<lambda>r. ret (case r of None \<Rightarrow> Inl panicked | Some x \<Rightarrow> x))"

subsection \<open>Module values\<close>

text \<open>
  What the interface \<open>core.MonitorModule\<close> can hold here: the three modules, as values or as
  pointers that may be nil, and any other implementation.
\<close>

datatype 'w MonitorModule =
    SharePriceValue "'w SharePriceModule"
  | SharePricePtr "'w SharePriceModule option"
  | LiquidityValue "'w WithdrawLiquidityModule"
  | LiquidityPtr "'w WithdrawLiquidityModule option"
  | VaultStateValue "'w VaultStateModule"
  | VaultStatePtr "'w VaultStateModule option"
  | OtherModule "'w Module"

definition share_price_ops :: "'w Clock \<Rightarrow> 'w SharePriceModule \<Rightarrow> 'w Module" where
  "share_price_ops sys m =
     \<lparr>mod_ID = ModuleSharePriceLoss, mod_ValidateConfig = ret (SharePrice_ValidateConfig m),
      mod_Bootstrap = SharePrice_Bootstrap m, mod_Monitor = SharePrice_Monitor sys m\<rparr>"

definition liquidity_ops :: "'w Clock \<Rightarrow> 'w WithdrawLiquidityModule \<Rightarrow> 'w Module" where
  "liquidity_ops sys m =
     \<lparr>mod_ID = ModuleWithdrawLiquidity, mod_ValidateConfig = ret (WithdrawLiquidity_ValidateConfig m),
      mod_Bootstrap = WithdrawLiquidity_Bootstrap m, mod_Monitor = WithdrawLiquidity_Monitor sys m\<rparr>"

definition vault_state_ops :: "'w Clock \<Rightarrow> 'w VaultStateModule \<Rightarrow> 'w Module" where
  "vault_state_ops sys m =
     \<lparr>mod_ID = ModuleVaultState, mod_ValidateConfig = ret (VaultState_ValidateConfig m),
      mod_Bootstrap = VaultState_Bootstrap m, mod_Monitor = VaultState_Monitor sys m\<rparr>"

fun module_ops :: "'w Clock \<Rightarrow> 'w MonitorModule \<Rightarrow> 'w Module option" where
  "module_ops sys (SharePriceValue m) = Some (share_price_ops sys m)"
| "module_ops sys (SharePricePtr p) = map_option (share_price_ops sys) p"
| "module_ops sys (LiquidityValue m) = Some (liquidity_ops sys m)"
| "module_ops sys (LiquidityPtr p) = map_option (liquidity_ops sys) p"
| "module_ops sys (VaultStateValue m) = Some (vault_state_ops sys m)"
| "module_ops sys (VaultStatePtr p) = map_option (vault_state_ops sys) p"
| "module_ops sys (OtherModule m) = Some m"

subsection \<open>Building the modules\<close>

definition knownModuleIDs :: "string list" where
  "knownModuleIDs = [ModuleSharePriceLoss, ModuleWithdrawLiquidity, ModuleVaultState]"

text \<open>Go ranges over a map in an order of its own: \<open>entries\<close> lists the map in that order.\<close>

definition ranges_over :: "(string \<times> 'v) list \<Rightarrow> 'v gomap \<Rightarrow> bool" where
  "ranges_over entries m \<longleftrightarrow> distinct (map fst entries) \<and> fmap_of_list entries = fmap_of m"

fun validateModuleConfigs :: "(string \<times> ModuleConfig) list \<Rightarrow> gerror option" where
  "validateModuleConfigs [] = None"
| "validateModuleConfigs ((rawID, moduleConfig) # rest) =
     (case ModuleEnabled moduleConfig rawID of
        Inl err \<Rightarrow> Some err
      | Inr enabled \<Rightarrow>
          if enabled \<and> rawID \<notin> set knownModuleIDs
          then Some (New (''unknown enabled module '' @ Quote rawID))
          else validateModuleConfigs rest)"

definition buildSharePriceModule :: "'w Clock \<Rightarrow> ModuleConfig \<Rightarrow> 'w VaultReader
    \<Rightarrow> gerror + 'w SharePriceModule" where
  "buildSharePriceModule sys moduleConfig reader =
     (case ModuleBigInt moduleConfig ModuleSharePriceLoss ''baseline_share_price_asset_units'' of
        Inl err \<Rightarrow> Inl err
      | Inr baseline \<Rightarrow>
     (case ModuleInt64 moduleConfig ModuleSharePriceLoss ''loss_warn_bps'' of
        Inl err \<Rightarrow> Inl err
      | Inr warn \<Rightarrow>
     (case ModuleInt64 moduleConfig ModuleSharePriceLoss ''loss_urgent_bps'' of
        Inl err \<Rightarrow> Inl err
      | Inr urgent \<Rightarrow>
          Inr \<lparr>sp_BaselineSharePrice = Some baseline, sp_PreviousSharePrice = None, sp_WarnBPS = warn,
               sp_UrgentBPS = urgent, sp_Reader = Some (CurrentSharePrice reader),
               sp_Clock = Some sys\<rparr>)))"

definition buildWithdrawLiquidityModule :: "'w Clock \<Rightarrow> Config \<Rightarrow> ModuleConfig \<Rightarrow> 'w VaultReader
    \<Rightarrow> 'w ExitSimulator option \<Rightarrow> address \<Rightarrow> address \<Rightarrow> address \<Rightarrow> gerror + 'w WithdrawLiquidityModule"
  where
  "buildWithdrawLiquidityModule sys cfg moduleConfig reader exitSim vault owner receiver =
     (case ModuleDecimalUnits moduleConfig ModuleWithdrawLiquidity ''idle_warn_threshold_usdc''
             (ec_AssetDecimals (cfg_Ethereum cfg)) of
        Inl err \<Rightarrow> Inl err
      | Inr warn \<Rightarrow>
     (case ModuleDecimalUnits moduleConfig ModuleWithdrawLiquidity ''idle_urgent_threshold_usdc''
             (ec_AssetDecimals (cfg_Ethereum cfg)) of
        Inl err \<Rightarrow> Inl err
      | Inr urgent \<Rightarrow>
          Inr \<lparr>wl_IdleAssetReader = Some (IdleAssets reader), wl_ExitSimulator = exitSim,
               wl_Owner = owner, wl_Receiver = receiver, wl_Vault = vault, wl_IdleWarn = Some warn,
               wl_IdleUrgent = Some urgent, wl_Clock = Some sys\<rparr>))"

definition buildVaultStateModule :: "'w Clock \<Rightarrow> (anyval \<Rightarrow> gerror + anyval) \<Rightarrow> ModuleConfig
    \<Rightarrow> 'w VaultReader \<Rightarrow> gerror + 'w VaultStateModule" where
  "buildVaultStateModule sys yamlReread moduleConfig reader =
     (case ModuleStruct yamlReread unmarshal_snapshot moduleConfig ModuleVaultState ''baseline'' of
        Inl err \<Rightarrow> Inl err
      | Inr baseline \<Rightarrow>
     (case ModuleString moduleConfig ModuleVaultState ''change_severity'' of
        Inl err \<Rightarrow> Inl err
      | Inr severity \<Rightarrow>
          Inr \<lparr>vm_Reader = Some (lived (CurrentVaultState reader)), vm_Baseline = baseline,
               vm_ChangeSeverity = severity, vm_Clock = Some sys\<rparr>))"

text \<open>An enabled module is built and appended, a disabled or missing one is skipped.\<close>

definition append_enabled :: "Config \<Rightarrow> MonitorModuleID \<Rightarrow> (ModuleConfig \<Rightarrow> gerror + 'm)
    \<Rightarrow> 'm list \<Rightarrow> gerror + 'm list" where
  "append_enabled cfg moduleID build modules =
     (case EnabledModuleConfig cfg moduleID of
        Inl err \<Rightarrow> Inl err
      | Inr None \<Rightarrow> Inr modules
      | Inr (Some moduleConfig) \<Rightarrow>
          (case build moduleConfig of Inl err \<Rightarrow> Inl err | Inr m \<Rightarrow> Inr (modules @ [m])))"

definition BuildModules :: "'w Clock \<Rightarrow> (anyval \<Rightarrow> gerror + anyval) \<Rightarrow> Config
    \<Rightarrow> (string \<times> ModuleConfig) list \<Rightarrow> 'w VaultReader \<Rightarrow> address \<Rightarrow> address \<Rightarrow> address
    \<Rightarrow> 'w ExitSimulator option \<Rightarrow> gerror + 'w MonitorModule list" where
  "BuildModules sys yamlReread cfg entries reader vault owner receiver exitSim =
     (case validateModuleConfigs entries of
        Some err \<Rightarrow> Inl err
      | None \<Rightarrow>
     (case append_enabled cfg ModuleSharePriceLoss
             (\<lambda>c. map_sum id SharePriceValue (buildSharePriceModule sys c reader)) [] of
        Inl err \<Rightarrow> Inl err
      | Inr modules \<Rightarrow>
     (case append_enabled cfg ModuleWithdrawLiquidity
             (\<lambda>c. map_sum id LiquidityValue
                (buildWithdrawLiquidityModule sys cfg c reader exitSim vault owner receiver)) modules of
        Inl err \<Rightarrow> Inl err
      | Inr modules \<Rightarrow>
          append_enabled cfg ModuleVaultState
             (\<lambda>c. map_sum id VaultStateValue (buildVaultStateModule sys yamlReread c reader)) modules)))"

subsection \<open>Which modules are built\<close>

definition enabled_in :: "Config \<Rightarrow> string \<Rightarrow> bool" where
  "enabled_in cfg moduleID \<longleftrightarrow> (\<exists>c. EnabledModuleConfig cfg moduleID = Inr (Some c))"

lemma append_enabled_Inr:
  assumes "append_enabled cfg moduleID build ms = Inr ms'"
  shows "\<exists>new. ms' = ms @ new \<and> length new = (if enabled_in cfg moduleID then 1 else 0) \<and>
    (\<forall>m \<in> set new. \<exists>c. build c = Inr m)"
  using assms by (auto simp: append_enabled_def enabled_in_def split: sum.splits option.splits)

lemma map_sum_Inr_iff: "map_sum id f x = Inr y \<longleftrightarrow> (\<exists>z. x = Inr z \<and> y = f z)"
  by (cases x) auto

lemma validateModuleConfigs_None:
  "validateModuleConfigs entries = None \<longleftrightarrow>
     (\<forall>(k, c) \<in> set entries. \<exists>b. ModuleEnabled c k = Inr b \<and> (b \<longrightarrow> k \<in> set knownModuleIDs))"
  by (induction entries) (auto split: sum.splits if_splits)

lemma ranges_over_set:
  assumes "ranges_over entries m"
  shows "(k, v) \<in> set entries \<longleftrightarrow> fmlookup (fmap_of m) k = Some v"
proof -
  have "fmlookup (fmap_of m) k = map_of entries k"
    using assms by (simp add: ranges_over_def flip: fmlookup_of_list)
  then show ?thesis
    using assms map_of_eq_Some_iff [of entries k v] by (auto simp: ranges_over_def)
qed

text \<open>The identifier a module value reports; a nil pointer reports none.\<close>

fun module_id :: "'w MonitorModule \<Rightarrow> string option" where
  "module_id (SharePriceValue m) = Some ModuleSharePriceLoss"
| "module_id (SharePricePtr p) = map_option (\<lambda>m. ModuleSharePriceLoss) p"
| "module_id (LiquidityValue m) = Some ModuleWithdrawLiquidity"
| "module_id (LiquidityPtr p) = map_option (\<lambda>m. ModuleWithdrawLiquidity) p"
| "module_id (VaultStateValue m) = Some ModuleVaultState"
| "module_id (VaultStatePtr p) = map_option (\<lambda>m. ModuleVaultState) p"
| "module_id (OtherModule m) = Some (mod_ID m)"

lemma module_id_ops: "map_option mod_ID (module_ops sys m) = module_id m"
  by (cases m) (simp_all add: share_price_ops_def liquidity_ops_def vault_state_ops_def option.map_comp
      comp_def)

lemma append_enabled_ids:
  assumes "append_enabled cfg i build ms = Inr ms'" "\<And>c m. build c = Inr m \<Longrightarrow> module_id m = Some i"
  shows "map module_id ms' = map module_id ms @ (if enabled_in cfg i then [Some i] else [])"
proof -
  obtain new where n: "ms' = ms @ new" "length new = (if enabled_in cfg i then 1 else 0)"
      "\<forall>m \<in> set new. module_id m = Some i"
    using append_enabled_Inr [OF assms(1)] assms(2) by blast
  then have "map module_id new = (if enabled_in cfg i then [Some i] else [])"
    by (cases new) (auto split: if_splits)
  with n(1) show ?thesis by simp
qed

lemma BuildModules_ids:
  assumes "BuildModules sys reread cfg entries reader vault owner receiver exitSim = Inr ms"
  shows "map module_id ms = map Some (filter (enabled_in cfg) knownModuleIDs)"
proof -
  from assms obtain m1 m2 where
    1: "append_enabled cfg ModuleSharePriceLoss
          (\<lambda>c. map_sum id SharePriceValue (buildSharePriceModule sys c reader)) [] = Inr m1" and
    2: "append_enabled cfg ModuleWithdrawLiquidity
          (\<lambda>c. map_sum id LiquidityValue
            (buildWithdrawLiquidityModule sys cfg c reader exitSim vault owner receiver)) m1 = Inr m2" and
    3: "append_enabled cfg ModuleVaultState
          (\<lambda>c. map_sum id VaultStateValue (buildVaultStateModule sys reread c reader)) m2 = Inr ms"
    by (auto simp: BuildModules_def split: option.splits sum.splits)
  have "map module_id m1 = (if enabled_in cfg ModuleSharePriceLoss then [Some ModuleSharePriceLoss] else [])"
    by (rule trans [OF append_enabled_ids [OF 1]]) (auto simp: map_sum_Inr_iff)
  moreover have "map module_id m2 = map module_id m1 @
      (if enabled_in cfg ModuleWithdrawLiquidity then [Some ModuleWithdrawLiquidity] else [])"
    by (rule append_enabled_ids [OF 2]) (auto simp: map_sum_Inr_iff)
  moreover have "map module_id ms = map module_id m2 @
      (if enabled_in cfg ModuleVaultState then [Some ModuleVaultState] else [])"
    by (rule append_enabled_ids [OF 3]) (auto simp: map_sum_Inr_iff)
  ultimately show ?thesis by (simp add: knownModuleIDs_def)
qed

subsection \<open>Reading the adapters\<close>

lemma sint_low_bits:
  "sint (word_of_int n :: int64) =
     (if n mod 2 ^ 64 < 2 ^ 63 then n mod 2 ^ 64 else n mod 2 ^ 64 - 2 ^ 64)"
proof -
  let ?u = "n mod 2 ^ 64"
  have u: "uint (word_of_int n :: int64) = ?u" by (simp add: uint_word_of_int)
  have r: "0 \<le> ?u" "?u < 2 ^ 64" by simp_all
  have "sint (word_of_int n :: int64) = signed_take_bit 63 ?u"
    by (simp add: sint_uint u)
  also have "\<dots> = ?u - 2 ^ 64 * of_bool (bit ?u 63)"
    using r by (simp add: signed_take_bit_eq_take_bit_minus take_bit_int_eq_self)
  also have "bit ?u 63 \<longleftrightarrow> \<not> ?u < 2 ^ 63"
  proof (cases "?u < 2 ^ 63")
    case True
    with r have "?u div 2 ^ 63 = 0" by (intro div_pos_pos_trivial)
    with True show ?thesis by (simp add: bit_iff_odd)
  next
    case False
    have "(?u - 2 ^ 63) div 2 ^ 63 = 0" using False r by (intro div_pos_pos_trivial) auto
    then have "?u div 2 ^ 63 = 1"
      using div_add_self2 [of "2 ^ 63" "?u - 2 ^ 63"] by simp
    with False show ?thesis by (simp add: bit_iff_odd)
  qed
  finally show ?thesis by simp
qed

lemma makeslice_ok_low_bits: "makeslice_ok (sint (word_of_int n :: int64)) \<longleftrightarrow> n mod 2 ^ 64 \<le> 2 ^ 44"
  unfolding makeslice_ok_def sint_low_bits by auto

lemma adaptersLoop_length:
  "adaptersLoop reader i k as w = (Inr bs, w') \<Longrightarrow> length bs = length as + k"
  by (induction reader i k as arbitrary: w rule: adaptersLoop.induct)
    (auto elim!: io_elims)

lemma vaultAdapters_law:
  assumes "vaultUint256 reader ''adaptersLength'' [] w = (Inr n, w1)"
  shows "case fst (vaultAdapters reader w) of
      None \<Rightarrow> 2 ^ 44 < n mod 2 ^ 64
    | Some (Inl e) \<Rightarrow> n mod 2 ^ 64 \<le> 2 ^ 44
    | Some (Inr as) \<Rightarrow> n mod 2 ^ 64 \<le> 2 ^ 44 \<and> int (length as) = n mod 2 ^ 64"
proof (cases "n mod 2 ^ 64 \<le> 2 ^ 44")
  case True
  then have s: "sint (word_of_int n :: int64) = n mod 2 ^ 64" by (simp add: sint_low_bits)
  obtain r w2 where r: "adaptersLoop reader 0 (nat (n mod 2 ^ 64)) [] w1 = (r, w2)" by (metis surj_pair)
  then have "fst (vaultAdapters reader w) = Some r"
    using assms True by (simp add: vaultAdapters_def orPanic_def io_simps Let_def makeslice_ok_low_bits s)
  with True adaptersLoop_length [of reader 0 "nat (n mod 2 ^ 64)" "[]" w1] r show ?thesis
    by (cases r) auto
next
  case False
  then have "fst (vaultAdapters reader w) = None"
    using assms by (simp add: vaultAdapters_def orPanic_def io_simps Let_def makeslice_ok_low_bits)
  with False show ?thesis by simp
qed

subsection \<open>A baseline from the bootstrap\<close>

text \<open>What YAML makes of the members of a snapshot: strings, booleans, lists and maps.\<close>

fun any_of_json :: "json \<Rightarrow> anyval" where
  "any_of_json JNull = AnyNil"
| "any_of_json (JBool b) = AnyBool b"
| "any_of_json (JNum l) = AnyFloat l"
| "any_of_json (JStr s) = AnyString s"
| "any_of_json (JArr vs) = AnySeq (map any_of_json vs)"
| "any_of_json (JObj kvs) = AnyMap (map (\<lambda>(k, v). (k, any_of_json v)) kvs)"

fun utf8_json :: "json \<Rightarrow> bool" where
  "utf8_json (JStr s) = valid_utf8 s"
| "utf8_json (JArr vs) = list_all utf8_json vs"
| "utf8_json (JObj kvs) = list_all (\<lambda>(k, v). valid_utf8 k \<and> utf8_json v) kvs"
| "utf8_json v = True"

lemma scrub_utf8: "utf8_json v \<Longrightarrow> scrub_json v = v"
  by (induction v rule: utf8_json.induct) (auto simp: scrub_valid list_all_iff map_idI split: prod.splits)

text \<open>Objects as the encoder of a map writes them: members sorted by name.\<close>

fun sorted_json :: "json \<Rightarrow> bool" where
  "sorted_json (JArr vs) = list_all sorted_json vs"
| "sorted_json (JObj kvs) = (sorted (map fst kvs) \<and> list_all (\<lambda>(k, v). sorted_json v) kvs)"
| "sorted_json v = True"

lemma json_of_any_sorted: "sorted_json v \<Longrightarrow> json_of_any (any_of_json v) = v"
proof (induction v rule: sorted_json.induct)
  case (2 kvs)
  have "map (\<lambda>(k, v). (k, json_of_any v)) (map (\<lambda>(k, v). (k, any_of_json v)) kvs) = kvs"
    unfolding list.map_comp
  proof (rule map_idI)
    fix x assume x: "x \<in> set kvs"
    with 2 have "json_of_any (any_of_json (snd x)) = snd x" by (auto simp: list_all_iff)
    then show "((\<lambda>(k, v). (k, json_of_any v)) \<circ> (\<lambda>(k, v). (k, any_of_json v))) x = x"
      by (cases x) simp
  qed
  with 2 show ?case by (simp add: sort_key_id_if_sorted)
qed (auto simp: list_all_iff map_idI)

lemma sorted_fmap_list: "sorted (map fst (sorted_list_of_fmap fm))"
  by (simp add: sorted_list_of_fmap_def comp_def sorted_list_of_fset.rep_eq)

lemma sorted_members: "list_all (\<lambda>(k, v). sorted_json v) (snapshot_members s)"
  by (auto simp: snapshot_members_def json_snapshot_def json_strings_def json_bool_map_def
      json_string_map_def list_all_iff comp_def sorted_fmap_list case_prod_unfold split: option.splits)

lemma json_of_any_snapshot:
  "json_of_any (any_of_json (json_snapshot s)) = JObj (sort_key fst (snapshot_members s))"
proof -
  have "map ((\<lambda>(k, v). (k, json_of_any v)) \<circ> (\<lambda>(k, v). (k, any_of_json v))) (snapshot_members s)
      = snapshot_members s"
  proof (rule map_idI)
    fix x assume "x \<in> set (snapshot_members s)"
    then have "sorted_json (snd x)" using sorted_members [of s] by (auto simp: list_all_iff)
    then have "json_of_any (any_of_json (snd x)) = snd x" by (rule json_of_any_sorted)
    then show "((\<lambda>(k, v). (k, json_of_any v)) \<circ> (\<lambda>(k, v). (k, any_of_json v))) x = x"
      by (cases x) simp
  qed
  then show ?thesis by (simp add: json_snapshot_members)
qed

lemma json_ok_members: "list_all (\<lambda>(k, v). json_ok v) (snapshot_members s)"
  by (auto simp: snapshot_members_def json_snapshot_def json_strings_def json_bool_map_def
      json_string_map_def list_all_iff split: option.splits)

lemma unmarshal_reread_snapshot:
  assumes "utf8_json (json_snapshot s)"
  shows "\<exists>j. json_decode (json_encode (json_of_any (any_of_json (json_snapshot s)))) = Some j \<and>
    unmarshal_snapshot j = Inr s"
proof -
  let ?j = "JObj (sort_key fst (snapshot_members s))"
  have "json_ok ?j" using json_ok_members [of s] by (auto simp: list_all_iff)
  moreover have "utf8_json ?j"
    using assms unfolding json_snapshot_members by (auto simp: list_all_iff)
  ultimately have "json_decode (json_encode ?j) = Some ?j"
    by (simp only: json_decode_encode scrub_utf8)
  then show ?thesis
    by (simp add: json_of_any_snapshot unmarshal_snapshot_sorted)
qed

subsection \<open>Properties\<close>


definition demo_modules_config :: Config where
  "demo_modules_config = \<lparr>
     cfg_App = \<lparr>ac_MonitorInterval = [], ac_DataDir = []\<rparr>,
     cfg_Ethereum = \<lparr>ec_ChainID = 1, ec_VaultAddress = [], ec_AssetSymbol = [],
       ec_AssetDecimals = 6, ec_ReceiverAddress = []\<rparr>,
     cfg_Telegram = \<lparr>tg_ChatID = 7, tg_AllowedUserIDs = [42], tg_DailyReportUTCTime = []\<rparr>,
     cfg_Gas = \<lparr>gc_ReplacementTimeout = [], gc_GasLimitBufferBPS = 0, gc_FeeBumpBPS = 0,
       gc_MaxFeePerGasGwei = [], gc_MaxPriorityFeePerGasGwei = []\<rparr>,
     cfg_Logs = \<lparr>lc_FilePath = [], lc_MaxSizeMB = 0, lc_MaxBackups = 0, lc_MaxAgeDays = 0\<rparr>,
     cfg_Modules = Some (fmap_of_list [(ModuleSharePriceLoss, Some (fmap_of_list
       [(''enabled'', AnyBool True), (''baseline_share_price_asset_units'', AnyString ''1000''),
        (''loss_warn_bps'', AnyInt 50), (''loss_urgent_bps'', AnyInt 100)]))])\<rparr>"

definition demo_reader :: "unit VaultReader" where
  "demo_reader = \<lparr>vr_Ethereum = NewMultiClient None [], vr_Vault = 16, vr_AssetDecimals = 6,
     vr_VaultABI = \<lparr>abi_Pack = (\<lambda>m args. Inr []), abi_Unpack = (\<lambda>m raw. Inr [])\<rparr>,
     vr_ERC20ABI = \<lparr>abi_Pack = (\<lambda>m args. Inr []), abi_Unpack = (\<lambda>m raw. Inr [])\<rparr>,
     vr_Lib = \<lparr>al_IsHexAddress = (\<lambda>s. True), al_HexToAddress = (\<lambda>s. 1), al_Hex = (\<lambda>a. []),
       al_HexEncode = (\<lambda>b. [])\<rparr>\<rparr>"



definition demo_rpc :: "unit RPCClient" where
  "demo_rpc = \<lparr>rpc_CallContract = (\<lambda>msg blk. ret (Inr [])), rpc_PendingNonceAt = (\<lambda>a. ret (Inr 0)),
     rpc_SuggestGasPrice = ret (Inr None), rpc_SuggestGasTipCap = ret (Inr None),
     rpc_EstimateGas = (\<lambda>msg. ret (Inr 0)), rpc_SendTransaction = (\<lambda>tx. ret None),
     rpc_TransactionReceipt = (\<lambda>h. ret (Inl (New ''not found''))), rpc_ChainID = ret (Inr None),
     rpc_Close = ret ()\<rparr>"

definition demo_huge_reader :: "unit VaultReader" where
  "demo_huge_reader = demo_reader\<lparr>vr_Ethereum := NewMultiClient (Some demo_rpc) [],
     vr_VaultABI := \<lparr>abi_Pack = (\<lambda>m args. Inr []), abi_Unpack = (\<lambda>m raw. Inr [ABig (2 ^ 63)])\<rparr>\<rparr>"


text \<open>C28: A baseline captured by the bootstrap, written into the configuration and read again
  (YAML keeping its members, JSON sorting them) is the captured one, for texts in valid UTF-8.\<close>

theorem baseline_round_trip:
  assumes "config_lookup moduleConfig key = Some v" "yamlReread v = Inr (any_of_json (json_snapshot s))"
    and "utf8_json (json_snapshot s)"
  shows "ModuleStruct yamlReread unmarshal_snapshot moduleConfig moduleID key = Inr s"
  using unmarshal_reread_snapshot [OF assms(3)] assms(1,2) by (auto simp: ModuleStruct_def)

theorem baseline_round_trip_witness:
  "ModuleStruct Inr unmarshal_snapshot (Some (fmap_of_list
     [(''baseline'', any_of_json (json_snapshot demo_snapshot))])) ModuleVaultState ''baseline'' =
   Inr demo_snapshot"
proof (rule baseline_round_trip)
  show "utf8_json (json_snapshot demo_snapshot)"
    by (simp add: json_snapshot_def demo_snapshot_def json_strings_def json_bool_map_def
        json_string_map_def sorted_list_of_fmap_def sorted_list_of_fset.rep_eq)
qed (simp_all add: config_lookup_def fmlookup_of_list)

end
