(* ===== verification/Vault_Reads.thy ===== *)
theory Vault_Reads
  imports Morpho_Factory
begin

text \<open>
  The reads of \<open>internal/morpho/factory.go\<close> and the withdrawal adapter against the documents of
  \<open>internal/morpho/abi.go\<close>: every method they call is in its document, with the arguments they
  pass and the type they expect back. So a vault that answers is read, whatever it answers.
\<close>

subsection \<open>A contract that answers\<close>

text \<open>
  Every call that was packed for a method of the document is answered, and the answer can be
  unpacked for that method.
\<close>

definition serves :: "AbiMethods \<Rightarrow> Abi \<Rightarrow> 'w MultiClient \<Rightarrow> address \<Rightarrow> bool" where
  "serves methods codec client contract \<longleftrightarrow>
     (\<forall>(name, inputs, outputs) \<in> set methods. \<forall>args data w. abi_Pack codec name args = Inr data \<longrightarrow>
        (\<exists>raw out w'. CallContract client
           (zeroCallMsg\<lparr>cm_To := Some contract, cm_Data := Some data\<rparr>) None w = (Inr raw, w') \<and>
         abi_Unpack codec name raw = Inr out))"

definition answering :: "'w VaultReader \<Rightarrow> bool" where
  "answering reader \<longleftrightarrow>
     follows vaultABIJSON (vr_VaultABI reader) \<and> follows erc20ABIJSON (vr_ERC20ABI reader) \<and>
     serves vaultABIJSON (vr_VaultABI reader) (vr_Ethereum reader) (vr_Vault reader) \<and>
     (\<forall>token. serves erc20ABIJSON (vr_ERC20ABI reader) (vr_Ethereum reader) token)"

text \<open>An operation that always returns a value, and one with the property \<open>P\<close>.\<close>

definition yields :: "('w, gerror + 'a) io \<Rightarrow> ('a \<Rightarrow> bool) \<Rightarrow> bool" where
  "yields m P \<longleftrightarrow> (\<forall>w. \<exists>x w'. m w = (Inr x, w') \<and> P x)"

lemma yieldsI: "(\<And>w. \<exists>x w'. m w = (Inr x, w') \<and> P x) \<Longrightarrow> yields m P"
  by (simp add: yields_def)

lemma yieldsE:
  assumes "yields m P"
  obtains x w' where "m w = (Inr x, w')" "P x"
  using assms unfolding yields_def by blast

lemma yields_ret: "P x \<Longrightarrow> yields (ret (Inr x)) P"
  by (simp add: yields_def ret_eq)

lemma yields_bindE:
  assumes "yields m P" "\<And>x. P x \<Longrightarrow> yields (k x) Q"
  shows "yields (bindE m k) Q"
proof (rule yieldsI)
  fix w
  obtain x w1 where m: "m w = (Inr x, w1)" "P x" using assms(1) by (rule yieldsE)
  moreover obtain y w2 where "k x w1 = (Inr y, w2)" "Q y" using assms(2) [OF m(2)] by (rule yieldsE)
  ultimately show "\<exists>y w'. bindE m k w = (Inr y, w') \<and> Q y" by (simp add: bindE_eq)
qed

text \<open>The one value of a method with one output.\<close>

lemma go_typed_iff:
  "go_typed TAddress v \<longleftrightarrow> (\<exists>a. v = AAddress a)"
  "go_typed TBytes v \<longleftrightarrow> (\<exists>b. v = ABytes b)"
  "go_typed (TUint 256) v \<longleftrightarrow> (\<exists>n. v = ABig n \<and> 0 \<le> n \<and> n < 2 ^ 256)"
  by (cases v; simp)+

lemma go_typed_single:
  "list_all2 go_typed [t] out \<longleftrightarrow> (\<exists>v. out = [v] \<and> go_typed t v)"
  by (auto simp: list_all2_Cons1)

lemma packs:
  "follows methods codec \<Longrightarrow> (name, inputs, outputs) \<in> set methods \<Longrightarrow> list_all2 go_typed inputs args \<Longrightarrow>
    \<exists>data. abi_Pack codec name args = Inr data"
  by (fastforce simp: follows_def)

lemma unpacks:
  "follows methods codec \<Longrightarrow> (name, inputs, outputs) \<in> set methods \<Longrightarrow> abi_Unpack codec name raw = Inr out \<Longrightarrow>
    list_all2 go_typed outputs out"
  by (fastforce simp: follows_def)

lemma call_answered:
  assumes "follows methods codec" "serves methods codec client contract"
    and "(name, inputs, outputs) \<in> set methods" "list_all2 go_typed inputs args"
  obtains data raw out w' where "abi_Pack codec name args = Inr data"
    "CallContract client (zeroCallMsg\<lparr>cm_To := Some contract, cm_Data := Some data\<rparr>) None w = (Inr raw, w')"
    "abi_Unpack codec name raw = Inr out" "list_all2 go_typed outputs out"
proof -
  obtain data where data: "abi_Pack codec name args = Inr data" using packs [OF assms(1,3,4)] by auto
  moreover obtain raw out w' where
    "CallContract client (zeroCallMsg\<lparr>cm_To := Some contract, cm_Data := Some data\<rparr>) None w = (Inr raw, w')"
    "abi_Unpack codec name raw = Inr out"
    using assms(2,3) data by (fastforce simp: serves_def)
  ultimately show ?thesis using that unpacks [OF assms(1,3)] by blast
qed

subsection \<open>The reads of the modules\<close>

lemma vaultCall_yields:
  assumes "answering reader" "(name, inputs, outputs) \<in> set vaultABIJSON" "list_all2 go_typed inputs args"
  shows "yields (vaultCall reader name args) (list_all2 go_typed outputs)"
proof (rule yieldsI)
  fix w
  have codec: "follows vaultABIJSON (vr_VaultABI reader)"
    "serves vaultABIJSON (vr_VaultABI reader) (vr_Ethereum reader) (vr_Vault reader)"
    using assms(1) by (simp_all add: answering_def)
  obtain data raw out w' where "abi_Pack (vr_VaultABI reader) name args = Inr data"
    "CallContract (vr_Ethereum reader)
       (zeroCallMsg\<lparr>cm_To := Some (vr_Vault reader), cm_Data := Some data\<rparr>) None w = (Inr raw, w')"
    "abi_Unpack (vr_VaultABI reader) name raw = Inr out" "list_all2 go_typed outputs out"
    by (rule call_answered [OF codec(1,2) assms(2,3)])
  then show "\<exists>x w'. vaultCall reader name args w = (Inr x, w') \<and> list_all2 go_typed outputs x"
    by (simp add: vaultCall_def bindE_eq ret_eq)
qed

lemma vaultUint256_yields:
  assumes "answering reader" "(name, inputs, [TUint 256]) \<in> set vaultABIJSON" "list_all2 go_typed inputs args"
  shows "yields (vaultUint256 reader name args) (\<lambda>n. 0 \<le> n \<and> n < 2 ^ 256)"
  unfolding vaultUint256_def
  by (rule yields_bindE [OF vaultCall_yields [OF assms]])
    (auto simp: go_typed_single go_typed_iff parseUint256Output_def simp del: go_typed.simps intro!: yields_ret)

lemma vaultAddress_yields:
  assumes "answering reader" "(name, inputs, [TAddress]) \<in> set vaultABIJSON" "list_all2 go_typed inputs args"
  shows "yields (vaultAddress reader name args) (\<lambda>a. True)"
  unfolding vaultAddress_def
  by (rule yields_bindE [OF vaultCall_yields [OF assms]])
    (auto simp: go_typed_single go_typed_iff simp del: go_typed.simps intro!: yields_ret)

lemma vaultAddressString_yields:
  "answering reader \<Longrightarrow> (name, [], [TAddress]) \<in> set vaultABIJSON \<Longrightarrow>
    yields (vaultAddressString reader name) (\<lambda>s. True)"
  unfolding vaultAddressString_def
  by (rule yields_bindE [OF vaultAddress_yields]) (auto intro: yields_ret)

lemma vaultBytes_yields:
  assumes "answering reader" "(name, inputs, [TBytes]) \<in> set vaultABIJSON" "list_all2 go_typed inputs args"
  shows "yields (vaultBytes reader name args) (\<lambda>b. True)"
  unfolding vaultBytes_def
  by (rule yields_bindE [OF vaultCall_yields [OF assms]])
    (auto simp: go_typed_single go_typed_iff simp del: go_typed.simps intro!: yields_ret)

lemma vaultValueString_yields:
  assumes "answering reader" "(name, [], [t]) \<in> set vaultABIJSON"
  shows "yields (vaultValueString reader name) (\<lambda>s. True)"
  unfolding vaultValueString_def
  by (rule yields_bindE [OF vaultCall_yields [OF assms]])
    (auto simp: go_typed_single intro!: yields_ret)

lemma adaptersLoop_yields:
  assumes "answering reader" "0 \<le> index" "index + int remaining < 2 ^ 256"
  shows "yields (adaptersLoop reader index remaining adapters) (\<lambda>as. True)"
  using assms(2,3)
proof (induction remaining arbitrary: index adapters)
  case 0
  then show ?case by (simp add: yields_ret)
next
  case (Suc remaining)
  have "yields (vaultAddress reader ''adapters'' [ABig index]) (\<lambda>a. True)"
    using Suc.prems by (intro vaultAddress_yields [OF assms(1), where inputs = "[TUint 256]"])
      (simp_all add: vaultABIJSON_def)
  then show ?case
    unfolding adaptersLoop.simps by (rule yields_bindE) (use Suc in \<open>simp add: algebra_simps\<close>)
qed

text \<open>An operation that either panics or returns a value, but no error.\<close>

definition errorless :: "('w, (gerror + 'a) option) io \<Rightarrow> bool" where
  "errorless m \<longleftrightarrow> (\<forall>w e. fst (m w) \<noteq> Some (Inl e))"

lemma errorless_orPanic:
  assumes "yields m P" "\<And>x. P x \<Longrightarrow> errorless (k x)"
  shows "errorless (orPanic m k)"
  unfolding errorless_def
proof (intro allI)
  fix w e
  obtain x w' where "m w = (Inr x, w')" "P x" using assms(1) by (rule yieldsE)
  with assms(2) show "fst (orPanic m k w) \<noteq> Some (Inl e)" by (simp add: orPanic_def tryE_eq errorless_def)
qed

lemma errorless_read: "yields m (\<lambda>x. True) \<Longrightarrow> (\<And>x. errorless (k x)) \<Longrightarrow> errorless (orPanic m k)"
  by (rule errorless_orPanic)

lemma errorless_yields:
  assumes "yields m P"
  shows "errorless (bindIO m (\<lambda>r. ret (Some r)))"
  unfolding errorless_def
proof (intro allI)
  fix w e
  obtain x w' where "m w = (Inr x, w')" using assms by (rule yieldsE)
  then show "fst (bindIO m (\<lambda>r. ret (Some r)) w) \<noteq> Some (Inl e)" by (simp add: bindIO_eq ret_eq)
qed

lemma errorless_map:
  assumes "errorless m"
  shows "errorless (bindIO m (\<lambda>r. ret (map_option (map_sum id f) r)))"
  unfolding errorless_def
proof (intro allI)
  fix w e
  obtain r w' where r: "m w = (r, w')" by (metis surj_pair)
  with assms have "r \<noteq> Some (Inl e)" by (metis errorless_def fst_conv)
  with r show "fst (bindIO m (\<lambda>r. ret (map_option (map_sum id f) r)) w) \<noteq> Some (Inl e)"
    by (cases r) (auto simp: bindIO_eq ret_eq map_sum_def split: sum.splits)
qed

lemma vaultAdapters_errorless:
  assumes "answering reader"
  shows "errorless (vaultAdapters reader)"
  unfolding vaultAdapters_def
proof (rule errorless_orPanic)
  show "yields (vaultUint256 reader ''adaptersLength'' []) (\<lambda>n. 0 \<le> n \<and> n < 2 ^ 256)"
    by (rule vaultUint256_yields [OF assms, where inputs = "[]"]) (simp_all add: vaultABIJSON_def)
next
  fix n :: int
  have "errorless (bindIO (adaptersLoop reader 0 (nat k) []) (\<lambda>r. ret (Some r)))" if "makeslice_ok k" for k
    using that by (intro errorless_yields [OF adaptersLoop_yields [OF assms]]) (auto simp: makeslice_ok_def)
  then show "errorless (let k = sint (word_of_int n :: int64) in
      if \<not> makeslice_ok k then ret None
      else bindIO (adaptersLoop reader 0 (nat k) []) (\<lambda>r. ret (Some r)))"
    by (auto simp: Let_def errorless_def ret_eq)
qed

lemma CurrentVaultState_errorless:
  assumes "answering reader"
  shows "errorless (CurrentVaultState reader)"
  unfolding CurrentVaultState_def
  by (intro errorless_read errorless_map vaultAdapters_errorless vaultAddressString_yields
      vaultBytes_yields [where inputs = "[]"] vaultValueString_yields assms)
    (simp_all add: vaultABIJSON_def)

text \<open>A field that changed has two values.\<close>

lemma snapshot_view_distinct: "distinct (map fst (snapshot_view s))"
  by (simp add: snapshot_view_def)

lemma changed_field_values:
  assumes "f \<in> set (changed_fields e a)"
  shows "map_of (snapshot_view e) f \<noteq> map_of (snapshot_view a) f"
proof -
  obtain x g y where m: "((f, x), (g, y)) \<in> set (zip (snapshot_view e) (snapshot_view a))" "x \<noteq> y"
    using assms by (auto simp: changed_fields_def)
  have "(f, g) \<in> set (zip (map fst (snapshot_view e)) (map fst (snapshot_view a)))"
    using m(1) by (force simp: zip_map_map)
  then have "f = g" using snapshot_view_names [of e a] by (auto simp: zip_same)
  then have "map_of (snapshot_view e) f = Some x" "map_of (snapshot_view a) f = Some y"
    using m(1) by (auto intro!: map_of_is_SomeI snapshot_view_distinct dest: set_zip_leftD set_zip_rightD)
  with m(2) show ?thesis by simp
qed

text \<open>What every state that is read satisfies.\<close>

definition all_read :: "('w, (gerror + 'a) option) io \<Rightarrow> ('a \<Rightarrow> bool) \<Rightarrow> bool" where
  "all_read m P \<longleftrightarrow> (\<forall>w x. fst (m w) = Some (Inr x) \<longrightarrow> P x)"

lemma all_read_orPanic: "(\<And>x. all_read (k x) P) \<Longrightarrow> all_read (orPanic m k) P"
  by (auto simp: all_read_def orPanic_def tryE_eq ret_eq split: prod.splits sum.splits)

lemma all_read_map:
  assumes "\<And>x. P (f x)"
  shows "all_read (bindIO m (\<lambda>r. ret (map_option (map_sum id f) r))) P"
proof -
  have "P y" if "map_option (map_sum id f) r = Some (Inr y)" for y r
    using that assms by (cases r) (auto simp: map_sum_def split: sum.splits)
  then show ?thesis by (auto simp: all_read_def bindIO_eq ret_eq split: prod.splits)
qed

definition unread_fields :: "string set" where
  "unread_fields = {''allocator_roles'', ''sentinel_roles'', ''timelocks'', ''abdicated'',
     ''force_deallocate_penalties''}"

lemma unread_collections:
  "all_read (CurrentVaultState reader) (\<lambda>s. vs_AllocatorRoles s = Some fmempty \<and>
     vs_SentinelRoles s = Some fmempty \<and> vs_Timelocks s = Some fmempty \<and> vs_Abdicated s = Some fmempty \<and>
     vs_ForceDeallocatePenalties s = Some fmempty)"
  unfolding CurrentVaultState_def by (intro all_read_orPanic all_read_map) simp

lemma unread_view:
  assumes "fst (CurrentVaultState reader w) = Some (Inr s)" "f \<in> unread_fields"
  shows "map_of (snapshot_view s) f = Some (if f \<in> {''timelocks'', ''force_deallocate_penalties''}
      then FTexts fmempty else FBools fmempty)"
  using unread_collections [unfolded all_read_def, rule_format, OF assms(1)] assms(2)
  by (auto simp: snapshot_view_def unread_fields_def fmap_of_def)

lemma IdleAssets_yields:
  assumes "answering reader"
  shows "yields (IdleAssets reader vault) (\<lambda>idle. \<exists>n. idle = Some n \<and> 0 \<le> n \<and> n < 2 ^ 256)"
  unfolding IdleAssets_def
proof (rule yields_bindE)
  show "yields (vaultAddress reader ''asset'' []) (\<lambda>a. True)"
    by (rule vaultAddress_yields [OF assms, where inputs = "[]"]) (simp_all add: vaultABIJSON_def)
next
  fix asset
  have codec: "follows erc20ABIJSON (vr_ERC20ABI reader)"
    "serves erc20ABIJSON (vr_ERC20ABI reader) (vr_Ethereum reader) asset"
    using assms by (simp_all add: answering_def)
  have mem: "(''balanceOf'', [TAddress], [TUint 256]) \<in> set erc20ABIJSON"
    "list_all2 go_typed [TAddress] [AAddress vault]"
    by (simp_all add: erc20ABIJSON_def)
  show "yields (case library (abi_Pack (vr_ERC20ABI reader) ''balanceOf'' [AAddress vault]) of
       Inl err \<Rightarrow> ret (Inl err)
     | Inr data \<Rightarrow> bindE (CallContract (vr_Ethereum reader)
           (zeroCallMsg\<lparr>cm_To := Some asset, cm_Data := Some data\<rparr>) None) (\<lambda>raw.
         case library (abi_Unpack (vr_ERC20ABI reader) ''balanceOf'' raw) of
           Inl err \<Rightarrow> ret (Inl err)
         | Inr out \<Rightarrow> ret (map_sum id Some (parseUint256Output ''balanceOf'' out))))
    (\<lambda>idle. \<exists>n. idle = Some n \<and> 0 \<le> n \<and> n < 2 ^ 256)"
  proof (rule yieldsI, goal_cases)
    case (1 w)
    show ?case
      by (rule call_answered [OF codec mem, of w])
        (auto simp: bindE_eq ret_eq go_typed_single go_typed_iff parseUint256Output_def simp del: go_typed.simps)
  qed
qed

lemma CurrentSharePrice_reads:
  assumes "answering reader"
  shows "case fst (CurrentSharePrice reader w) of
      Inl e \<Rightarrow> e = invalid_output ''totalSupply'' ''positive total supply''
    | Inr price \<Rightarrow> \<exists>n\<ge>0. price = Some n"
proof -
  have y: "yields (vaultUint256 reader name []) (\<lambda>n. 0 \<le> n \<and> n < 2 ^ 256)"
    if "(name, [], [TUint 256]) \<in> set vaultABIJSON" for name
    using that by (intro vaultUint256_yields [OF assms]) simp_all
  have assets: "yields (vaultUint256 reader ''totalAssets'' []) (\<lambda>n. 0 \<le> n \<and> n < 2 ^ 256)"
    and shares: "yields (vaultUint256 reader ''totalSupply'' []) (\<lambda>n. 0 \<le> n \<and> n < 2 ^ 256)"
    by (rule y, simp add: vaultABIJSON_def)+
  obtain a w1 where "vaultUint256 reader ''totalAssets'' [] w = (Inr a, w1)" "0 \<le> a"
    by (rule yieldsE [OF assets, of w]) (auto intro: that)
  moreover obtain s w2 where "vaultUint256 reader ''totalSupply'' [] w1 = (Inr s, w2)" "0 \<le> s"
    by (rule yieldsE [OF shares, of w1]) (auto intro: that)
  ultimately show ?thesis
    by (auto simp: CurrentSharePrice_def bindE_eq ret_eq pos_imp_zdiv_nonneg_iff)
qed

subsection \<open>The exit\<close>

text \<open>The same for the client of the withdrawal adapter and the transaction it estimates.\<close>

definition answering_client :: "Abi \<Rightarrow> 'w VaultClient \<Rightarrow> bool" where
  "answering_client codec client \<longleftrightarrow> follows vaultABIJSON codec \<and>
     serves vaultABIJSON codec (vc_Ethereum client) (vc_Vault client)"

lemma vault_call_yields:
  assumes "answering_client codec client" "(name, inputs, outputs) \<in> set vaultABIJSON"
    and "list_all2 go_typed inputs args"
  shows "yields (vault_call codec client name args) (list_all2 go_typed outputs)"
proof (rule yieldsI)
  fix w
  have c: "follows vaultABIJSON codec" "serves vaultABIJSON codec (vc_Ethereum client) (vc_Vault client)"
    using assms(1) by (simp_all add: answering_client_def)
  show "\<exists>x w'. vault_call codec client name args w = (Inr x, w') \<and> list_all2 go_typed outputs x"
    by (rule call_answered [OF c assms(2,3), of w]) (simp add: vault_call_def tryE_eq ret_eq)
qed

lemma uint256_call_yields:
  assumes "answering_client codec client" "(name, inputs, [TUint 256]) \<in> set vaultABIJSON"
    and "list_all2 go_typed inputs args"
  shows "yields (bindE (vault_call codec client name args) (\<lambda>out. ret (uint256Output name out)))
    (\<lambda>n. 0 \<le> n \<and> n < 2 ^ 256)"
  by (rule yields_bindE [OF vault_call_yields [OF assms]])
    (auto simp: go_typed_single go_typed_iff uint256Output_def simp del: go_typed.simps intro!: yields_ret)

lemma BalanceOf_yields:
  "answering_client codec client \<Longrightarrow> yields (BalanceOf codec client owner) (\<lambda>n. 0 \<le> n \<and> n < 2 ^ 256)"
  unfolding BalanceOf_def vaultMethodBalanceOf_def
  by (rule uint256_call_yields [where inputs = "[TAddress]"]) (simp_all add: vaultABIJSON_def)

lemma PreviewRedeem_yields:
  "answering_client codec client \<Longrightarrow> 0 \<le> n \<Longrightarrow> n < 2 ^ 256 \<Longrightarrow>
    yields (PreviewRedeem codec client n) (\<lambda>n. 0 \<le> n \<and> n < 2 ^ 256)"
  unfolding PreviewRedeem_def vaultMethodPreviewRedeem_def
  by (rule uint256_call_yields [where inputs = "[TUint 256]"]) (simp_all add: vaultABIJSON_def)

lemma PackRedeem_packs:
  assumes "follows vaultABIJSON codec" "0 \<le> shares" "shares < 2 ^ 256"
  shows "\<exists>data. PackRedeem codec shares receiver owner = Inr data"
proof -
  have "\<exists>data. abi_Pack codec ''redeem'' [ABig shares, AAddress receiver, AAddress owner] = Inr data"
    using assms(2,3) by (intro packs [OF assms(1), where inputs = "[TUint 256, TAddress, TAddress]"
          and outputs = "[TUint 256]"]) (simp_all add: vaultABIJSON_def)
  then show ?thesis by (auto simp: PackRedeem_def vaultMethodRedeem_def)
qed

lemma SimulateFullExit_answers:
  assumes "answering_client codec (ma_VaultClient adapter)" "validateFullExitRequest adapter req = None"
    and "rq_Shares req = Some n" "0 \<le> n" "n < 2 ^ 256"
  shows "\<exists>sim w'. SimulateFullExit codec adapter req w = ((sim, None), w')"
proof -
  obtain expected w1 where p: "PreviewRedeem codec (ma_VaultClient adapter) n w = (Inr expected, w1)"
    using PreviewRedeem_yields [OF assms(1,4,5)] by (rule yieldsE)
  obtain data where "PackRedeem codec n (rq_Receiver req) (rq_Owner req) = Inr data"
    using PackRedeem_packs assms(1,4,5) by (metis answering_client_def)
  with p show ?thesis
    using assms(2,3)
    by (cases "fst (EstimateGas (ma_Ethereum adapter) \<lparr>cm_From = rq_Owner req, cm_To = Some (rq_Vault req),
          cm_Value = Some 0, cm_Data = Some data\<rparr> w1)")
      (auto simp: SimulateFullExit_def BuildFullExit_def tryE_eq ret_eq Let_def split: prod.splits)
qed

subsection \<open>Properties\<close>

text \<open>C14: A vault that answers is read, whatever it answers: every method that the modules read is
  in the ABI document with the arguments and the result the code gives and expects. When each
  call that the codec packs is answered by something it can unpack, the state of the vault and
  its idle assets are read without an error (the state may still panic over its adapters), and
  the only error of the share price is that there are no shares.\<close>

theorem vault_that_answers_is_read:
  assumes "answering reader"
  shows "fst (CurrentVaultState reader w) \<noteq> Some (Inl e) \<and>
    (\<exists>n w'. IdleAssets reader vault w = (Inr (Some n), w') \<and> 0 \<le> n \<and> n < 2 ^ 256) \<and>
    (case fst (CurrentSharePrice reader w) of
       Inl e \<Rightarrow> e = invalid_output ''totalSupply'' ''positive total supply''
     | Inr price \<Rightarrow> \<exists>n\<ge>0. price = Some n)"
  using CurrentVaultState_errorless [OF assms] CurrentSharePrice_reads [OF assms]
    yieldsE [OF IdleAssets_yields [OF assms, of vault], of w]
  by (fastforce simp: errorless_def)

text \<open>C8: The withdrawal adapter of a vault that answers has no error of its own: it reads a
  position whose balance is a 256-bit amount, and for every such positive balance the full exit
  it requests of itself is packed and simulated (successfully or not) without an error.\<close>

theorem adapter_of_answering_vault_works:
  assumes "answering_client codec (ma_VaultClient adapter)" "vc_Vault (ma_VaultClient adapter) = ma_Vault adapter"
    and "ma_Vault adapter \<noteq> 0" "ma_Owner adapter \<noteq> 0" "ma_Receiver adapter \<noteq> 0"
  shows "\<exists>position n w1. Position pl codec adapter w = (Inr position, w1) \<and>
    ps_ShareBalance position = Some n \<and> 0 \<le> n \<and> n < 2 ^ 256 \<and>
    (0 < n \<longrightarrow> (let req = fullExitRequest position in
       (\<exists>candidate. BuildFullExit codec adapter req w1 = (Inr candidate, w1)) \<and>
       (\<exists>sim w2. SimulateFullExit codec adapter req w1 = ((sim, None), w2))))"
proof -
  obtain n w1 where b: "BalanceOf codec (ma_VaultClient adapter) (ma_Owner adapter) w = (Inr n, w1)"
    "0 \<le> n" "n < 2 ^ 256"
    by (rule yieldsE [OF BalanceOf_yields [OF assms(1)], of "ma_Owner adapter" w]) (auto intro: that)
  obtain now w2 where c: "clock_now (pl_SystemClock pl) (ma_Clock adapter) w1 = (now, w2)"
    by (metis surj_pair)
  define position where "position = \<lparr>ps_Vault = ma_Vault adapter, ps_Owner = ma_Owner adapter,
     ps_Receiver = ma_Receiver adapter, ps_ShareBalance = Some n, ps_AssetSymbol = ma_AssetSymbol adapter,
     ps_AssetDecimals = ma_AssetDecimals adapter, ps_ObservedAt = now\<rparr>"
  have v: "validateVaultClient adapter = None" using assms(2,3) by (simp add: validateVaultClient_def)
  have run: "Position pl codec adapter w = (Inr position, w2)"
    using b c v by (simp add: Position_def bindE_eq bindIO_eq ret_eq position_def)
  let ?req = "fullExitRequest position"
  have req: "rq_Shares ?req = Some n" "rq_Vault ?req = ma_Vault adapter" "rq_Owner ?req = ma_Owner adapter"
    "rq_Receiver ?req = ma_Receiver adapter"
    by (simp_all add: fullExitRequest_def position_def)
  have valid: "validateFullExitRequest adapter ?req = None" if "0 < n"
    using that v req assms(3-5) by (simp add: validateFullExitRequest_def)
  obtain data where "PackRedeem codec n (ma_Receiver adapter) (ma_Owner adapter) = Inr data"
    using PackRedeem_packs assms(1) b(2,3) by (metis answering_client_def)
  then have "\<exists>candidate. BuildFullExit codec adapter ?req w2 = (Inr candidate, w2)" if "0 < n"
    using valid [OF that] req by (simp add: BuildFullExit_def ret_eq)
  moreover have "\<exists>sim w'. SimulateFullExit codec adapter ?req w2 = ((sim, None), w')" if "0 < n"
    by (rule SimulateFullExit_answers [OF assms(1) valid [OF that] req(1) b(2,3)])
  ultimately show ?thesis
    using run b(2,3) by (auto simp: Let_def position_def)
qed

text \<open>C39: A change of the vault's roles, timelocks, abdications or penalties is never noticed: the
  reader fills these collections with nothing, so between a baseline captured from the vault and
  any later reading, of whatever vault and in whatever world, no difference is in one of them.\<close>

theorem roles_and_timelocks_go_unseen:
  assumes "fst (CurrentVaultState reader0 w0) = Some (Inr baseline)"
    and "fst (CurrentVaultState reader w) = Some (Inr actual)"
  shows "sd_Field ` set (DiffVaultState baseline actual) \<inter> unread_fields = {}"
proof -
  have "f \<notin> unread_fields" if "f \<in> set (changed_fields baseline actual)" for f
    using changed_field_values [OF that] unread_view [OF assms(1), of f] unread_view [OF assms(2), of f] by auto
  moreover have "sd_Field ` set (DiffVaultState baseline actual) = set (changed_fields baseline actual)"
    using arg_cong [OF DiffVaultState_fields, of set baseline actual] by simp
  ultimately show ?thesis by auto
qed

text \<open>A codec of a document that packs the same bytes for all arguments and unpacks default values.\<close>

fun demo_value :: "abi_type \<Rightarrow> abi_value" where
  "demo_value TAddress = AAddress 7"
| "demo_value (TUint bits) = (if bits = 8 then AUint8 1 else if bits = 64 then AUint64 1 else ABig 1)"
| "demo_value TBool = ABool True"
| "demo_value TBytes = ABytes [1]"
| "demo_value (TFixedBytes n) = AFixedBytes (replicate n 0)"

definition demo_codec :: "AbiMethods \<Rightarrow> Abi" where
  "demo_codec methods = \<lparr>abi_Pack = (\<lambda>m args. Inr [1, 2, 3]),
     abi_Unpack = (\<lambda>m raw. case map_of methods m of
         None \<Rightarrow> Inl ''no method'' | Some (inputs, outputs) \<Rightarrow> Inr (map demo_value outputs))\<rparr>"

definition demo_answering_reader :: "unit VaultReader" where
  "demo_answering_reader = demo_reader\<lparr>vr_Ethereum := NewMultiClient (Some demo_rpc) [],
     vr_VaultABI := demo_codec vaultABIJSON, vr_ERC20ABI := demo_codec erc20ABIJSON\<rparr>"

lemma demo_codec_good:
  assumes "distinct (map fst methods)" "\<forall>(name, inputs, outputs) \<in> set methods. list_all2 go_typed outputs (map demo_value outputs)"
  shows "follows methods (demo_codec methods)"
    and "serves methods (demo_codec methods) (NewMultiClient (Some demo_rpc) []) contract"
  using assms
  by (auto simp: follows_def serves_def demo_codec_def CallContract_def readAll_def rpcClients_def
      NewMultiClient_def demo_rpc_def ret_eq)

lemma demo_documents:
  "distinct (map fst vaultABIJSON)" "distinct (map fst erc20ABIJSON)"
  "\<forall>(name, inputs, outputs) \<in> set vaultABIJSON. list_all2 go_typed outputs (map demo_value outputs)"
  "\<forall>(name, inputs, outputs) \<in> set erc20ABIJSON. list_all2 go_typed outputs (map demo_value outputs)"
  by (code_simp, code_simp) (simp_all add: vaultABIJSON_def erc20ABIJSON_def)

lemmas demo_follows = demo_codec_good(1) [OF demo_documents(1,3)] demo_codec_good(1) [OF demo_documents(2,4)]
lemmas demo_serves = demo_codec_good(2) [OF demo_documents(1,3)] demo_codec_good(2) [OF demo_documents(2,4)]

lemma demo_answering: "answering demo_answering_reader"
  using demo_follows demo_serves by (simp add: answering_def demo_answering_reader_def)

theorem vault_that_answers_is_read_witness:
  "fst (CurrentVaultState demo_answering_reader ()) \<noteq> Some (Inl (New ''failed'')) \<and>
   (\<exists>n w'. IdleAssets demo_answering_reader 16 () = (Inr (Some n), w'))"
  using vault_that_answers_is_read [OF demo_answering, of "()" "New ''failed''" 16] by blast

definition demo_exit_adapter :: "unit MorphoAdapter" where
  "demo_exit_adapter = \<lparr>ma_Ethereum = NewMultiClient (Some demo_rpc) [],
     ma_VaultClient = \<lparr>vc_Ethereum = NewMultiClient (Some demo_rpc) [], vc_Vault = 16\<rparr>, ma_Vault = 16,
     ma_Owner = 48, ma_Receiver = 32, ma_AssetSymbol = ''USDC'', ma_AssetDecimals = 6, ma_Clock = None\<rparr>"

theorem adapter_of_answering_vault_works_witness:
  "\<exists>position n w1. Position \<lparr>pl_SystemClock = ret 0, pl_TxHash = (\<lambda>tx. 0)\<rparr> (demo_codec vaultABIJSON)
      demo_exit_adapter () = (Inr position, w1) \<and> ps_ShareBalance position = Some n \<and> 0 \<le> n"
proof -
  have "answering_client (demo_codec vaultABIJSON) (ma_VaultClient demo_exit_adapter)"
    using demo_follows demo_serves by (simp add: answering_client_def demo_exit_adapter_def)
  from adapter_of_answering_vault_works [OF this,
      where pl = "\<lparr>pl_SystemClock = ret 0, pl_TxHash = (\<lambda>tx. 0)\<rparr>" and w = "()"]
  show ?thesis by (auto simp: demo_exit_adapter_def)
qed

theorem roles_and_timelocks_go_unseen_witness:
  "\<exists>s. fst (CurrentVaultState demo_answering_reader ()) = Some (Inr s) \<and>
     sd_Field ` set (DiffVaultState s s) \<inter> unread_fields = {}"
proof -
  have "case fst (CurrentVaultState demo_answering_reader ()) of Some (Inr s) \<Rightarrow> True | _ \<Rightarrow> False"
    by code_simp
  then obtain s where s: "fst (CurrentVaultState demo_answering_reader ()) = Some (Inr s)"
    by (auto split: option.splits sum.splits)
  with roles_and_timelocks_go_unseen [OF s s] show ?thesis by blast
qed

end
