(* ===== verification/Signer.thy ===== *)
theory Signer
  imports Withdraw_Service
begin

text \<open>
  \<open>internal/signer\<close>: the private-key signer. Key parsing, address derivation and the
  signature itself belong to go-ethereum and are the record \<open>Crypto\<close>; \<open>'k\<close> is a parsed key.
\<close>

record 'k Crypto =
  cr_HexToECDSA :: "string \<Rightarrow> gerror + 'k"
  cr_PubkeyToAddress :: "'k \<Rightarrow> address"
  cr_SignTx :: "Transaction \<Rightarrow> int \<Rightarrow> 'k \<Rightarrow> gerror + Transaction"

record 'k PrivateKeyService =
  pk_key :: 'k
  pk_address :: address

definition TrimPrefix :: "string \<Rightarrow> string \<Rightarrow> string" where
  "TrimPrefix s p = (if prefix p s then drop (length p) s else s)"

definition NewPrivateKeyService :: "'k Crypto \<Rightarrow> string \<Rightarrow> gerror + 'k PrivateKeyService" where
  "NewPrivateKeyService crypto privateKeyHex =
     (case cr_HexToECDSA crypto (TrimPrefix (TrimSpace privateKeyHex) ''0x'') of
        Inl err \<Rightarrow> Inl (Wrap ''parse private key: '' err [])
      | Inr key \<Rightarrow> Inr \<lparr>pk_key = key, pk_address = cr_PubkeyToAddress crypto key\<rparr>)"

definition Signer_Address :: "'k PrivateKeyService \<Rightarrow> ('w, gerror + address) io" where
  "Signer_Address service = ret (Inr (pk_address service))"

definition SignTransaction :: "'k Crypto \<Rightarrow> 'k PrivateKeyService \<Rightarrow> Transaction option \<Rightarrow> bigint
    \<Rightarrow> ('w, gerror + Transaction) io" where
  "SignTransaction crypto service tx chainID =
     (case tx of
        None \<Rightarrow> ret (Inl (New ''transaction is nil''))
      | Some t \<Rightarrow>
          (case chainID of
             None \<Rightarrow> ret (Inl (New ''chain ID is nil''))
           | Some c \<Rightarrow>
               (case cr_SignTx crypto t c (pk_key service) of
                  Inl err \<Rightarrow> ret (Inl (Wrap ''sign transaction: '' err []))
                | Inr stx \<Rightarrow> ret (Inr stx))))"

definition private_key_signer :: "'k Crypto \<Rightarrow> 'k PrivateKeyService \<Rightarrow> 'w Signer" where
  "private_key_signer crypto service =
     \<lparr>sg_Address = Signer_Address service,
      sg_SignTransaction = (\<lambda>tx chainID. SignTransaction crypto service (Some tx) (Some chainID))\<rparr>"

text \<open>
  Signing changes the signature and nothing else: what \<open>types.SignTx\<close> documents, as a
  property of the parameter.
\<close>

definition signs_only :: "'k Crypto \<Rightarrow> bool" where
  "signs_only crypto \<longleftrightarrow>
     (\<forall>tx c k stx. cr_SignTx crypto tx c k = Inr stx
        \<longrightarrow> stx = tx\<lparr>tx_Signature := tx_Signature stx\<rparr>)"

lemma SignTransaction_law:
  assumes "SignTransaction crypto service tx c w = (r, w')"
  shows "w' = w"
  using assms by (auto simp: SignTransaction_def ret_eq split: option.splits sum.splits)

lemma SignTransaction_Inr:
  assumes "SignTransaction crypto service (Some tx) (Some c) w = (Inr stx, w')"
  shows "cr_SignTx crypto tx c (pk_key service) = Inr stx"
  using assms by (auto simp: SignTransaction_def ret_eq split: sum.splits)

end
