(* ===== verification/Telegram_Commands.thy ===== *)
theory Telegram_Commands
  imports Core_Types Go_Strings
begin

text \<open>
  The pure parts of \<open>internal/interactions/telegram\<close>: authorization and parsing
  (\<open>commands.go\<close>), the escaping of Markdown (\<open>formatter.go\<close>) and the request for a threshold
  change (\<open>thresholds.go\<close>). The map of allowed users is the function of its lookups.
\<close>

subsection \<open>Authorization and parsing\<close>

record Authorization =
  auth_ChatID :: int64
  auth_AllowedUserIDs :: "int64 \<Rightarrow> bool"

definition Authorization_Check :: "Authorization \<Rightarrow> int64 \<Rightarrow> int64 \<Rightarrow> gerror option" where
  "Authorization_Check auth chatID userID =
     (if chatID \<noteq> auth_ChatID auth
      then Some (Wrap [] (Var ErrUnauthorizedTelegramCommand)
             ('': telegram chat '' @ dec_int (sint chatID) @ '' is not authorized''))
      else if \<not> auth_AllowedUserIDs auth userID
      then Some (Wrap [] (Var ErrUnauthorizedTelegramCommand)
             ('': telegram user '' @ dec_int (sint userID) @ '' is not authorized''))
      else None)"

record ParsedCommand =
  cmd_Name :: string
  cmd_Args :: "string list"

definition ParseCommand :: "string \<Rightarrow> ParsedCommand" where
  "ParseCommand text =
     (case Fields (TrimSpace text) of
        [] \<Rightarrow> \<lparr>cmd_Name = [], cmd_Args = []\<rparr>
      | name # args \<Rightarrow> \<lparr>cmd_Name = name, cmd_Args = args\<rparr>)"

lemma Authorization_Check_None:
  "Authorization_Check auth chatID userID = None \<longleftrightarrow>
     chatID = auth_ChatID auth \<and> auth_AllowedUserIDs auth userID"
  by (auto simp: Authorization_Check_def)

lemma Authorization_Check_Some:
  "Authorization_Check auth chatID userID = Some err \<Longrightarrow> errors_Is err ErrUnauthorizedTelegramCommand"
  by (auto simp: Authorization_Check_def split: if_splits)

subsection \<open>The library behind the bot\<close>

text \<open>
  What the program uses of \<open>tgbotapi\<close>: the fields of an update, and the calls of a bot, which are
  parameters. \<open>GetUpdates\<close> takes the offset of its configuration (the timeout is constant).
\<close>

record Message =
  um_Chat :: "int64 option"
  um_From :: "int64 option"
  um_Text :: string

record Update =
  up_UpdateID :: int64
  up_Message :: "Message option"

record 'w Bot =
  bot_Token :: string
  bot_GetUpdates :: "int64 \<Rightarrow> ('w, gerror + Update list) io"
  bot_Send :: "int64 \<Rightarrow> string \<Rightarrow> ('w, gerror option) io"

subsection \<open>Escaping\<close>

definition markdownV2Escapes :: "char list" where
  "markdownV2Escapes = ''_*[]()~`>#+-=|{}.!''"

definition EscapeMarkdownV2 :: "string \<Rightarrow> string" where
  "EscapeMarkdownV2 input =
     fold (\<lambda>token result. ReplaceAll result [token] [CHR 0x5C, token]) markdownV2Escapes
       (ReplaceAll input [CHR 0x5C] [CHR 0x5C, CHR 0x5C])"

text \<open>The specification: one pass that puts a backslash before each reserved character.\<close>

definition escape_char :: "char list \<Rightarrow> char \<Rightarrow> string" where
  "escape_char reserved c = (if c \<in> set reserved then [CHR 0x5C, c] else [c])"

lemma ReplaceAll_escape:
  assumes "t \<notin> set reserved" "CHR 0x5C \<noteq> t"
  shows "ReplaceAll (concat (map (escape_char reserved) s)) [t] [CHR 0x5C, t] =
    concat (map (escape_char (t # reserved)) s)"
  using assms by (induction s) (auto simp: ReplaceAll_char escape_char_def)

lemma fold_escape:
  assumes "distinct (ts @ reserved)" "CHR 0x5C \<notin> set ts"
  shows "fold (\<lambda>token result. ReplaceAll result [token] [CHR 0x5C, token]) ts
      (concat (map (escape_char reserved) s)) =
    concat (map (escape_char (rev ts @ reserved)) s)"
  using assms
proof (induction ts arbitrary: reserved)
  case (Cons t ts)
  then show ?case using Cons.IH [of "t # reserved"] by (simp add: ReplaceAll_escape)
qed simp

lemma EscapeMarkdownV2_one_pass:
  "EscapeMarkdownV2 s = concat (map (escape_char (CHR 0x5C # markdownV2Escapes)) s)"
proof -
  have "ReplaceAll s [CHR 0x5C] [CHR 0x5C, CHR 0x5C] = concat (map (escape_char [CHR 0x5C]) s)"
    by (induction s) (simp_all add: ReplaceAll_char escape_char_def)
  moreover have "distinct (markdownV2Escapes @ [CHR 0x5C])" "CHR 0x5C \<notin> set markdownV2Escapes"
    by (simp_all add: markdownV2Escapes_def)
  ultimately have "EscapeMarkdownV2 s = concat (map (escape_char (rev markdownV2Escapes @ [CHR 0x5C])) s)"
    unfolding EscapeMarkdownV2_def by (simp only: fold_escape not_False_eq_True)
  also have "escape_char (rev markdownV2Escapes @ [CHR 0x5C]) = escape_char (CHR 0x5C # markdownV2Escapes)"
    by (rule ext) (simp add: escape_char_def)
  finally show ?thesis .
qed

text \<open>Reading the escapes back.\<close>

fun unescape :: "string \<Rightarrow> string" where
  "unescape [] = []"
| "unescape [c] = [c]"
| "unescape (c # d # s) = (if c = CHR 0x5C then d # unescape s else c # unescape (d # s))"

lemma unescape_plain: "c \<noteq> CHR 0x5C \<Longrightarrow> unescape (c # s) = c # unescape s"
  by (cases s) simp_all

lemma unescape_escaped:
  "CHR 0x5C \<in> set reserved \<Longrightarrow> unescape (concat (map (escape_char reserved) s)) = s"
proof (induction s)
  case (Cons c s)
  then show ?case by (auto simp: escape_char_def intro!: unescape_plain [THEN trans])
qed simp

subsection \<open>Threshold changes\<close>

record ThresholdSetRequest =
  tq_ModuleID :: string
  tq_Key :: string
  tq_Value :: string
  tq_UserID :: int64

record ThresholdConfirmation =
  th_ID :: string
  th_Request :: ThresholdSetRequest
  th_Message :: string

definition allowedThresholdKeys :: "(MonitorModuleID \<times> string list) list" where
  "allowedThresholdKeys =
     [(ModuleSharePriceLoss, [''loss_warn_bps'', ''loss_urgent_bps'']),
      (ModuleWithdrawLiquidity, [''idle_warn_threshold_usdc'', ''idle_urgent_threshold_usdc'']),
      (ModuleVaultState, [''change_severity''])]"

definition threshold_id :: "ThresholdSetRequest \<Rightarrow> string" where
  "threshold_id request =
     ''threshold:'' @ tq_ModuleID request @ '':'' @ tq_Key request @ '':'' @ dec_int (sint (tq_UserID request))"

definition BuildThresholdConfirmation :: "ThresholdSetRequest \<Rightarrow> gerror + ThresholdConfirmation" where
  "BuildThresholdConfirmation request =
     (case map_of allowedThresholdKeys (tq_ModuleID request) of
        None \<Rightarrow> Inl (New (''unknown module '' @ Quote (tq_ModuleID request)))
      | Some keys \<Rightarrow>
          if tq_Key request \<notin> set keys
          then Inl (New (''threshold key '' @ Quote (tq_Key request) @ '' is not allowed for module '' @
                 Quote (tq_ModuleID request)))
          else Inr \<lparr>th_ID = threshold_id request, th_Request = request,
                 th_Message = ''Confirm threshold override '' @ tq_ModuleID request @ '' '' @
                   tq_Key request @ ''='' @ tq_Value request\<rparr>)"

definition allowed_change :: "ThresholdSetRequest \<Rightarrow> bool" where
  "allowed_change request \<longleftrightarrow>
     (case map_of allowedThresholdKeys (tq_ModuleID request) of
        None \<Rightarrow> False | Some keys \<Rightarrow> tq_Key request \<in> set keys)"

lemma BuildThresholdConfirmation_Inr:
  "BuildThresholdConfirmation request = Inr confirmation \<longleftrightarrow>
     allowed_change request \<and>
     confirmation = \<lparr>th_ID = threshold_id request, th_Request = request,
       th_Message = ''Confirm threshold override '' @ tq_ModuleID request @ '' '' @
         tq_Key request @ ''='' @ tq_Value request\<rparr>"
  by (auto simp: BuildThresholdConfirmation_def allowed_change_def split: option.splits if_splits)

subsection \<open>Properties\<close>

text \<open>Escaping for Telegram, done as eighteen replacements after the one for the backslash, is
  one pass that puts a backslash before every reserved character and before the backslash, and
  no more: dropping those backslashes gives the text back.\<close>

theorem escape_is_one_pass:
  "EscapeMarkdownV2 s = concat (map (escape_char (CHR 0x5C # markdownV2Escapes)) s) \<and>
   unescape (EscapeMarkdownV2 s) = s"
  by (simp add: EscapeMarkdownV2_one_pass unescape_escaped)

end
