(* ===== verification/World.thy ===== *)
theory World
  imports Morpho_Client Storage Signer Telegram_Commands
begin

text \<open>
  The world the components run in: the log of everything that was asked of the outside, in
  order, and the database. \<open>Outside\<close> answers each request from the log so far, with no other
  restriction: the RPC endpoints may disagree, change their answers and fail at any time, the
  database may refuse any statement, and time may be anything. A statement about the program
  in this world, for every \<open>Outside\<close>, is a statement for every behaviour of the outside.
\<close>

datatype os_call =
    ReadFile | MkdirAll | OpenLog | CloseLog
  | SqlOpen | SqlPing | SqlMigrations | SqlProvider | SqlUp | SqlClose
  | NewBotAPI | WriteStdout | WriteStderr

datatype request =
    RqClock
  | RqSystem os_call string
  | RqFailed os_call string
  | RqSql string
  | RqCallContract nat CallMsg bigint
  | RqPendingNonce nat address
  | RqGasPrice nat
  | RqGasTipCap nat
  | RqEstimateGas nat CallMsg
  | RqSend nat Transaction
  | RqReceipt nat hash
  | RqChainID nat
  | RqClose nat
  | RqDial string
  | RqDialFailed string
  | RqUpdates int64
  | RqMessage int64 string

type_synonym log = "request list"

record world =
  wd_log :: log
  wd_db :: Database

record Outside =
  out_Clock :: "log \<Rightarrow> Time"
  out_Sql :: "log \<Rightarrow> string \<Rightarrow> string option"
  out_CallContract :: "nat \<Rightarrow> log \<Rightarrow> CallMsg \<Rightarrow> string + bytes"
  out_PendingNonce :: "nat \<Rightarrow> log \<Rightarrow> address \<Rightarrow> string + uint64"
  out_GasPrice :: "nat \<Rightarrow> log \<Rightarrow> string + bigint"
  out_GasTipCap :: "nat \<Rightarrow> log \<Rightarrow> string + bigint"
  out_EstimateGas :: "nat \<Rightarrow> log \<Rightarrow> CallMsg \<Rightarrow> string + uint64"
  out_Send :: "nat \<Rightarrow> log \<Rightarrow> Transaction \<Rightarrow> string option"
  out_Receipt :: "nat \<Rightarrow> log \<Rightarrow> hash \<Rightarrow> string + Receipt"
  out_ChainID :: "nat \<Rightarrow> log \<Rightarrow> string + bigint"
  out_HashText :: "hash \<Rightarrow> string"
  out_Dial :: "log \<Rightarrow> string \<Rightarrow> string option"
  out_System :: "log \<Rightarrow> os_call \<Rightarrow> string \<Rightarrow> string option"
  out_File :: "log \<Rightarrow> string \<Rightarrow> bytes"
  out_Getenv :: "string \<Rightarrow> string"
  out_Updates :: "log \<Rightarrow> int64 \<Rightarrow> string + Update list"
  out_Message :: "log \<Rightarrow> int64 \<Rightarrow> string \<Rightarrow> string option"

definition ask :: "request \<Rightarrow> (log \<Rightarrow> 'a) \<Rightarrow> (world, 'a) io" where
  "ask r answer w = (answer (wd_log w), w\<lparr>wd_log := wd_log w @ [r]\<rparr>)"

definition system_clock :: "Outside \<Rightarrow> world Clock" where
  "system_clock out = ask RqClock (out_Clock out)"

definition sql_driver :: "Outside \<Rightarrow> world Driver" where
  "sql_driver out =
     \<lparr>dr_Get = wd_db, dr_Put = (\<lambda>db w. w\<lparr>wd_db := db\<rparr>),
      dr_Fault = (\<lambda>name. ask (RqSql name) (\<lambda>l. libraryE (out_Sql out l name))),
      dr_HashText = out_HashText out\<rparr>"

definition endpoint :: "Outside \<Rightarrow> nat \<Rightarrow> world RPCClient" where
  "endpoint out i =
     \<lparr>rpc_CallContract = (\<lambda>msg blk. ask (RqCallContract i msg blk) (\<lambda>l. library (out_CallContract out i l msg))),
      rpc_PendingNonceAt = (\<lambda>a. ask (RqPendingNonce i a) (\<lambda>l. library (out_PendingNonce out i l a))),
      rpc_SuggestGasPrice = ask (RqGasPrice i) (\<lambda>l. library (out_GasPrice out i l)),
      rpc_SuggestGasTipCap = ask (RqGasTipCap i) (\<lambda>l. library (out_GasTipCap out i l)),
      rpc_EstimateGas = (\<lambda>msg. ask (RqEstimateGas i msg) (\<lambda>l. library (out_EstimateGas out i l msg))),
      rpc_SendTransaction = (\<lambda>tx. ask (RqSend i tx) (\<lambda>l. libraryE (out_Send out i l tx))),
      rpc_TransactionReceipt = (\<lambda>h. ask (RqReceipt i h) (\<lambda>l. library (out_Receipt out i l h))),
      rpc_ChainID = ask (RqChainID i) (\<lambda>l. library (out_ChainID out i l)),
      rpc_Close = ask (RqClose i) (\<lambda>l. ())\<rparr>"

definition telegram_bot :: "Outside \<Rightarrow> string \<Rightarrow> world Bot" where
  "telegram_bot out token =
     \<lparr>bot_Token = token,
      bot_GetUpdates = (\<lambda>offset. ask (RqUpdates offset) (\<lambda>l. library (out_Updates out l offset))),
      bot_Send = (\<lambda>chat text. ask (RqMessage chat text) (\<lambda>l. libraryE (out_Message out l chat text)))\<rparr>"

text \<open>A call of the operating system or of a library on it; one that fails is logged as such.\<close>

definition os_call :: "Outside \<Rightarrow> os_call \<Rightarrow> string \<Rightarrow> (world, gerror option) io" where
  "os_call out call arg w =
     (case out_System out (wd_log w) call arg of
        Some err \<Rightarrow> (Some (New err), w\<lparr>wd_log := wd_log w @ [RqFailed call arg]\<rparr>)
      | None \<Rightarrow> (None, w\<lparr>wd_log := wd_log w @ [RqSystem call arg]\<rparr>))"

definition sends_of :: "log \<Rightarrow> Transaction list" where
  "sends_of l = concat (map (\<lambda>r. case r of RqSend i tx \<Rightarrow> [tx] | _ \<Rightarrow> []) l)"

definition world_sent :: "world \<Rightarrow> Transaction list" where
  "world_sent w = sends_of (wd_log w)"

text \<open>An endpoint 0 and \<open>n\<close> fallbacks.\<close>

definition rpc_pool :: "Outside \<Rightarrow> nat \<Rightarrow> world MultiClient" where
  "rpc_pool out n = NewMultiClient (Some (endpoint out 0)) (map (\<lambda>i. Some (endpoint out (Suc i))) [0..<n])"

text \<open>
  Dialling: each connection that was opened gets the next number. \<open>opened\<close> counts the
  connections opened and not closed.
\<close>

definition dialled_before :: "log \<Rightarrow> nat" where
  "dialled_before l = length (filter (\<lambda>r. case r of RqDial url \<Rightarrow> True | _ \<Rightarrow> False) l)"

definition world_dial :: "Outside \<Rightarrow> string \<Rightarrow> (world, gerror + world RPCClient) io" where
  "world_dial out url w =
     (case out_Dial out (wd_log w) url of
        Some err \<Rightarrow> (Inl (New err), w\<lparr>wd_log := wd_log w @ [RqDialFailed url]\<rparr>)
      | None \<Rightarrow> (Inr (endpoint out (dialled_before (wd_log w))), w\<lparr>wd_log := wd_log w @ [RqDial url]\<rparr>))"

definition opened :: "world \<Rightarrow> int" where
  "opened w = (\<Sum>r \<leftarrow> wd_log w. case r of RqDial url \<Rightarrow> 1 | RqClose i \<Rightarrow> - 1 | _ \<Rightarrow> 0)"

text \<open>Likewise the databases and the log files that are open, and all three together.\<close>

definition balance :: "os_call \<Rightarrow> os_call \<Rightarrow> world \<Rightarrow> int" where
  "balance up down w = (\<Sum>r \<leftarrow> wd_log w. case r of
     RqSystem call arg \<Rightarrow> (if call = up then 1 else if call = down then - 1 else 0) | _ \<Rightarrow> 0)"

definition handles :: "world \<Rightarrow> int \<times> int \<times> int" where
  "handles w = (opened w, balance SqlOpen SqlClose w, balance OpenLog CloseLog w)"

subsection \<open>The contracts hold in this world\<close>

lemma ask_eq: "ask r f w = (f (wd_log w), w\<lparr>wd_log := wd_log w @ [r]\<rparr>)"
  by (simp add: ask_def)

lemma sends_of_append [simp]: "sends_of (l @ m) = sends_of l @ sends_of m"
  by (simp add: sends_of_def)

lemma sends_of_simps [simp]:
  "sends_of [] = []" "sends_of [RqClock] = []" "sends_of [RqSql s] = []"
  "sends_of [RqCallContract i m b] = []" "sends_of [RqPendingNonce i a] = []"
  "sends_of [RqGasPrice i] = []" "sends_of [RqGasTipCap i] = []" "sends_of [RqEstimateGas i m] = []"
  "sends_of [RqSend i tx] = [tx]" "sends_of [RqReceipt i h] = []" "sends_of [RqChainID i] = []"
  "sends_of [RqClose i] = []" "sends_of [RqDial url] = []" "sends_of [RqDialFailed url] = []"
  "sends_of [RqUpdates offset] = []" "sends_of [RqMessage chat text] = []"
  "sends_of [RqSystem call arg] = []" "sends_of [RqFailed call arg] = []"
  by (simp_all add: sends_of_def)

text \<open>
  How far a call moves the world: by a reflexive and transitive relation, which every
  combination of calls keeps.
\<close>

definition moves :: "('w \<Rightarrow> 'w \<Rightarrow> bool) \<Rightarrow> ('w, 'a) io \<Rightarrow> bool" where
  "moves R m \<longleftrightarrow> (\<forall>w. R w (snd (m w)))"

lemma movesD: "moves R m \<Longrightarrow> m w = (r, w') \<Longrightarrow> R w w'"
  by (auto simp: moves_def dest!: spec [of _ w])

lemma movesI: "(\<And>w r w'. m w = (r, w') \<Longrightarrow> R w w') \<Longrightarrow> moves R m"
  unfolding moves_def by (metis surj_pair snd_conv)

lemma moves_combinators:
  assumes "reflp R" "transp R"
  shows "moves R (ret x)"
    and "moves R m \<Longrightarrow> (\<And>x. moves R (k x)) \<Longrightarrow> moves R (bindIO m k)"
    and "moves R m1 \<Longrightarrow> (\<And>e. moves R (h e)) \<Longrightarrow> (\<And>x. moves R (k1 x)) \<Longrightarrow> moves R (tryE m1 h k1)"
    and "moves R m2 \<Longrightarrow> (\<And>x. moves R (k2 x)) \<Longrightarrow> moves R (bindE m2 k2)"
    and "moves R m3 \<Longrightarrow> (\<And>e. moves R (h3 e)) \<Longrightarrow> moves R k3 \<Longrightarrow> moves R (onErr m3 h3 k3)"
    and "moves R t \<Longrightarrow> moves R f \<Longrightarrow> moves R (if b then t else f)"
    and "moves R n \<Longrightarrow> (\<And>y. moves R (g y)) \<Longrightarrow> moves R (case o1 of None \<Rightarrow> n | Some y \<Rightarrow> g y)"
    and "(\<And>a. moves R (p a)) \<Longrightarrow> (\<And>b. moves R (q b)) \<Longrightarrow> moves R (case s1 of Inl a \<Rightarrow> p a | Inr b \<Rightarrow> q b)"
    and "(\<And>op. op \<in> set ops \<Longrightarrow> moves R op) \<Longrightarrow> moves R (firstAnswer what le ops)"
proof -
  note rules = reflpD [OF assms(1)] transpD [OF assms(2)]
  show "moves R (ret x)" by (rule movesI) (auto simp: ret_def rules)
  show "moves R m \<Longrightarrow> (\<And>x. moves R (k x)) \<Longrightarrow> moves R (bindIO m k)"
    by (rule movesI) (elim bindIO_elim; metis movesD rules(2))
  show "moves R m1 \<Longrightarrow> (\<And>e. moves R (h e)) \<Longrightarrow> (\<And>x. moves R (k1 x)) \<Longrightarrow> moves R (tryE m1 h k1)"
    by (rule movesI) (elim tryE_elim; metis movesD rules(2))
  show "moves R m2 \<Longrightarrow> (\<And>x. moves R (k2 x)) \<Longrightarrow> moves R (bindE m2 k2)"
    by (rule movesI) (elim bindE_elim; metis movesD rules(2))
  show "moves R m3 \<Longrightarrow> (\<And>e. moves R (h3 e)) \<Longrightarrow> moves R k3 \<Longrightarrow> moves R (onErr m3 h3 k3)"
    by (rule movesI) (elim onErr_elim; metis movesD rules(2))
  show "moves R t \<Longrightarrow> moves R f \<Longrightarrow> moves R (if b then t else f)" by simp
  show "moves R n \<Longrightarrow> (\<And>y. moves R (g y)) \<Longrightarrow> moves R (case o1 of None \<Rightarrow> n | Some y \<Rightarrow> g y)"
    by (cases o1) simp_all
  show "(\<And>a. moves R (p a)) \<Longrightarrow> (\<And>b. moves R (q b)) \<Longrightarrow> moves R (case s1 of Inl a \<Rightarrow> p a | Inr b \<Rightarrow> q b)"
    by (cases s1) simp_all
  assume ops: "\<And>op. op \<in> set ops \<Longrightarrow> moves R op"
  show "moves R (firstAnswer what le ops)"
  proof (rule movesI)
    fix w r w'
    assume "firstAnswer what le ops w = (r, w')"
    with ops show "R w w'"
    proof (induction what le ops w rule: firstAnswer.induct)
      case (2 what le op ops w)
      obtain a w1 where a: "op w = (a, w1)" by (cases "op w")
      then have "R w w1" using 2(2) movesD by (metis list.set_intros(1))
      with 2 a show ?case by (cases a) (auto intro: rules(2))
    qed (simp add: rules(1))
  qed
qed

text \<open>
  Once the program has started, everything but \<open>SendTransaction\<close> and \<open>GetUpdates\<close> asks harmless
  things only: a \<open>calm\<close> call, which sends nothing and opens and closes nothing. A \<open>quiet\<close> one
  leaves the database alone as well.
\<close>

definition harmless :: "request \<Rightarrow> bool" where
  "harmless r \<longleftrightarrow> (case r of
     RqSend i tx \<Rightarrow> False | RqUpdates offset \<Rightarrow> False | RqDial url \<Rightarrow> False | RqClose i \<Rightarrow> False
   | RqSystem call arg \<Rightarrow> False | _ \<Rightarrow> True)"

lemma harmless_simps [simp]:
  "harmless RqClock" "harmless (RqSql s)" "harmless (RqCallContract i m b)" "harmless (RqPendingNonce i a)"
  "harmless (RqGasPrice i)" "harmless (RqGasTipCap i)" "harmless (RqEstimateGas i m)"
  "\<not> harmless (RqSend i tx)" "harmless (RqReceipt i h)" "harmless (RqChainID i)"
  "\<not> harmless (RqClose i)" "\<not> harmless (RqDial url)" "harmless (RqDialFailed url)"
  "\<not> harmless (RqUpdates offset)" "harmless (RqMessage chat text)"
  "\<not> harmless (RqSystem call arg)" "harmless (RqFailed call arg)"
  by (simp_all add: harmless_def)

definition calm_step :: "world \<Rightarrow> world \<Rightarrow> bool" where
  "calm_step w w' \<longleftrightarrow> (\<exists>l. wd_log w' = wd_log w @ l \<and> list_all harmless l)"

definition quiet_step :: "world \<Rightarrow> world \<Rightarrow> bool" where
  "quiet_step w w' \<longleftrightarrow> calm_step w w' \<and> wd_db w' = wd_db w"

abbreviation calm :: "(world, 'a) io \<Rightarrow> bool" where "calm \<equiv> moves calm_step"
abbreviation quiet :: "(world, 'a) io \<Rightarrow> bool" where "quiet \<equiv> moves quiet_step"

lemma calm_order: "reflp calm_step" "transp calm_step"
  by (auto simp: reflp_def transp_def calm_step_def)

lemma quiet_order: "reflp quiet_step" "transp quiet_step"
  using calm_order by (auto simp: reflp_def transp_def quiet_step_def)

lemma harmless_sends: "list_all harmless l \<Longrightarrow> sends_of l = []"
  by (induction l) (auto simp: sends_of_def harmless_def split: request.splits)

lemma harmless_handles:
  assumes "list_all harmless l"
  shows "handles (w\<lparr>wd_log := wd_log w @ l, wd_db := db\<rparr>) = handles w"
proof -
  have "(\<Sum>r \<leftarrow> l. case r of RqDial url \<Rightarrow> 1 | RqClose i \<Rightarrow> - 1 | _ \<Rightarrow> 0) = (0 :: int)"
    and "(\<Sum>r \<leftarrow> l. case r of RqSystem call arg \<Rightarrow>
      (if call = up then 1 else if call = down then - 1 else 0) | _ \<Rightarrow> 0) = (0 :: int)" for up down
    using assms by (induction l; auto simp: harmless_def split: request.splits)+
  then show ?thesis by (simp add: handles_def opened_def balance_def)
qed

definition holds_step :: "world \<Rightarrow> world \<Rightarrow> bool" where
  "holds_step w w' \<longleftrightarrow> handles w' = handles w"

lemma holds_order: "reflp holds_step" "transp holds_step"
  by (auto simp: reflp_def transp_def holds_step_def)

lemma calm_holds: "calm_step w w' \<Longrightarrow> holds_step w w'"
  unfolding calm_step_def holds_step_def
  by (cases w; cases w') (auto dest: harmless_handles [where w = w and db = "wd_db w'"])

lemma quietD:
  assumes "quiet m" "m w = (r, w')"
  shows "world_sent w' = world_sent w \<and> wd_db w' = wd_db w"
  using movesD [OF assms] by (auto simp: quiet_step_def calm_step_def world_sent_def harmless_sends)

lemma quiet_calm: "quiet m \<Longrightarrow> calm m"
  by (simp add: moves_def quiet_step_def)

named_theorems quiet_intros \<open>calls that send nothing and write nothing\<close>
named_theorems calm_intros \<open>calls that send nothing\<close>

lemmas quiet_combinators [quiet_intros] = moves_combinators(1-5,9) [OF quiet_order]
lemmas calm_combinators [calm_intros] = moves_combinators [OF calm_order]

lemma quiet_ask: "harmless r \<Longrightarrow> quiet (ask r f)"
  by (rule movesI) (auto simp: ask_def quiet_step_def calm_step_def)

lemmas quiet_firstAnswer = moves_combinators(9) [OF quiet_order]

lemma quiet_readAll:
  "(\<And>i. quiet (op (endpoint out i))) \<Longrightarrow> quiet (readAll what op (rpc_pool out n))"
  by (auto simp: readAll_def rpc_pool_def NewMultiClient_def rpcClients_def intro!: quiet_firstAnswer)

lemma quiet_reads [quiet_intros]:
  "quiet (CallContract (rpc_pool out n) msg blk)"
  "quiet (PendingNonceAt (rpc_pool out n) a)"
  "quiet (SuggestGasPrice (rpc_pool out n))"
  "quiet (SuggestGasTipCap (rpc_pool out n))"
  "quiet (EstimateGas (rpc_pool out n) msg)"
  "quiet (TransactionReceipt (rpc_pool out n) h)"
  "quiet (ChainID (rpc_pool out n))"
  unfolding CallContract_def PendingNonceAt_def SuggestGasPrice_def SuggestGasTipCap_def
    EstimateGas_def TransactionReceipt_def ChainID_def
  by (rule quiet_readAll, simp add: endpoint_def quiet_ask)+

lemma quiet_system_clock [quiet_intros]: "quiet (system_clock out)"
  by (simp add: system_clock_def quiet_ask)

lemma quiet_SignTransaction [quiet_intros]: "quiet (SignTransaction crypto service tx c)"
  by (rule movesI) (auto dest: SignTransaction_law intro: reflpD [OF quiet_order(1)])

interpretation sql: driver "sql_driver out" for out
  by unfold_locales (auto simp: sql_driver_def ask_def)

interpretation rpc: dialer "world_dial out" opened for out
  by unfold_locales (auto simp: world_dial_def opened_def endpoint_def ask_def split: option.splits)

text \<open>The first client that is dialled with \<open>n + 1\<close> URLs is the pool of an endpoint and \<open>n\<close> fallbacks.\<close>

lemma world_dial_Inr:
  assumes "world_dial out url w = (Inr c, w1)"
  shows "c = endpoint out (dialled_before (wd_log w))"
    "dialled_before (wd_log w1) = Suc (dialled_before (wd_log w))"
  using assms by (auto simp: world_dial_def dialled_before_def split: option.splits)

lemma dialFallbacks_pool:
  assumes "dialFallbacks (world_dial out) primary fs urls w = (Inr m, w')"
    and "dialled_before (wd_log w) = k"
  shows "m = NewMultiClient (Some primary) (fs @ map (\<lambda>i. Some (endpoint out i)) [k..<k + length urls])"
  using assms
proof (induction urls arbitrary: fs w k)
  case (Cons url urls)
  obtain c w1 where d: "world_dial out url w = (Inr c, w1)"
    using Cons.prems(1) by (auto split: sum.splits prod.splits)
  note c = world_dial_Inr [OF d, unfolded Cons.prems(2)]
  have "m = NewMultiClient (Some primary)
      ((fs @ [Some c]) @ map (\<lambda>i. Some (endpoint out i)) [Suc k..<Suc k + length urls])"
    using Cons.prems(1) d c(2) by (intro Cons.IH) simp_all
  with c(1) show ?case by (simp add: upt_conv_Cons del: upt_Suc)
qed simp

lemma dialMulti_pool:
  assumes "dialMulti (world_dial out) url urls w = (Inr m, w')" "dialled_before (wd_log w) = 0"
  shows "m = rpc_pool out (length urls)"
proof -
  obtain c w1 where d: "world_dial out url w = (Inr c, w1)"
      "dialFallbacks (world_dial out) c [] urls w1 = (Inr m, w')"
    using assms(1) unfolding dialMulti_def by (auto elim!: io_elims)
  from assms(2) world_dial_Inr [OF d(1)] have c: "c = endpoint out 0" "dialled_before (wd_log w1) = 1"
    by simp_all
  have "map (\<lambda>i. Some (endpoint out i)) [1..<1 + n] = map (\<lambda>i. Some (endpoint out (Suc i))) [0..<n]" for n
    using map_Suc_upt [of 0 n, symmetric] by (simp add: comp_def del: map_Suc_upt upt_Suc)
  with dialFallbacks_pool [OF d(2) c(2)] c(1) show ?thesis
    by (simp add: rpc_pool_def)
qed

subsection \<open>Properties\<close>

text \<open>An outside where everything answers, for the witnesses.\<close>

definition demo_outside :: Outside where
  "demo_outside = \<lparr>
     out_Clock = (\<lambda>l. 1778288523000000000 + int (length l)),
     out_Sql = (\<lambda>l s. None),
     out_CallContract = (\<lambda>i l m. Inr [5]),
     out_PendingNonce = (\<lambda>i l a. Inr 9),
     out_GasPrice = (\<lambda>i l. Inr (Some 3000000000)),
     out_GasTipCap = (\<lambda>i l. Inr (Some 1000000000)),
     out_EstimateGas = (\<lambda>i l m. Inr 200000),
     out_Send = (\<lambda>i l tx. None),
     out_Receipt = (\<lambda>i l h. Inl ''not found''),
     out_ChainID = (\<lambda>i l. Inr (Some 1)),
     out_HashText = (\<lambda>h. ''0x''), out_Dial = (\<lambda>l url. None),
     out_System = (\<lambda>l call arg. None), out_File = (\<lambda>l path. []), out_Getenv = (\<lambda>name. ''x''),
     out_Updates = (\<lambda>l offset. Inr []), out_Message = (\<lambda>l chat text. None)\<rparr>"

definition demo_confirmation :: PendingConfirmation where
  "demo_confirmation = \<lparr>pc_ID = ''c1'', pc_Kind = ''threshold_set'', pc_PayloadJSON = ''{}'',
     pc_RequestedByUserID = 42, pc_ExpiresAt = 60000000000, pc_CreatedAt = 0\<rparr>"

definition fresh_world :: world where
  "fresh_world = \<lparr>wd_log = [], wd_db = emptyDatabase\<rparr>"

lemma demo_writable: "writable 0" "writable 60000000000"
  by (simp_all add: writable_def year_of_def time_eval)

lemma demo_stored:
  "\<exists>w1. InsertPendingConfirmation (sql_driver demo_outside) demo_confirmation fresh_world = (None, w1)"
  by (simp add: InsertPendingConfirmation_def exec_stmt_def sql_driver_def io_simps ask_def
      demo_outside_def fresh_world_def emptyDatabase_def insert_confirmation_row_def)

lemma demo_no_fault: "\<forall>l name. out_Sql demo_outside l name = None"
  by (simp add: demo_outside_def)

lemma demo_consumed:
  "\<exists>w w1. consumePendingConfirmation (sql_driver demo_outside) ''c1'' 5 42 True w
     = (Inr demo_confirmation, w1)"
proof -
  obtain w1 where w1: "InsertPendingConfirmation (sql_driver demo_outside) demo_confirmation fresh_world
      = (None, w1)"
    using demo_stored by blast
  have "\<exists>w3. ConsumePendingConfirmationForUser (sql_driver demo_outside) (pc_ID demo_confirmation) 42 5 w1
      = (Inr demo_confirmation, w3)"
    by (rule sql.insert_consume_succeeds [OF w1])
      (simp_all add: demo_writable demo_confirmation_def sql_driver_def ask_def demo_no_fault)
  then show ?thesis
    by (auto simp: ConsumePendingConfirmationForUser_def demo_confirmation_def)
qed

text \<open>Dialling leaks no connection: a dial that fails on any endpoint has closed every
  connection it opened, and one that succeeds leaves open exactly one per endpoint; in a fresh
  world the client it returns then reads from the endpoints in the order of the URLs.\<close>

theorem dialling_leaks_nothing:
  "(case dialMulti (world_dial out) url urls w of (r, w') \<Rightarrow>
     opened w' = opened w + (case r of Inl e \<Rightarrow> 0 | Inr m \<Rightarrow> 1 + int (length urls))) \<and>
   (case dialMulti (world_dial out) url urls \<lparr>wd_log = [], wd_db = db\<rparr> of
      (Inl e, w') \<Rightarrow> True | (Inr m, w') \<Rightarrow> m = rpc_pool out (length urls))"
  by (auto split: prod.splits sum.splits dest: dialMulti_pool rpc.dialMulti_opened
      simp: dialled_before_def)






text \<open>An override that was stored without an error is the one in force for its module and
  key, and the one in force for every other module and key is unchanged.\<close>

theorem override_last_write:
  assumes "UpsertThresholdOverride (sql_driver out) moduleID key v userID at w = (None, w')"
  shows "override_value (wd_db w') m k =
    (if m = moduleID \<and> k = key then Some v else override_value (wd_db w) m k)"
  using sql.upsert_listed [OF assms] by (simp add: sql_driver_def)

theorem override_last_write_witness:
  "override_value (wd_db (snd (UpsertThresholdOverride (sql_driver demo_outside) ''m'' ''k'' ''7'' 42 0
     fresh_world))) ''m'' ''k'' = Some ''7''"
  using override_last_write [of demo_outside "''m''" "''k''" "''7''" 42 0 fresh_world
      "snd (UpsertThresholdOverride (sql_driver demo_outside) ''m'' ''k'' ''7'' 42 0 fresh_world)"
      "''m''" "''k''"]
  by (simp add: UpsertThresholdOverride_def exec_stmt_def sql_driver_def io_simps ask_def
      demo_outside_def fresh_world_def emptyDatabase_def upsert_override_def)

text \<open>A listing of recent events has at most 50 events and at most as many as asked for (one
  when fewer are asked for), only events that are not informational unless those are asked for,
  and each is the decoded form of a stored row; the rows come by descending creation text, then
  by descending identifier.\<close>

theorem recent_events_bounded:
  assumes "ListRecentEvents (sql_driver out) includeInfo limit w = (Inr events, w')"
  shows "length events \<le> 50 \<and> int (length events) \<le> max 1 limit \<and>
    (includeInfo \<or> (\<forall>e \<in> set events. ev_EventType e \<in>
       {EventWarning, EventError, EventSecurity, EventWithdrawal})) \<and>
    (\<exists>rows. set rows \<subseteq> set (db_events (wd_db w)) \<and> sorted_wrt recent_order rows \<and>
       list_all2 (\<lambda>r e. scanEventRecord r = Inr e) rows events)"
proof -
  let ?keep = "if includeInfo then (\<lambda>r. True) else notable_event"
  let ?n = "nat (clampRecentEventsLimit limit)"
  let ?rows = "select_recent ?keep ?n (wd_db w)"
  have "scan_rows scanEventRecord ?rows = Inr events"
    using sql.ListRecentEvents_Inr [OF assms] by (simp add: sql_driver_def)
  then have l: "list_all2 (\<lambda>r e. scanEventRecord r = Inr e) ?rows events"
    by (rule scan_rows_length)
  note law = select_recent_law [of ?keep ?n "wd_db w"]
  have "length events \<le> ?n" using law(1) list_all2_lengthD [OF l] by simp
  moreover have "?n \<le> 50" "int ?n \<le> max 1 limit"
    using clampRecentEventsLimit_range [of limit]
    by (auto simp: clampRecentEventsLimit_def minRecentEventsLimit_def maxRecentEventsLimit_def)
  moreover have "ev_EventType e \<in> {EventWarning, EventError, EventSecurity, EventWithdrawal}"
    if e: "e \<in> set events" "\<not> includeInfo" for e
  proof -
    obtain r where "r \<in> set ?rows" "scanEventRecord r = Inr e"
      using list_all2_mem2 [OF l e(1)] by blast
    with law(2) e(2) show ?thesis
      by (auto simp: notable_event_def dest!: scanEventRecord_Inr(1))
  qed
  ultimately show ?thesis using l law(2,3) by (auto split: if_splits)
qed

definition demo_events :: world where
  "demo_events = snd (InsertEvent (sql_driver demo_outside) EventWarning ''x'' None 0 fresh_world)"

lemma demo_listing:
  "\<exists>w'. ListRecentEvents (sql_driver demo_outside) False 500 demo_events =
     (Inr [\<lparr>ev_EventType = EventWarning, ev_Message = ''x'', ev_Fields = None, ev_CreatedAt = 0\<rparr>], w')"
  by (simp add: ListRecentEvents_def Let_def query_stmt_def demo_events_def InsertEvent_def exec_stmt_def
      sql_driver_def io_simps ask_def demo_outside_def fresh_world_def emptyDatabase_def insert_event_def
      select_recent_def sort_by_def notable_event_def scanEventRecord_stored text_map_def demo_writable
      clampRecentEventsLimit_def minRecentEventsLimit_def maxRecentEventsLimit_def)

theorem recent_events_bounded_witness:
  "\<exists>w' events. ListRecentEvents (sql_driver demo_outside) False 500 demo_events = (Inr events, w') \<and>
     length events \<le> 50 \<and> events \<noteq> []"
  using demo_listing recent_events_bounded [of demo_outside False 500 demo_events] by fastforce

text \<open>An event that was recorded without an error is one more row, and that row decodes to
  exactly the type, message, fields and time recorded, when the texts of the fields are valid
  UTF-8 and the year has four digits.\<close>

theorem event_round_trip:
  assumes "Repositories_Record (sql_driver out) ty m flds at w = (None, w')"
    and "text_map flds" "writable at"
  shows "\<exists>row. db_events (wd_db w') = db_events (wd_db w) @ [row] \<and>
    scanEventRecord row = Inr \<lparr>ev_EventType = ty, ev_Message = m, ev_Fields = flds, ev_CreatedAt = at\<rparr>"
  using sql.InsertEvent_None [OF assms(1) [unfolded Repositories_Record_def]]
    scanEventRecord_stored [OF assms(2,3)]
  by (auto simp: sql_driver_def)

theorem event_round_trip_witness:
  "\<exists>row. db_events (wd_db demo_events) = [row] \<and> scanEventRecord row =
     Inr \<lparr>ev_EventType = EventWarning, ev_Message = ''x'', ev_Fields = None, ev_CreatedAt = 0\<rparr>"
  using event_round_trip [of demo_outside EventWarning "''x''" None 0 fresh_world demo_events]
  by (simp add: Repositories_Record_def demo_events_def InsertEvent_def exec_stmt_def sql_driver_def
      io_simps ask_def demo_outside_def fresh_world_def emptyDatabase_def insert_event_def text_map_def
      demo_writable)


end
