(* ===== verification/App_Runtime.thy ===== *)
theory App_Runtime
  imports World Morpho_Factory
begin

text \<open>
  The wiring of \<open>internal/app/runtime.go\<close>: how the withdrawal service of the monitor mode is
  built from the configuration, the RPC client, the signer and the database, with the small
  pure functions of that file (\<open>parseAddress\<close>, \<open>sanitizeRuntimeError\<close>, \<open>redactValue\<close>,
  \<open>allowedUserIDs\<close>). go-ethereum's address parsing is the record \<open>AddressLib\<close>
  of theory \<open>Morpho_Factory\<close>.
\<close>

subsection \<open>Pure functions\<close>

definition parseAddress :: "AddressLib \<Rightarrow> string \<Rightarrow> string \<Rightarrow> gerror + address" where
  "parseAddress lib name v =
     (if \<not> al_IsHexAddress lib v
      then Inl (New (name @ '' must be a valid Ethereum address''))
      else let a = al_HexToAddress lib v in
           if a = 0 then Inl (New (name @ '' must be a valid Ethereum address'')) else Inr a)"

definition redacted :: string where
  "redacted = ''[REDACTED]''"

definition redactValue :: "string \<Rightarrow> string \<Rightarrow> string" where
  "redactValue message v = (if v = [] then message else ReplaceAll message v redacted)"

definition sanitizeRuntimeError :: "Secrets \<Rightarrow> gerror option \<Rightarrow> gerror option" where
  "sanitizeRuntimeError secrets err =
     (case err of
        None \<Rightarrow> None
      | Some e \<Rightarrow>
          (let message = foldl redactValue (error_text e)
                 [sec_PrivateKey secrets, sec_TelegramToken secrets, sec_PrimaryRPCURL secrets];
               message = foldl redactValue message (sec_FallbackRPCURLs secrets)
           in Some (New message)))"

definition allowedUserIDs :: "int64 list \<Rightarrow> int64 \<Rightarrow> bool" where
  "allowedUserIDs ids = (\<lambda>u. u \<in> set ids)"

subsection \<open>Redaction\<close>

text \<open>
  A secret that could not be confused with the redaction mark itself: it has no bracket and is
  no part of the word in the mark.
\<close>

definition redactable :: "string \<Rightarrow> bool" where
  "redactable secret \<longleftrightarrow> secret \<noteq> [] \<and> CHR ''['' \<notin> set secret \<and> CHR '']'' \<notin> set secret
     \<and> \<not> sublist secret ''REDACTED''"

lemma redactValue_absent:
  assumes "redactable secret" "v = secret \<or> \<not> sublist secret message"
  shows "\<not> sublist secret (redactValue message v)"
proof (cases "v = []")
  case True
  with assms show ?thesis by (auto simp: redactValue_def redactable_def)
next
  case False
  have "\<not> sublist secret (ReplaceAll message v (CHR ''['' # ''REDACTED'' @ [CHR '']'']))"
    using assms by (intro ReplaceAll_absent) (auto simp: redactable_def)
  with False show ?thesis by (simp add: redactValue_def redacted_def)
qed

lemma foldl_redactValue_absent:
  assumes "redactable secret" "secret \<in> set vs \<or> \<not> sublist secret message"
  shows "\<not> sublist secret (foldl redactValue message vs)"
  using assms(2)
proof (induction vs arbitrary: message)
  case (Cons v vs)
  then show ?case using redactValue_absent [OF assms(1), of v message] by auto
qed simp

lemma sanitizeRuntimeError_absent:
  assumes "redactable secret"
    and "secret \<in> set (sec_PrivateKey secrets # sec_TelegramToken secrets
           # sec_PrimaryRPCURL secrets # sec_FallbackRPCURLs secrets)"
    and "sanitizeRuntimeError secrets (Some err) = Some clean"
  shows "\<not> sublist secret (error_text clean)"
proof -
  let ?vs = "[sec_PrivateKey secrets, sec_TelegramToken secrets, sec_PrimaryRPCURL secrets]
    @ sec_FallbackRPCURLs secrets"
  have "\<not> sublist secret (foldl redactValue (error_text err) ?vs)"
    using assms(1,2) by (intro foldl_redactValue_absent) auto
  moreover have "error_text clean = foldl redactValue (error_text err) ?vs"
    using assms(3) by (auto simp: sanitizeRuntimeError_def Let_def)
  ultimately show ?thesis by simp
qed

subsection \<open>The withdrawal service of the deployment\<close>

text \<open>\<open>buildRuntime\<close> makes the signer's own address the owner of the position.\<close>

definition buildMorphoAdapter :: "Config \<Rightarrow> 'w MultiClient \<Rightarrow> address \<Rightarrow> address \<Rightarrow> address
    \<Rightarrow> 'w MorphoAdapter" where
  "buildMorphoAdapter cfg ethClient vault signerAddress receiver =
     \<lparr>ma_Ethereum = ethClient,
      ma_VaultClient = \<lparr>vc_Ethereum = ethClient, vc_Vault = vault\<rparr>,
      ma_Vault = vault, ma_Owner = signerAddress, ma_Receiver = receiver,
      ma_AssetSymbol = ec_AssetSymbol (cfg_Ethereum cfg),
      ma_AssetDecimals = ec_AssetDecimals (cfg_Ethereum cfg), ma_Clock = None\<rparr>"

definition buildWithdrawService :: "Config \<Rightarrow> 'w Clock \<Rightarrow> 'w Adapter option \<Rightarrow> 'w Signer option \<Rightarrow> 'w Submitter
    \<Rightarrow> 'w AttemptRepository \<Rightarrow> gerror + 'w Service" where
  "buildWithdrawService cfg systemClock adapter signer submitter repos =
     (case ParseDuration (gc_ReplacementTimeout (cfg_Gas cfg)) of
        Inl err \<Rightarrow> Inl err
      | Inr replacementTimeout \<Rightarrow>
     (case ParseGwei ''gas.max_fee_per_gas_gwei'' (gc_MaxFeePerGasGwei (cfg_Gas cfg)) of
        Inl err \<Rightarrow> Inl err
      | Inr maxFeeCap \<Rightarrow>
     (case ParseGwei ''gas.max_priority_fee_per_gas_gwei'' (gc_MaxPriorityFeePerGasGwei (cfg_Gas cfg)) of
        Inl err \<Rightarrow> Inl err
      | Inr maxTipCap \<Rightarrow>
          Inr \<lparr>svc_Adapter = adapter, svc_Signer = signer,
               svc_ChainID = Some (sint (ec_ChainID (cfg_Ethereum cfg))),
               svc_Clock = Some systemClock, svc_Submitter = Some submitter,
               svc_Repository = Some repos,
               svc_GasPolicy = \<lparr>BumpBPS = gc_FeeBumpBPS (cfg_Gas cfg), MaxFeeCap = Some maxFeeCap,
                                MaxTipCap = Some maxTipCap\<rparr>,
               svc_GasLimitBufferBPS = gc_GasLimitBufferBPS (cfg_Gas cfg),
               svc_ReplacementTimeout = replacementTimeout\<rparr>)))"

text \<open>
  The deployment: the program's own adapter, signer, submitter and repository over one
  \<open>Outside\<close>.
\<close>

record 'k Deployment =
  dp_Outside :: Outside
  dp_Fallbacks :: nat
  dp_VaultABI :: Abi
  dp_Crypto :: "'k Crypto"
  dp_Key :: "'k PrivateKeyService"
  dp_Config :: Config
  dp_Vault :: address
  dp_Receiver :: address
  dp_TxHash :: "Transaction \<Rightarrow> hash"

definition dp_pool :: "'k Deployment \<Rightarrow> world MultiClient" where
  "dp_pool d = rpc_pool (dp_Outside d) (dp_Fallbacks d)"

definition dp_platform :: "'k Deployment \<Rightarrow> world Platform" where
  "dp_platform d = \<lparr>pl_SystemClock = system_clock (dp_Outside d), pl_TxHash = dp_TxHash d\<rparr>"

definition dp_morpho :: "'k Deployment \<Rightarrow> world MorphoAdapter" where
  "dp_morpho d = buildMorphoAdapter (dp_Config d) (dp_pool d) (dp_Vault d)
     (pk_address (dp_Key d)) (dp_Receiver d)"

definition dp_adapter :: "'k Deployment \<Rightarrow> world Adapter" where
  "dp_adapter d = morpho_adapter (dp_platform d) (dp_VaultABI d) (dp_morpho d)"

definition dp_signer :: "'k Deployment \<Rightarrow> world Signer" where
  "dp_signer d = private_key_signer (dp_Crypto d) (dp_Key d)"

definition dp_submitter :: "'k Deployment \<Rightarrow> world Submitter" where
  "dp_submitter d = multi_submitter (dp_pool d)"

definition dp_repository :: "'k Deployment \<Rightarrow> world AttemptRepository" where
  "dp_repository d = InsertWithdrawalAttempt (sql_driver (dp_Outside d))"

definition dp_service :: "'k Deployment \<Rightarrow> gerror + world Service" where
  "dp_service d = buildWithdrawService (dp_Config d) (system_clock (dp_Outside d)) (Some (dp_adapter d))
     (Some (dp_signer d)) (dp_submitter d) (dp_repository d)"

subsection \<open>The deployment meets the contracts of the withdrawal service\<close>

lemma quiet_vault_call: "quiet (vault_call abi \<lparr>vc_Ethereum = rpc_pool out n, vc_Vault = v\<rparr> m args)"
  unfolding vault_call_def
  by (auto split: sum.splits intro!: quiet_intros)

lemma dp_morpho_simps [simp]:
  "ma_Ethereum (dp_morpho d) = rpc_pool (dp_Outside d) (dp_Fallbacks d)"
  "ma_VaultClient (dp_morpho d) =
     \<lparr>vc_Ethereum = rpc_pool (dp_Outside d) (dp_Fallbacks d), vc_Vault = dp_Vault d\<rparr>"
  "ma_Vault (dp_morpho d) = dp_Vault d" "ma_Owner (dp_morpho d) = pk_address (dp_Key d)"
  "ma_Receiver (dp_morpho d) = dp_Receiver d" "ma_Clock (dp_morpho d) = None"
  by (simp_all add: dp_morpho_def buildMorphoAdapter_def dp_pool_def)

lemma quiet_if: "quiet m \<Longrightarrow> quiet k \<Longrightarrow> quiet (if b then m else k)"
  by simp

lemma dp_quiet:
  "quiet (ad_Position (dp_adapter d))"
  "quiet (ad_BuildFullExit (dp_adapter d) request)"
  "quiet (ad_SimulateFullExit (dp_adapter d) request)"
  "quiet (sg_Address (dp_signer d))"
  "quiet (sg_SignTransaction (dp_signer d) tx chainID)"
  "quiet (sb_PendingNonceAt (dp_submitter d) a)"
  "quiet (sb_SuggestGasPrice (dp_submitter d))"
  "quiet (sb_SuggestGasTipCap (dp_submitter d))"
proof -
  have b: "quiet (BuildFullExit abi ma req)" for abi and ma :: "world MorphoAdapter" and req
    unfolding BuildFullExit_def by (auto split: option.splits sum.splits intro!: quiet_intros)
  show "quiet (ad_BuildFullExit (dp_adapter d) request)"
    by (simp add: dp_adapter_def morpho_adapter_def b)
  show "quiet (ad_Position (dp_adapter d))"
    by (auto simp: dp_adapter_def morpho_adapter_def Position_def BalanceOf_def clock_now_def
        dp_platform_def split: option.splits intro!: quiet_intros quiet_vault_call)
  have p: "quiet (PreviewRedeem abi \<lparr>vc_Ethereum = rpc_pool out n, vc_Vault = v\<rparr> s)" for abi out n v s
    unfolding PreviewRedeem_def by (intro quiet_intros quiet_vault_call)
  show "quiet (ad_SimulateFullExit (dp_adapter d) request)"
    by (auto simp: dp_adapter_def morpho_adapter_def SimulateFullExit_def Let_def
        split: option.splits intro!: quiet_intros p b)
  show "quiet (sg_Address (dp_signer d))" "quiet (sg_SignTransaction (dp_signer d) tx chainID)"
    by (simp_all add: dp_signer_def private_key_signer_def Signer_Address_def quiet_intros)
  show "quiet (sb_PendingNonceAt (dp_submitter d) a)" "quiet (sb_SuggestGasPrice (dp_submitter d))"
    "quiet (sb_SuggestGasTipCap (dp_submitter d))"
    by (simp_all add: dp_submitter_def multi_submitter_def dp_pool_def quiet_intros)
qed

lemma dp_send:
  "sb_SendTransaction (dp_submitter d) tx w = (r, w') \<Longrightarrow>
     world_sent w' = world_sent w @ [tx] \<and> wd_db w' = wd_db w"
  by (auto simp: dp_submitter_def multi_submitter_def SendTransaction_def dp_pool_def rpc_pool_def
      NewMultiClient_def endpoint_def ask_def world_sent_def onErr_eq ret_eq split: option.splits)

lemma dp_insert:
  assumes "dp_repository d a w = (r, w')"
  shows "world_sent w' = world_sent w \<and> db_attempts (wd_db w') = db_attempts (wd_db w) @
    (if r = None then [attempt_row (sql_driver (dp_Outside d)) a] else [])"
  using assms
  by (auto simp: dp_repository_def InsertWithdrawalAttempt_def exec_stmt_def onErr_eq ret_eq
      sql_driver_def ask_def world_sent_def insert_attempt_row_def
      split: option.splits sum.splits if_splits prod.splits)

lemmas dp_laws = dp_quiet [THEN quietD] quiet_system_clock [THEN quietD]

interpretation bot: withdraw_ledger world_sent "system_clock (dp_Outside d)" "dp_adapter d"
    "dp_signer d" "dp_submitter d" "dp_repository d" "\<lambda>w. db_attempts (wd_db w)"
    "attempt_row (sql_driver (dp_Outside d))" for d :: "'k Deployment"
  by unfold_locales (auto dest: dp_laws dp_send dp_insert)

lemma dp_service_wired:
  assumes "dp_service d = Inr svc"
  shows "wired svc (dp_adapter d) (dp_signer d) (dp_submitter d) (dp_repository d)"
    "service_now (dp_platform d) svc = system_clock (dp_Outside d)"
    "svc_ChainID svc = Some (sint (ec_ChainID (cfg_Ethereum (dp_Config d))))"
  using assms
  by (auto simp: dp_service_def buildWithdrawService_def wired_def service_now_def clock_now_def
      split: sum.splits)

subsection \<open>What the deployment can send\<close>

text \<open>
  The transaction redeems the whole share balance just read from the vault, to the configured
  receiver, with no value, with the gas of an estimate that succeeded on this very call, and
  with usable fees within the ceilings.
\<close>

definition full_exit_tx :: "'k Deployment \<Rightarrow> world Service \<Rightarrow> Transaction \<Rightarrow> bool" where
  "full_exit_tx d svc tx \<longleftrightarrow>
     (\<exists>shares call dat gas u1 u2 v1 v2.
        returns (BalanceOf (dp_VaultABI d) (ma_VaultClient (dp_morpho d)) (pk_address (dp_Key d)))
          u1 (Inr shares) u2 \<and> 0 < shares \<and>
        PackRedeem (dp_VaultABI d) shares (dp_Receiver d) (pk_address (dp_Key d)) = Inr dat \<and>
        call = \<lparr>cm_From = pk_address (dp_Key d), cm_To = Some (dp_Vault d), cm_Value = Some 0,
                cm_Data = Some dat\<rparr> \<and>
        returns (EstimateGas (dp_pool d) call) v1 (Inr gas) v2 \<and>
        tx_To tx = dp_Vault d \<and> tx_Value tx = Some 0 \<and> tx_Data tx = Some dat \<and>
        tx_Gas tx = bufferedGas gas (svc_GasLimitBufferBPS svc) \<and>
        tx_ChainID tx = sint (ec_ChainID (cfg_Ethereum (dp_Config d))) \<and>
        fees_ok \<lparr>MaxFeePerGas = tx_GasFeeCap tx, MaxPriorityFeePerGas = tx_GasTipCap tx\<rparr> \<and>
        within_caps (svc_GasPolicy svc)
          \<lparr>MaxFeePerGas = tx_GasFeeCap tx, MaxPriorityFeePerGas = tx_GasTipCap tx\<rparr>)"

lemma nonceAndFeeCaps_sound:
  assumes "nonceAndFeeCaps svc submitter p a now w = (Inr (nonce, fees), w')"
    and "pending_sound (svc_GasPolicy svc) p"
  shows "fees_ok fees \<and> within_caps (svc_GasPolicy svc) fees"
proof (cases p)
  case None
  with assms(1) show ?thesis
    by (auto elim!: nonceAndFeeCaps_None dest: initialFeeCaps_ok)
next
  case (Some q)
  with assms show ?thesis
    by (auto simp: nonceAndFeeCaps_def ret_eq pending_sound_def
        split: if_splits sum.splits dest: BumpChecked_Inr(3) BumpChecked_within_caps)
qed

lemma Position_Inr:
  assumes "Position pl abi ma w = (Inr position, w')"
  obtains shares w1 where "BalanceOf abi (ma_VaultClient ma) (ma_Owner ma) w = (Inr shares, w1)"
    "ps_Vault position = ma_Vault ma" "ps_Owner position = ma_Owner ma"
    "ps_Receiver position = ma_Receiver ma" "ps_ShareBalance position = Some shares"
  using assms unfolding Position_def by (auto elim!: io_elims split: option.splits)

lemma BuildFullExit_Inr:
  assumes "BuildFullExit abi ma req w = (Inr cand, w')"
  obtains shares dat where "rq_Shares req = Some shares" "0 < shares"
    "PackRedeem abi shares (rq_Receiver req) (rq_Owner req) = Inr dat"
    "cand = \<lparr>tc_To = rq_Vault req, tc_Data = Some dat, tc_Value = Some 0\<rparr>" "w' = w"
  using assms unfolding BuildFullExit_def validateFullExitRequest_def
  by (auto elim!: io_elims split: option.splits sum.splits if_splits)

lemma SimulateFullExit_success:
  assumes "SimulateFullExit abi ma req w = ((sim, None), w')" "sim_Success sim"
  obtains cand w1 w2 where "BuildFullExit abi ma req w1 = (Inr cand, w2)"
    "EstimateGas (ma_Ethereum ma) \<lparr>cm_From = rq_Owner req, cm_To = Some (tc_To cand),
       cm_Value = tc_Value cand, cm_Data = tc_Data cand\<rparr> w2 = (Inr (sim_GasUnits sim), w')"
  using assms unfolding SimulateFullExit_def Let_def
  by (auto elim!: io_elims split: option.splits)

lemma exit_tx_full:
  assumes svc: "dp_service d = Inr svc" and signs: "signs_only (dp_Crypto d)"
    and sound: "pending_sound (svc_GasPolicy svc) p"
    and tx: "exit_tx (dp_platform d) svc p w tx"
  shows "full_exit_tx d svc tx"
proof -
  note wd = wired_the [OF dp_service_wired(1) [OF svc]]
  from tx obtain now w1 position w2 w3 sim w4 cand w5 nonce fees w6 w7 where
    pos: "Position (dp_platform d) (dp_VaultABI d) (dp_morpho d) w1 = (Inr position, w2)" and
    sim: "SimulateFullExit (dp_VaultABI d) (dp_morpho d) (fullExitRequest position) w3 = ((sim, None), w4)"
      "sim_Success sim" and
    build: "BuildFullExit (dp_VaultABI d) (dp_morpho d) (fullExitRequest position) w4 = (Inr cand, w5)" and
    fees: "nonceAndFeeCaps svc (dp_submitter d) p (ps_Owner position) now w5 = (Inr (nonce, fees), w6)" and
    sign: "SignTransaction (dp_Crypto d) (dp_Key d) (Some (buildDynamicFeeTx cand (the (svc_ChainID svc)) nonce
        (bufferedGas (sim_GasUnits sim) (svc_GasLimitBufferBPS svc)) fees)) (Some (the (svc_ChainID svc))) w6
      = (Inr tx, w7)"
    unfolding exit_tx_def Let_def wd returns_def
    by (auto simp: dp_adapter_def morpho_adapter_def dp_signer_def private_key_signer_def)
  obtain shares u where sh: "BalanceOf (dp_VaultABI d) (ma_VaultClient (dp_morpho d)) (pk_address (dp_Key d)) w1
      = (Inr shares, u)" "ps_Vault position = dp_Vault d" "ps_Owner position = pk_address (dp_Key d)"
      "ps_Receiver position = dp_Receiver d" "ps_ShareBalance position = Some shares"
    using pos by (rule Position_Inr) simp_all
  obtain dat where dat: "0 < shares"
      "PackRedeem (dp_VaultABI d) shares (dp_Receiver d) (pk_address (dp_Key d)) = Inr dat"
      "cand = \<lparr>tc_To = dp_Vault d, tc_Data = Some dat, tc_Value = Some 0\<rparr>"
    using build by (rule BuildFullExit_Inr) (use sh in \<open>auto simp: fullExitRequest_def\<close>)
  obtain v1 where est: "EstimateGas (dp_pool d) \<lparr>cm_From = pk_address (dp_Key d), cm_To = Some (dp_Vault d),
       cm_Value = Some 0, cm_Data = Some dat\<rparr> v1 = (Inr (sim_GasUnits sim), w4)"
    using sim
    by (rule SimulateFullExit_success)
      (use sh dat in \<open>auto simp: fullExitRequest_def dp_pool_def elim!: BuildFullExit_Inr\<close>)
  have stx: "tx = (buildDynamicFeeTx cand (the (svc_ChainID svc)) nonce
      (bufferedGas (sim_GasUnits sim) (svc_GasLimitBufferBPS svc)) fees)\<lparr>tx_Signature := tx_Signature tx\<rparr>"
    using SignTransaction_Inr [OF sign] signs by (simp add: signs_only_def)
  have txs: "tx_To tx = dp_Vault d" "tx_Value tx = Some 0" "tx_Data tx = Some dat"
    "tx_Gas tx = bufferedGas (sim_GasUnits sim) (svc_GasLimitBufferBPS svc)"
    "tx_ChainID tx = sint (ec_ChainID (cfg_Ethereum (dp_Config d)))"
    "\<lparr>MaxFeePerGas = tx_GasFeeCap tx, MaxPriorityFeePerGas = tx_GasTipCap tx\<rparr> = fees"
    by (subst stx, simp add: buildDynamicFeeTx_def dat(3) dp_service_wired(3) [OF svc])+
  show ?thesis
    unfolding full_exit_tx_def returns_def txs(6)
    using sh(1) dat(1,2) est txs(1-5) nonceAndFeeCaps_sound [OF fees sound] by blast
qed

subsection \<open>Properties\<close>

text \<open>C25: A configuration that passes validation builds a withdrawal service: its fee bump and gas
  buffer are between 0 and 100%, its replacement timeout is positive, and its ceilings are both
  set and not negative (they may be 0).\<close>

theorem validated_config_builds_service:
  assumes "Validate cfg = None"
  shows "\<exists>svc. buildWithdrawService cfg clock (Some adapter) (Some signer) submitter repos = Inr svc \<and>
    validateExecuteConfig svc = None \<and> bump_ok (BumpBPS (svc_GasPolicy svc)) \<and>
    0 \<le> sint (svc_GasLimitBufferBPS svc) \<and> sint (svc_GasLimitBufferBPS svc) \<le> 10000 \<and>
    0 < svc_ReplacementTimeout svc \<and>
    (\<exists>f t. MaxFeeCap (svc_GasPolicy svc) = Some f \<and> MaxTipCap (svc_GasPolicy svc) = Some t \<and>
       0 \<le> f \<and> 0 \<le> t)"
  using assms
  by (rule Validate_None)
    (auto simp: buildWithdrawService_def validateExecuteConfig_def bump_ok_def)

text \<open>The error of a start-up that reaches the console shows no secret: neither the private
  key, nor the Telegram token, nor an endpoint URL is part of its text, for secrets that are not
  empty, have no bracket and are no part of the word that replaces them.\<close>

theorem runtime_errors_show_no_secret:
  assumes "redactable secret"
    and "secret \<in> set (sec_PrivateKey secrets # sec_TelegramToken secrets
           # sec_PrimaryRPCURL secrets # sec_FallbackRPCURLs secrets)"
    and "sanitizeRuntimeError secrets (Some err) = Some clean"
  shows "\<not> sublist secret (error_text clean)"
  using assms by (rule sanitizeRuntimeError_absent)

theorem runtime_errors_show_no_secret_witness:
  "\<not> sublist ''k3y'' (error_text (the (sanitizeRuntimeError \<lparr>sec_PrivateKey = ''k3y'',
     sec_TelegramToken = ''t'', sec_PrimaryRPCURL = ''u'', sec_FallbackRPCURLs = []\<rparr>
     (Some (New ''bad key k3y'')))))"
proof -
  let ?s = "\<lparr>sec_PrivateKey = ''k3y'', sec_TelegramToken = ''t'', sec_PrimaryRPCURL = ''u'',
     sec_FallbackRPCURLs = []\<rparr>"
  have "redactable ''k3y''" by (auto simp: redactable_def sublist_code)
  moreover obtain clean where "sanitizeRuntimeError ?s (Some (New ''bad key k3y'')) = Some clean"
    by (simp add: sanitizeRuntimeError_def Let_def)
  ultimately show ?thesis
    using runtime_errors_show_no_secret [of "''k3y''" ?s "New ''bad key k3y''" clean] by simp
qed

end
