(* ===== verification/Example.thy ===== *)
theory Example
  imports App_Runtime Vault_Reads
begin

text \<open>
  A concrete deployment, run: a position of one share owned by the signer, endpoints that
  answer, and a database that accepts. The theorems that speak of every deployment are applied
  to it as their witnesses.
\<close>

definition demo_config :: Config where
  "demo_config = \<lparr>
     cfg_App = \<lparr>ac_MonitorInterval = ''1m'', ac_DataDir = ''data''\<rparr>,
     cfg_Ethereum = \<lparr>ec_ChainID = 1, ec_VaultAddress = ''0x10'', ec_AssetSymbol = ''USDC'',
       ec_AssetDecimals = 6, ec_ReceiverAddress = ''0x20''\<rparr>,
     cfg_Telegram = \<lparr>tg_ChatID = 7, tg_AllowedUserIDs = [42], tg_DailyReportUTCTime = []\<rparr>,
     cfg_Gas = \<lparr>gc_ReplacementTimeout = ''5m'', gc_GasLimitBufferBPS = 2000, gc_FeeBumpBPS = 1250,
       gc_MaxFeePerGasGwei = ''100'', gc_MaxPriorityFeePerGasGwei = ''2.5''\<rparr>,
     cfg_Logs = \<lparr>lc_FilePath = [], lc_MaxSizeMB = 0, lc_MaxBackups = 0, lc_MaxAgeDays = 0\<rparr>,
     cfg_Modules = None\<rparr>"

definition demo_deployment :: "unit Deployment" where
  "demo_deployment = \<lparr>
     dp_Outside = demo_outside, dp_Fallbacks = 1,
     dp_VaultABI = demo_codec vaultABIJSON,
     dp_Crypto = \<lparr>cr_HexToECDSA = (\<lambda>s. Inr ()), cr_PubkeyToAddress = (\<lambda>k. 48),
                  cr_SignTx = (\<lambda>tx c k. Inr (tx\<lparr>tx_Signature := [1]\<rparr>))\<rparr>,
     dp_Key = \<lparr>pk_key = (), pk_address = 48\<rparr>,
     dp_Config = demo_config, dp_Vault = 16, dp_Receiver = 32,
     dp_TxHash = (\<lambda>tx. 99)\<rparr>"

definition demo_trigger :: WithdrawalTrigger where
  "demo_trigger = \<lparr>tr_Kind = ''urgent'', tr_ModuleID = ''m'', tr_FindingKey = ''f''\<rparr>"

definition demo_world :: world where
  "demo_world = \<lparr>wd_log = [], wd_db = emptyDatabase\<rparr>"

definition demo_service :: "world Service" where
  "demo_service = (case dp_service demo_deployment of Inr s \<Rightarrow> s)"


subsection \<open>Reading the configuration\<close>

lemmas decimal_eval = ParseGwei_def ParseDecimalUnits_def isUnsignedBase10Decimal_def is_digit_def
  decimal_value_def digit_val_def Let_def

lemmas trim_eval = TrimSpace_def trim_left_def runes.simps decode_rune_def byte_at_def is_space_def
  rune_bytes_def Let_def

lemmas duration_eval = ParseDuration_def duration_part_def duration_unit_def unit_char_def
  is_digit_def digit_val_def Let_def

lemma demo_timeout: "ParseDuration ''5m'' = Inr 300000000000"
  by (simp add: duration_eval)

lemma demo_trim: "TrimSpace ''100'' = ''100''" "TrimSpace ''2.5'' = ''2.5''"
  by (simp_all add: trim_eval)

lemma demo_gwei: "ParseGwei n ''100'' = Inr 100000000000" "ParseGwei n ''2.5'' = Inr 2500000000"
  by (simp_all add: decimal_eval demo_trim)

lemma demo_simps [simp]:
  "dp_Outside demo_deployment = demo_outside" "dp_Fallbacks demo_deployment = 1"
  "pk_address (dp_Key demo_deployment) = 48" "dp_Vault demo_deployment = 16"
  "dp_Receiver demo_deployment = 32" "dp_Config demo_deployment = demo_config"
  by (simp_all add: demo_deployment_def)

lemma demo_service_eq: "dp_service demo_deployment = Inr demo_service"
  "demo_service =
     \<lparr>svc_Adapter = Some (dp_adapter demo_deployment), svc_Signer = Some (dp_signer demo_deployment),
      svc_ChainID = Some 1, svc_Clock = Some (system_clock demo_outside),
      svc_Submitter = Some (dp_submitter demo_deployment),
      svc_Repository = Some (dp_repository demo_deployment),
      svc_GasPolicy = \<lparr>BumpBPS = 1250, MaxFeeCap = Some 100000000000, MaxTipCap = Some 2500000000\<rparr>,
      svc_GasLimitBufferBPS = 2000, svc_ReplacementTimeout = 300000000000\<rparr>"
  by (simp_all add: dp_service_def demo_service_def buildWithdrawService_def demo_config_def
      demo_timeout demo_gwei)

subsection \<open>Each call of the run\<close>

definition demo_read :: request where
  "demo_read = RqCallContract 0 (zeroCallMsg\<lparr>cm_To := Some 16, cm_Data := Some [1, 2, 3]\<rparr>) None"

definition demo_call :: CallMsg where
  "demo_call = \<lparr>cm_From = 48, cm_To = Some 16, cm_Value = Some 0, cm_Data = Some [1, 2, 3]\<rparr>"

definition demo_position :: "Time \<Rightarrow> PositionSnapshot" where
  "demo_position t = \<lparr>ps_Vault = 16, ps_Owner = 48, ps_Receiver = 32, ps_ShareBalance = Some 1,
     ps_AssetSymbol = ''USDC'', ps_AssetDecimals = 6, ps_ObservedAt = t\<rparr>"

definition demo_request :: FullExitRequest where
  "demo_request = \<lparr>rq_Vault = 16, rq_Owner = 48, rq_Receiver = 32, rq_Shares = Some 1\<rparr>"

definition demo_tx :: Transaction where
  "demo_tx = \<lparr>tx_ChainID = 1, tx_Nonce = 9, tx_GasTipCap = Some 1000000000,
     tx_GasFeeCap = Some 4000000000, tx_Gas = 240000, tx_To = 16, tx_Value = Some 0,
     tx_Data = Some [1, 2, 3], tx_Signature = [1]\<rparr>"

definition log_more :: "world \<Rightarrow> log \<Rightarrow> world" where
  "log_more w l = w\<lparr>wd_log := wd_log w @ l\<rparr>"

lemma log_more_simps [simp]:
  "log_more (log_more w l) m = log_more w (l @ m)" "wd_log (log_more w l) = wd_log w @ l"
  "wd_db (log_more w l) = wd_db w"
  by (simp_all add: log_more_def)

lemma ask_more: "ask r f w = (f (wd_log w), log_more w [r])"
  by (simp add: ask_def log_more_def)

lemmas rpc_eval = readAll_def rpc_pool_def NewMultiClient_def rpcClients_def endpoint_def ask_more
  demo_outside_def

lemma demo_pack: "abi_Pack (demo_codec methods) m args = Inr [1, 2, 3]"
  by (simp add: demo_codec_def)

lemma demo_unpack:
  assumes "(m, inputs, [TUint 256]) \<in> set vaultABIJSON"
  shows "abi_Unpack (demo_codec vaultABIJSON) m raw = Inr [ABig 1]"
  using map_of_is_SomeI [OF demo_documents(1) assms] by (simp add: demo_codec_def)

lemma demo_vault_call:
  assumes "(m, inputs, [TUint 256]) \<in> set vaultABIJSON"
  shows "vault_call (dp_VaultABI demo_deployment) (ma_VaultClient (dp_morpho demo_deployment)) m args w =
     (Inr [ABig 1], log_more w [demo_read])"
  by (simp add: vault_call_def demo_deployment_def demo_pack demo_unpack [OF assms] io_simps CallContract_def
      rpc_eval demo_read_def)

lemma demo_methods:
  "(''balanceOf'', [TAddress], [TUint 256]) \<in> set vaultABIJSON"
  "(''previewRedeem'', [TUint 256], [TUint 256]) \<in> set vaultABIJSON"
  "(''totalAssets'', [], [TUint 256]) \<in> set vaultABIJSON" "(''totalSupply'', [], [TUint 256]) \<in> set vaultABIJSON"
  by (simp_all add: vaultABIJSON_def)

lemma demo_clock: "system_clock demo_outside w =
    (1778288523000000000 + int (length (wd_log w)), log_more w [RqClock])"
  by (simp add: system_clock_def ask_more demo_outside_def)

lemma demo_asset:
  "ma_AssetSymbol (dp_morpho demo_deployment) = ''USDC''"
  "ma_AssetDecimals (dp_morpho demo_deployment) = 6"
  by (simp_all add: dp_morpho_def buildMorphoAdapter_def demo_config_def)

lemma demo_Position:
  "ad_Position (dp_adapter demo_deployment) w =
     (Inr (demo_position (1778288523000000001 + int (length (wd_log w)))), log_more w [demo_read, RqClock])"
  using demo_vault_call [OF demo_methods(1), unfolded dp_morpho_simps]
  by (simp add: vaultMethodBalanceOf_def dp_adapter_def morpho_adapter_def Position_def BalanceOf_def validateVaultClient_def
      io_simps uint256Output_def clock_now_def dp_platform_def demo_clock demo_position_def
      demo_asset)

lemma demo_valid: "validateFullExitRequest (dp_morpho demo_deployment) demo_request = None"
  by (simp add: validateFullExitRequest_def validateVaultClient_def demo_request_def)

lemma demo_BuildFullExit:
  "ad_BuildFullExit (dp_adapter demo_deployment) demo_request w =
     (Inr \<lparr>tc_To = 16, tc_Data = Some [1, 2, 3], tc_Value = Some 0\<rparr>, w)"
  using demo_valid
  by (simp add: dp_adapter_def morpho_adapter_def BuildFullExit_def io_simps PackRedeem_def
      demo_deployment_def demo_pack demo_request_def)

lemma demo_PreviewRedeem:
  "PreviewRedeem (dp_VaultABI demo_deployment) (ma_VaultClient (dp_morpho demo_deployment)) s w =
     (Inr 1, log_more w [demo_read])"
  by (simp add: PreviewRedeem_def demo_vault_call [OF demo_methods(2)] vaultMethodPreviewRedeem_def io_simps uint256Output_def del: dp_morpho_simps)

lemma demo_EstimateGas:
  "EstimateGas (ma_Ethereum (dp_morpho demo_deployment)) msg w =
     (Inr 200000, log_more w [RqEstimateGas 0 msg])"
  by (simp add: EstimateGas_def rpc_eval)

lemma demo_SimulateFullExit:
  "ad_SimulateFullExit (dp_adapter demo_deployment) demo_request w =
     ((zeroSimulation\<lparr>sim_Success := True, sim_ExpectedAssetUnits := Some 1, sim_GasUnits := 200000\<rparr>,
       None), log_more w [demo_read, RqEstimateGas 0 demo_call])"
  using demo_BuildFullExit
  by (simp add: dp_adapter_def morpho_adapter_def SimulateFullExit_def io_simps Let_def demo_valid
      demo_PreviewRedeem demo_EstimateGas demo_call_def del: dp_morpho_simps)
    (simp add: demo_request_def)

lemma demo_submitter:
  "sb_PendingNonceAt (dp_submitter demo_deployment) a w = (Inr 9, log_more w [RqPendingNonce 0 a])"
  "sb_SuggestGasPrice (dp_submitter demo_deployment) w = (Inr (Some 3000000000), log_more w [RqGasPrice 0])"
  "sb_SuggestGasTipCap (dp_submitter demo_deployment) w = (Inr (Some 1000000000), log_more w [RqGasTipCap 0])"
  "sb_SendTransaction (dp_submitter demo_deployment) tx w = (None, log_more w [RqSend 0 tx])"
  by (simp_all add: dp_submitter_def multi_submitter_def dp_pool_def PendingNonceAt_def
      SuggestGasPrice_def SuggestGasTipCap_def SendTransaction_def rpc_eval io_simps)

lemma demo_signer:
  "sg_Address (dp_signer demo_deployment) w = (Inr 48, w)"
  "sg_SignTransaction (dp_signer demo_deployment) tx c w = (Inr (tx\<lparr>tx_Signature := [1]\<rparr>), w)"
  by (simp_all add: dp_signer_def private_key_signer_def Signer_Address_def SignTransaction_def
      demo_deployment_def io_simps)

lemma demo_insert:
  "db_attempts (wd_db w) = [] \<Longrightarrow> dp_repository demo_deployment a w =
     (None, (log_more w [RqSql ''insert withdrawal_attempts''])
        \<lparr>wd_db := (wd_db w)\<lparr>db_attempts := [attempt_row (sql_driver demo_outside) a]\<rparr>\<rparr>)"
  by (simp add: dp_repository_def InsertWithdrawalAttempt_def exec_stmt_def sql_driver_def io_simps
      ask_more demo_outside_def insert_attempt_row_def emptyDatabase_def)

lemma demo_signs_only: "signs_only (dp_Crypto demo_deployment)"
  by (auto simp: signs_only_def demo_deployment_def)

subsection \<open>The run\<close>

lemma demo_run:
  assumes "db_attempts (wd_db w) = []"
  shows "\<exists>r p w'. ExecuteFullExit (dp_platform demo_deployment) demo_service trigger (None, w)
      = ((r, None), (Some p, w')) \<and> wr_Status r = WithdrawalStatusSubmitted \<and> pw_Nonce p = 9 \<and>
    world_sent w' = world_sent w @ [demo_tx]"
  using assms
  by (simp add: ExecuteFullExit_def submitFullExit_def validateExecuteConfig_def io_simps failWith_def
      demo_service_eq(2) service_now_def clock_now_def demo_clock demo_Position demo_position_def
      no_shares_def demo_signer fullExitRequest_def demo_SimulateFullExit [unfolded demo_request_def]
      getPending_def setPending_def demo_BuildFullExit [unfolded demo_request_def] nonceAndFeeCaps_def
      demo_submitter initialFeeCaps_def validateCaps_def capBig_def FeeCaps_Validate_def Let_def
      recordAttempt_def demo_insert zeroResult_def world_sent_def
      buildDynamicFeeTx_def bufferedGas_def demo_tx_def demo_read_def demo_call_def sends_of_def)

subsection \<open>The configuration is valid\<close>

lemma demo_minute: "ParseDuration ''1m'' = Inr 60000000000"
  by (simp add: duration_eval)

lemma demo_config_valid: "Validate demo_config = None"
  by (simp add: Validate_def demo_config_def required_duration_def demo_minute demo_timeout demo_gwei
      ValidateBPS_def first_error_def check_def left_error_def)

text \<open>The same configuration with ceilings of zero gwei.\<close>

definition zero_ceiling_config :: Config where
  "zero_ceiling_config = demo_config\<lparr>cfg_Gas := (cfg_Gas demo_config)\<lparr>gc_MaxFeePerGasGwei := ''0'',
     gc_MaxPriorityFeePerGasGwei := ''0''\<rparr>\<rparr>"

lemma zero_gwei: "ParseGwei n ''0'' = Inr 0"
  by (simp add: decimal_eval trim_eval)

end
