(* ===== verification/Logging.thy ===== *)
theory Logging
  imports Core_Types
begin

text \<open>
  \<open>internal/logging/logging.go\<close>: which logger \<open>New\<close> sets up. The rotation, the JSON of a record
  and the writing are those of lumberjack and slog; the model has the settings they are given and
  the writers in the order in which each record goes to them.
\<close>

record LoggingConfig =
  lg_FilePath :: string
  lg_MaxSizeMB :: int64
  lg_MaxBackups :: int64
  lg_MaxAgeDays :: int64

record RotatingFile =
  rf_Filename :: string
  rf_MaxSize :: int64
  rf_MaxBackups :: int64
  rf_MaxAge :: int64
  rf_Compress :: bool

datatype log_writer = Stdout | Rotating RotatingFile

record JSONLogger =
  jl_Writers :: "log_writer list"
  jl_AddSource :: bool

text \<open>The logger and what is to be closed in the end.\<close>

definition logging_New :: "LoggingConfig \<Rightarrow> JSONLogger \<times> RotatingFile" where
  "logging_New config =
     (let rotating = \<lparr>rf_Filename = lg_FilePath config, rf_MaxSize = lg_MaxSizeMB config,
            rf_MaxBackups = lg_MaxBackups config, rf_MaxAge = lg_MaxAgeDays config, rf_Compress = True\<rparr>;
          writer = [Stdout, Rotating rotating] in
      (\<lparr>jl_Writers = writer, jl_AddSource = True\<rparr>, rotating))"

text \<open>What is closed is the file to which every record is written beside the standard output.\<close>

lemma logging_New_closes_its_file [simp]:
  "jl_Writers (fst (logging_New config)) = [Stdout, Rotating (snd (logging_New config))]"
  "rf_Filename (snd (logging_New config)) = lg_FilePath config"
  by (simp_all add: logging_New_def Let_def)

end
