(* ===== verification/App_Modes.thy ===== *)
theory App_Modes
  imports World Config Monitor_Service Logging
begin

text \<open>
  What the modes of the program (\<open>internal/app\<close>, \<open>cmd/withdraw-bot\<close>) are made of: the command
  line, the file paths, the checks of \<open>config-check\<close>, the fragments of \<open>bootstrap\<close>, and opening
  the database (\<open>internal/storage/db.go\<close>) and the log file. Calls of the operating system, of
  SQLite and of goose are \<open>os_call\<close>s of the world, which may fail at any time.
\<close>

subsection \<open>The command line\<close>

definition ModeMonitor :: string where [name_defs]: "ModeMonitor = ''monitor''"
definition ModeBootstrap :: string where [name_defs]: "ModeBootstrap = ''bootstrap''"
definition ModeConfigCheck :: string where [name_defs]: "ModeConfigCheck = ''config-check''"

definition ParseMode :: "string \<Rightarrow> string option" where
  "ParseMode v = (if v \<in> {ModeMonitor, ModeBootstrap, ModeConfigCheck} then Some v else None)"

text \<open>
  Package \<open>flag\<close> with the one string flag \<open>config\<close>: the value given last, or the message of the
  failure. Parsing stops at the first argument that is no flag.
\<close>

datatype argument = NoFlag | BadSyntax | NamedFlag string "string option"

definition flag_of :: "string \<Rightarrow> argument" where
  "flag_of s =
     (if length s < 2 \<or> hd s \<noteq> CHR ''-'' \<or> s = ''--'' then NoFlag
      else let name = (if s ! 1 = CHR ''-'' then drop 2 s else drop 1 s) in
        if hd name = CHR ''-'' \<or> hd name = CHR ''='' then BadSyntax
        else let rest = dropWhile (\<lambda>c. c \<noteq> CHR ''='') name in
          NamedFlag (takeWhile (\<lambda>c. c \<noteq> CHR ''='') name) (if rest = [] then None else Some (tl rest)))"

fun flag_Parse :: "string \<Rightarrow> string list \<Rightarrow> string + string" where
  "flag_Parse path [] = Inr path"
| "flag_Parse path (s # args) =
     (case flag_of s of
        NoFlag \<Rightarrow> Inr path
      | BadSyntax \<Rightarrow> Inl (''bad flag syntax: '' @ s @ [CHR 0x0A])
      | NamedFlag name given \<Rightarrow>
          if name = ''help'' \<or> name = ''h'' then Inl []
          else if name \<noteq> ''config''
          then Inl (''flag provided but not defined: -'' @ name @ [CHR 0x0A])
          else (case given of
              Some v \<Rightarrow> flag_Parse v args
            | None \<Rightarrow> (case args of
                [] \<Rightarrow> Inl (''flag needs an argument: -'' @ name @ [CHR 0x0A])
              | v # rest \<Rightarrow> flag_Parse v rest)))"

definition defaultConfigPath :: string where
  "defaultConfigPath = ''config/config.example.yaml''"

definition flag_usage :: "string \<Rightarrow> string" where
  "flag_usage mode = ''Usage of '' @ mode @ '':'' @ [CHR 0x0A] @ ''  -config string'' @
     [CHR 0x0A] @ ''    '' @ [CHR 0x09] @ ''path to YAML config (default '' @ Quote defaultConfigPath @
     '')'' @ [CHR 0x0A]"

subsection \<open>Paths\<close>

text \<open>Package \<open>filepath\<close> on Unix.\<close>

definition clean_element :: "bool \<Rightarrow> string list \<Rightarrow> string \<Rightarrow> string list" where
  "clean_element rooted stack e =
     (if e = [] \<or> e = ''.'' then stack
      else if e = ''..'' then
        (if stack \<noteq> [] \<and> last stack \<noteq> ''..'' then butlast stack
         else if rooted then stack else stack @ [e])
      else stack @ [e])"

definition filepath_Clean :: "string \<Rightarrow> string" where
  "filepath_Clean path =
     (let rooted = (path \<noteq> [] \<and> hd path = CHR ''/'');
          es = foldl (clean_element rooted) [] (Split path CHR ''/'');
          cleaned = (if rooted then ''/'' else []) @ strings_Join es ''/'' in
      if cleaned = [] then ''.'' else cleaned)"

definition filepath_Dir :: "string \<Rightarrow> string" where
  "filepath_Dir path = filepath_Clean (rev (dropWhile (\<lambda>c. c \<noteq> CHR ''/'') (rev path)))"

definition filepath_Join :: "string \<Rightarrow> string \<Rightarrow> string" where
  "filepath_Join dir name =
     (let es = dropWhile (\<lambda>e. e = []) [dir, name] in
      if es = [] then [] else filepath_Clean (strings_Join es ''/''))"

subsection \<open>Checks and fragments\<close>

fun checksFrom :: "nat \<Rightarrow> ('w, gerror option) io list \<Rightarrow> ('w, gerror option) io" where
  "checksFrom index [] = ret None"
| "checksFrom index (c # checks) =
     onErr c
       (\<lambda>err. ret (Some (Wrap (''config check '' @ dec_nat (index + 1) @ '' failed: '') err [])))
       (checksFrom (Suc index) checks)"

definition RunChecks :: "('w, gerror option) io list \<Rightarrow> ('w, gerror option) io" where
  "RunChecks checks = checksFrom 0 checks"

record 'w BootstrapModule =
  bm_ID :: MonitorModuleID
  bm_Bootstrap :: "('w, gerror + BootstrapFragment) io"

type_synonym Fragments = "(string, BootstrapFragment) fmap"

fun collectFragments :: "'w BootstrapModule list \<Rightarrow> Fragments \<Rightarrow> ('w, gerror + Fragments) io" where
  "collectFragments [] result = ret (Inr result)"
| "collectFragments (module # modules) result =
     bindE (bm_Bootstrap module) (\<lambda>fragment.
       collectFragments modules (fmupd (bm_ID module) fragment result))"

definition CollectBootstrapFragments :: "'w BootstrapModule list \<Rightarrow> ('w, gerror + Fragments) io" where
  "CollectBootstrapFragments modules = collectFragments modules fmempty"

text \<open>\<open>json.Marshal\<close> of the fragments: the keys of both levels of maps are sorted.\<close>

definition fragments_json :: "Fragments \<Rightarrow> json" where
  "fragments_json fragments =
     JObj (map (\<lambda>(k, fragment). (k, JObj (sort_key fst fragment))) (sorted_list_of_fmap fragments))"

definition normalizeYAMLValue :: "json \<Rightarrow> gerror + json" where
  "normalizeYAMLValue v =
     (case json_decode (json_encode v) of
        None \<Rightarrow> Inl (New ''invalid JSON'')
      | Some normalized \<Rightarrow> Inr normalized)"

subsection \<open>Opening\<close>

text \<open>A call whose error the code drops.\<close>

definition os_done :: "os_call \<Rightarrow> string \<Rightarrow> (world, unit) io" where
  "os_done call arg = ask (RqSystem call arg) (\<lambda>l. ())"

definition db_Close :: "string \<Rightarrow> (world, unit) io" where
  "db_Close path = os_done SqlClose path"

text \<open>
  The database of the world is the one behind every path, with the tables that the migrations
  create: what a migration does to it is not modelled.
\<close>

definition storage_Open :: "Outside \<Rightarrow> string \<Rightarrow> (world, gerror + unit) io" where
  "storage_Open out path =
     onErr (os_call out SqlOpen path) (\<lambda>err. ret (Inl (Wrap ''open sqlite database: '' err []))) (
     onErr (os_call out SqlPing path)
       (\<lambda>err. bindIO (db_Close path) (\<lambda>_. ret (Inl (Wrap ''ping sqlite database: '' err [])))) (
     onErr (os_call out SqlMigrations ''migrations'')
       (\<lambda>err. bindIO (db_Close path) (\<lambda>_. ret (Inl (Wrap ''open embedded migrations: '' err [])))) (
     onErr (os_call out SqlProvider path)
       (\<lambda>err. bindIO (db_Close path) (\<lambda>_. ret (Inl (Wrap ''create sqlite migration provider: '' err [])))) (
     onErr (os_call out SqlUp path)
       (\<lambda>err. bindIO (db_Close path) (\<lambda>_. ret (Inl (Wrap ''apply sqlite migrations: '' err [])))) (
     ret (Inr ()))))))"

text \<open>
  The rotating log file is opened with the logger that is set as the default; the cleanup sets
  the previous one again and closes it.
\<close>

definition runtime_logger :: "LogConfig \<Rightarrow> JSONLogger \<times> RotatingFile" where
  "runtime_logger logConfig = logging_New
     \<lparr>lg_FilePath = lc_FilePath logConfig, lg_MaxSizeMB = lc_MaxSizeMB logConfig,
      lg_MaxBackups = lc_MaxBackups logConfig, lg_MaxAgeDays = lc_MaxAgeDays logConfig\<rparr>"

definition setupRuntimeLogger :: "Outside \<Rightarrow> LogConfig \<Rightarrow> (world, gerror + (world, unit) io) io" where
  "setupRuntimeLogger out logConfig =
     (if lc_FilePath logConfig = [] then ret (Inr (ret ()))
      else onErr (os_call out MkdirAll (filepath_Dir (lc_FilePath logConfig)))
        (\<lambda>err. ret (Inl (Wrap ''create log dir: '' err [])))
        (let closer = snd (runtime_logger logConfig) in
         bindIO (os_done OpenLog (rf_Filename closer)) (\<lambda>_. ret (Inr (os_done CloseLog (rf_Filename closer))))))"

lemma setupRuntimeLogger_eq:
  "setupRuntimeLogger out logConfig =
     (if lc_FilePath logConfig = [] then ret (Inr (ret ()))
      else onErr (os_call out MkdirAll (filepath_Dir (lc_FilePath logConfig)))
        (\<lambda>err. ret (Inl (Wrap ''create log dir: '' err [])))
        (bindIO (os_done OpenLog (lc_FilePath logConfig))
          (\<lambda>_. ret (Inr (os_done CloseLog (lc_FilePath logConfig))))))"
  by (simp add: setupRuntimeLogger_def Let_def runtime_logger_def)

definition loadConfig :: "Outside \<Rightarrow> (bytes \<Rightarrow> string + Config) \<Rightarrow> string \<Rightarrow> (world, gerror + Config) io"
  where
  "loadConfig out yamlUnmarshal path w =
     (case os_call out ReadFile path w of
        (failed, w') \<Rightarrow>
          (Load (\<lambda>p. case failed of Some err \<Rightarrow> Inl err | None \<Rightarrow> Inr (out_File out (wd_log w) p))
             (\<lambda>data. library (yamlUnmarshal data)) path, w'))"

subsection \<open>What is opened is closed\<close>

text \<open>\<open>defer release()\<close>: it runs once the body has returned.\<close>

definition deferred :: "('w, unit) io \<Rightarrow> ('w, 'a option) io \<Rightarrow> ('w, 'a option) io" where
  "deferred release body = bindIO body (\<lambda>r.
     case r of None \<Rightarrow> ret None | Some x \<Rightarrow> bindIO release (\<lambda>_. ret (Some x)))"

text \<open>
  A resource: an acquisition that fails leaves nothing behind, and releasing what was acquired
  restores the level there was before.
\<close>

locale scoped =
  fixes level :: "'w \<Rightarrow> 'l"
    and acquire :: "('w, gerror + 'a) io"
    and release :: "'a \<Rightarrow> ('w, unit) io"
  assumes fails: "acquire w = (Inl e, w') \<Longrightarrow> level w' = level w"
    and restores: "acquire w = (Inr x, w1) \<Longrightarrow> level w2 = level w1 \<Longrightarrow> release x w2 = (u, w3)
      \<Longrightarrow> level w3 = level w"
begin

text \<open>A body that runs with the resource and defers its release keeps the level when it returns.\<close>

lemma scope:
  assumes run: "tryE acquire (\<lambda>e. ret (Some (h e))) (\<lambda>x. deferred (release x) (body x)) w = (Some r, w')"
    and body: "\<And>x w1 y w2. acquire w = (Inr x, w1) \<Longrightarrow> body x w1 = (Some y, w2) \<Longrightarrow> level w2 = level w1"
  shows "level w' = level w"
  using run
proof (cases rule: tryE_elim)
  case (1 e w1)
  then show ?thesis using fails by (simp add: ret_eq)
next
  case (2 x w1)
  from 2(2) obtain y w2 u where "body x w1 = (Some y, w2)" "release x w2 = (u, w')"
    unfolding deferred_def by (auto elim!: io_elims split: option.splits)
  with 2(1) body restores show ?thesis by blast
qed

text \<open>Giving up after the acquisition, with a release at once.\<close>

lemma abandon:
  assumes "acquire w = (Inr x, w1)" "level w2 = level w1" "bindIO (release x) (\<lambda>_. ret y) w2 = (r, w')"
  shows "level w' = level w"
  using assms(3)
proof (rule bindIO_elim)
  fix u w3
  assume "release x w2 = (u, w3)" "ret y w3 = (r, w')"
  with restores [OF assms(1,2)] show ?thesis by (simp add: ret_eq)
qed

end

text \<open>How a call of the operating system that succeeds moves the handles.\<close>

fun shifted :: "os_call \<Rightarrow> int \<times> int \<times> int \<Rightarrow> int \<times> int \<times> int" where
  "shifted call (rpc, db, file) =
     (rpc, db + (if call = SqlOpen then 1 else if call = SqlClose then - 1 else 0),
      file + (if call = OpenLog then 1 else if call = CloseLog then - 1 else 0))"

lemma shifted_simps [simp]:
  "shifted SqlClose (shifted SqlOpen h) = h" "shifted CloseLog (shifted OpenLog h) = h"
  "call \<notin> {SqlOpen, SqlClose, OpenLog, CloseLog} \<Longrightarrow> shifted call h = h"
  by (cases h; simp)+

lemma handles_shifted: "handles (w\<lparr>wd_log := wd_log w @ [RqSystem call arg]\<rparr>) = shifted call (handles w)"
  by (simp add: handles_def opened_def balance_def)

lemma handles_failed: "handles (w\<lparr>wd_log := wd_log w @ [RqFailed call arg]\<rparr>) = handles w"
  by (simp add: handles_def opened_def balance_def)

definition calmly :: "world \<Rightarrow> world \<Rightarrow> bool" where
  "calmly w w' \<longleftrightarrow> wd_db w' = wd_db w \<and> dialled_before (wd_log w') = dialled_before (wd_log w) \<and>
     world_sent w' = world_sent w"

lemma calmly_order: "reflp calmly" "transp calmly"
  by (auto simp: reflp_def transp_def calmly_def)

lemma os_call_law:
  assumes "os_call out call arg w = (r, w')"
  shows "handles w' = (if r = None then shifted call (handles w) else handles w)" "calmly w w'"
  using assms
  by (auto simp: os_call_def handles_shifted handles_failed calmly_def dialled_before_def world_sent_def
      split: option.splits)

lemma os_done_law:
  assumes "os_done call arg w = (r, w')"
  shows "handles w' = shifted call (handles w)" "calmly w w'"
  using assms by (auto simp: os_done_def ask_def handles_shifted calmly_def dialled_before_def world_sent_def)

interpretation database: scoped handles "storage_Open out path" "\<lambda>u. db_Close path" for out path
  by unfold_locales
    (auto simp: storage_Open_def db_Close_def elim!: io_elims dest!: os_call_law(1) os_done_law(1))

interpretation logger: scoped handles "setupRuntimeLogger out logConfig" "\<lambda>cleanup. cleanup"
  for out logConfig
  by unfold_locales
    (auto simp: setupRuntimeLogger_eq split: if_splits elim!: io_elims dest!: os_call_law(1) os_done_law(1))

lemma calmly_os: "moves calmly (os_call out call arg)" "moves calmly (os_done call arg)"
  by (rule movesI, erule os_call_law os_done_law)+

lemma opening_moves:
  "moves calmly (storage_Open out path)" "moves calmly (setupRuntimeLogger out logConfig)"
  "moves calmly (db_Close path)" "moves calmly (loadConfig out yaml path)"
proof -
  note comb = moves_combinators [OF calmly_order]
  show "moves calmly (db_Close path)" by (simp add: db_Close_def calmly_os)
  then show "moves calmly (storage_Open out path)"
    unfolding storage_Open_def by (intro comb calmly_os) (simp_all add: db_Close_def calmly_os)
  show "moves calmly (setupRuntimeLogger out logConfig)"
    unfolding setupRuntimeLogger_eq by (intro comb calmly_os)
  show "moves calmly (loadConfig out yaml path)"
    by (rule movesI) (auto simp: loadConfig_def split: prod.splits dest: os_call_law(2))
qed

end
