(* ===== verification/Morpho_Overrides.thy ===== *)
theory Morpho_Overrides
  imports Morpho_Factory
begin

text \<open>
  \<open>internal/morpho/overrides.go\<close>: stored threshold overrides are applied to the modules, and a
  proposed change is tried on a module built for validation only, whose readers answer without
  a network. Those validation modules live over the trivial world \<open>unit\<close>.
\<close>

subsection \<open>Values\<close>

definition threshold_error :: "string \<Rightarrow> string \<Rightarrow> string \<Rightarrow> gerror" where
  "threshold_error moduleID key text = New (moduleID @ ''.'' @ key @ text)"

definition parseThresholdBPS :: "MonitorModuleID \<Rightarrow> string \<Rightarrow> string \<Rightarrow> gerror + int64" where
  "parseThresholdBPS moduleID key v =
     (case ParseInt v of
        None \<Rightarrow> Inl (threshold_error moduleID key '' must be an integer'')
      | Some n \<Rightarrow>
          let parsed = word_of_int n :: int64 in
          if ValidateBPS (moduleID @ ''.'' @ key) parsed \<noteq> None \<or> sint parsed \<le> 0
          then Inl (threshold_error moduleID key '' must be between 1 and 10000 bps'')
          else Inr parsed)"

definition parseThresholdAssetUnits :: "MonitorModuleID \<Rightarrow> string \<Rightarrow> string \<Rightarrow> uint8 \<Rightarrow> gerror + int"
  where
  "parseThresholdAssetUnits moduleID key v assetDecimals =
     (case ParseDecimalUnits (moduleID @ ''.'' @ key) v assetDecimals of
        Inl err \<Rightarrow> Inl err
      | Inr parsed \<Rightarrow>
          if parsed \<le> 0 then Inl (threshold_error moduleID key '' must be positive'') else Inr parsed)"

definition left_of :: "gerror + 'a \<Rightarrow> gerror option" where
  "left_of r = (case r of Inl err \<Rightarrow> Some err | Inr x \<Rightarrow> None)"

definition validateThresholdValue :: "string \<Rightarrow> string \<Rightarrow> string \<Rightarrow> uint8 \<Rightarrow> gerror option" where
  "validateThresholdValue moduleID key v assetDecimals =
     (if key = ''loss_warn_bps'' \<or> key = ''loss_urgent_bps''
      then left_of (parseThresholdBPS moduleID key v)
      else if key = ''idle_warn_threshold_usdc'' \<or> key = ''idle_urgent_threshold_usdc''
      then left_of (parseThresholdAssetUnits moduleID key v assetDecimals)
      else if key = ''change_severity'' \<and> v \<noteq> SeverityWarn \<and> v \<noteq> SeverityUrgent
      then Some (threshold_error moduleID key '' must be warn or urgent'')
      else None)"

subsection \<open>Applying overrides\<close>

definition overridesForModule :: "ThresholdOverride list \<Rightarrow> MonitorModuleID \<Rightarrow> ThresholdOverride list"
  where
  "overridesForModule overrides moduleID = filter (\<lambda>override. to_ModuleID override = moduleID) overrides"

text \<open>The loop over the overrides of one module: an error of its body returns.\<close>

fun overridesLoop :: "('m \<Rightarrow> ThresholdOverride \<Rightarrow> gerror + 'm) \<Rightarrow> 'm \<Rightarrow> ThresholdOverride list
    \<Rightarrow> gerror + 'm" where
  "overridesLoop body module [] = Inr module"
| "overridesLoop body module (override # rest) =
     (case body module override of Inl err \<Rightarrow> Inl err | Inr module' \<Rightarrow> overridesLoop body module' rest)"

definition sharePriceOverride :: "'w SharePriceModule \<Rightarrow> ThresholdOverride \<Rightarrow> gerror + 'w SharePriceModule"
  where
  "sharePriceOverride module override =
     (case validateThresholdValue (to_ModuleID override) (to_Key override) (to_Value override) 0 of
        Some err \<Rightarrow> Inl err
      | None \<Rightarrow>
          if to_Key override = ''loss_warn_bps'' then
            (case parseThresholdBPS ModuleSharePriceLoss (to_Key override) (to_Value override) of
               Inl err \<Rightarrow> Inl err
             | Inr v \<Rightarrow> Inr (module\<lparr>sp_WarnBPS := v\<rparr>))
          else if to_Key override = ''loss_urgent_bps'' then
            (case parseThresholdBPS ModuleSharePriceLoss (to_Key override) (to_Value override) of
               Inl err \<Rightarrow> Inl err
             | Inr v \<Rightarrow> Inr (module\<lparr>sp_UrgentBPS := v\<rparr>))
          else Inr module)"

definition applySharePriceOverrides :: "'w SharePriceModule \<Rightarrow> ThresholdOverride list
    \<Rightarrow> gerror + 'w SharePriceModule" where
  "applySharePriceOverrides module overrides =
     overridesLoop sharePriceOverride module (overridesForModule overrides ModuleSharePriceLoss)"

definition liquidityOverride :: "uint8 \<Rightarrow> 'w WithdrawLiquidityModule \<Rightarrow> ThresholdOverride
    \<Rightarrow> gerror + 'w WithdrawLiquidityModule" where
  "liquidityOverride assetDecimals module override =
     (case validateThresholdValue (to_ModuleID override) (to_Key override) (to_Value override)
             assetDecimals of
        Some err \<Rightarrow> Inl err
      | None \<Rightarrow>
          if to_Key override = ''idle_warn_threshold_usdc'' then
            (case parseThresholdAssetUnits ModuleWithdrawLiquidity (to_Key override)
                    (to_Value override) assetDecimals of
               Inl err \<Rightarrow> Inl err
             | Inr v \<Rightarrow> Inr (module\<lparr>wl_IdleWarn := Some v\<rparr>))
          else if to_Key override = ''idle_urgent_threshold_usdc'' then
            (case parseThresholdAssetUnits ModuleWithdrawLiquidity (to_Key override)
                    (to_Value override) assetDecimals of
               Inl err \<Rightarrow> Inl err
             | Inr v \<Rightarrow> Inr (module\<lparr>wl_IdleUrgent := Some v\<rparr>))
          else Inr module)"

definition applyWithdrawLiquidityOverrides :: "'w WithdrawLiquidityModule
    \<Rightarrow> ThresholdOverride list \<Rightarrow> uint8 \<Rightarrow> gerror + 'w WithdrawLiquidityModule" where
  "applyWithdrawLiquidityOverrides module overrides assetDecimals =
     overridesLoop (liquidityOverride assetDecimals) module
       (overridesForModule overrides ModuleWithdrawLiquidity)"

definition vaultStateOverride :: "'w VaultStateModule \<Rightarrow> ThresholdOverride \<Rightarrow> gerror + 'w VaultStateModule"
  where
  "vaultStateOverride module override =
     (case validateThresholdValue (to_ModuleID override) (to_Key override) (to_Value override) 0 of
        Some err \<Rightarrow> Inl err
      | None \<Rightarrow>
          if to_Key override = ''change_severity''
          then Inr (module\<lparr>vm_ChangeSeverity := to_Value override\<rparr>)
          else Inr module)"

definition applyVaultStateOverrides :: "'w VaultStateModule \<Rightarrow> ThresholdOverride list
    \<Rightarrow> gerror + 'w VaultStateModule" where
  "applyVaultStateOverrides module overrides =
     overridesLoop vaultStateOverride module (overridesForModule overrides ModuleVaultState)"

fun ApplyOverrides :: "'w MonitorModule \<Rightarrow> ThresholdOverride list \<Rightarrow> uint8 \<Rightarrow> gerror + 'w MonitorModule"
  where
  "ApplyOverrides (SharePriceValue m) overrides assetDecimals =
     map_sum id SharePriceValue (applySharePriceOverrides m overrides)"
| "ApplyOverrides (SharePricePtr p) overrides assetDecimals =
     (case p of None \<Rightarrow> Inr (SharePricePtr p)
      | Some m \<Rightarrow> map_sum id SharePriceValue (applySharePriceOverrides m overrides))"
| "ApplyOverrides (LiquidityValue m) overrides assetDecimals =
     map_sum id LiquidityValue (applyWithdrawLiquidityOverrides m overrides assetDecimals)"
| "ApplyOverrides (LiquidityPtr p) overrides assetDecimals =
     (case p of None \<Rightarrow> Inr (LiquidityPtr p)
      | Some m \<Rightarrow> map_sum id LiquidityValue (applyWithdrawLiquidityOverrides m overrides assetDecimals))"
| "ApplyOverrides (VaultStateValue m) overrides assetDecimals =
     map_sum id VaultStateValue (applyVaultStateOverrides m overrides)"
| "ApplyOverrides (VaultStatePtr p) overrides assetDecimals =
     (case p of None \<Rightarrow> Inr (VaultStatePtr p)
      | Some m \<Rightarrow> map_sum id VaultStateValue (applyVaultStateOverrides m overrides))"
| "ApplyOverrides (OtherModule m) overrides assetDecimals = Inr (OtherModule m)"

fun upsertOverride :: "ThresholdOverride list \<Rightarrow> string \<Rightarrow> string \<Rightarrow> string \<Rightarrow> ThresholdOverride list" where
  "upsertOverride [] moduleID key v = [\<lparr>to_ModuleID = moduleID, to_Key = key, to_Value = v\<rparr>]"
| "upsertOverride (override # rest) moduleID key v =
     (if to_ModuleID override = moduleID \<and> to_Key override = key
      then override\<lparr>to_Value := v\<rparr> # rest
      else override # upsertOverride rest moduleID key v)"

subsection \<open>Validating a change\<close>

definition zeroTime :: Time where
  "zeroTime = - (62135596800 * 10 ^ 9)"

definition zeroSnapshot :: VaultStateSnapshot where
  "zeroSnapshot = \<lparr>vs_Owner = [], vs_Curator = [], vs_ReceiveSharesGate = [], vs_SendSharesGate = [],
     vs_ReceiveAssetsGate = [], vs_SendAssetsGate = [], vs_AdapterRegistry = [],
     vs_LiquidityAdapter = [], vs_LiquidityDataHex = [], vs_PerformanceFee = [],
     vs_PerformanceFeeRecipient = [], vs_ManagementFee = [], vs_ManagementFeeRecipient = [],
     vs_MaxRate = [], vs_Adapters = None, vs_AllocatorRoles = None, vs_SentinelRoles = None,
     vs_Timelocks = None, vs_Abdicated = None, vs_ForceDeallocatePenalties = None\<rparr>"

definition noopSharePriceReader :: "('w, gerror + bigint) io" where
  "noopSharePriceReader = ret (Inr (Some 1))"

definition noopIdleAssetReader :: "address \<Rightarrow> ('w, gerror + bigint) io" where
  "noopIdleAssetReader a = ret (Inr (Some 1))"

definition noopExitSimulator :: "'w ExitSimulator" where
  "noopExitSimulator = \<lparr>
     es_Position = ret (Inr \<lparr>ps_Vault = 0, ps_Owner = 0, ps_Receiver = 0, ps_ShareBalance = None,
       ps_AssetSymbol = [], ps_AssetDecimals = 0, ps_ObservedAt = zeroTime\<rparr>),
     es_SimulateFullExit = (\<lambda>request. ret (zeroSimulation, None))\<rparr>"

definition noopVaultStateReader :: "('w, gerror + VaultStateSnapshot) io" where
  "noopVaultStateReader = ret (Inr zeroSnapshot)"

definition sharePriceThresholdConfig :: "ModuleConfig \<Rightarrow> gerror + 'w SharePriceModule" where
  "sharePriceThresholdConfig moduleConfig =
     (case ModuleInt64 moduleConfig ModuleSharePriceLoss ''loss_warn_bps'' of
        Inl err \<Rightarrow> Inl err
      | Inr warn \<Rightarrow>
     (case ModuleInt64 moduleConfig ModuleSharePriceLoss ''loss_urgent_bps'' of
        Inl err \<Rightarrow> Inl err
      | Inr urgent \<Rightarrow>
          Inr \<lparr>sp_BaselineSharePrice = Some 1, sp_PreviousSharePrice = None, sp_WarnBPS = warn,
               sp_UrgentBPS = urgent, sp_Reader = Some noopSharePriceReader, sp_Clock = None\<rparr>))"

definition withdrawLiquidityThresholdConfig :: "AddressLib \<Rightarrow> ModuleConfig \<Rightarrow> uint8
    \<Rightarrow> gerror + 'w WithdrawLiquidityModule" where
  "withdrawLiquidityThresholdConfig lib moduleConfig assetDecimals =
     (case ModuleDecimalUnits moduleConfig ModuleWithdrawLiquidity ''idle_warn_threshold_usdc''
             assetDecimals of
        Inl err \<Rightarrow> Inl err
      | Inr warn \<Rightarrow>
     (case ModuleDecimalUnits moduleConfig ModuleWithdrawLiquidity ''idle_urgent_threshold_usdc''
             assetDecimals of
        Inl err \<Rightarrow> Inl err
      | Inr urgent \<Rightarrow>
          Inr \<lparr>wl_IdleAssetReader = Some noopIdleAssetReader, wl_ExitSimulator = Some noopExitSimulator,
               wl_Owner = al_HexToAddress lib ''0x0000000000000000000000000000000000000001'',
               wl_Receiver = al_HexToAddress lib ''0x0000000000000000000000000000000000000002'',
               wl_Vault = al_HexToAddress lib ''0x0000000000000000000000000000000000000003'',
               wl_IdleWarn = Some warn, wl_IdleUrgent = Some urgent, wl_Clock = None\<rparr>))"

definition vaultStateThresholdConfig :: "ModuleConfig \<Rightarrow> gerror + 'w VaultStateModule" where
  "vaultStateThresholdConfig moduleConfig =
     (case ModuleString moduleConfig ModuleVaultState ''change_severity'' of
        Inl err \<Rightarrow> Inl err
      | Inr severity \<Rightarrow>
          Inr \<lparr>vm_Reader = Some noopVaultStateReader, vm_Baseline = zeroSnapshot,
               vm_ChangeSeverity = severity, vm_Clock = None\<rparr>)"

text \<open>The module of the configuration with the overrides, checked by its own \<open>ValidateConfig\<close>.\<close>

definition check_effective :: "gerror + 'm \<Rightarrow> ('m \<Rightarrow> gerror + 'm) \<Rightarrow> ('m \<Rightarrow> gerror option)
    \<Rightarrow> gerror option" where
  "check_effective config apply_overrides validate =
     (case config of
        Inl err \<Rightarrow> Some err
      | Inr module \<Rightarrow>
          (case apply_overrides module of Inl err \<Rightarrow> Some err | Inr effective \<Rightarrow> validate effective))"

definition ValidateThresholdChange :: "AddressLib \<Rightarrow> string \<Rightarrow> string \<Rightarrow> string \<Rightarrow> ModuleConfig
    \<Rightarrow> ThresholdOverride list \<Rightarrow> uint8 \<Rightarrow> gerror option" where
  "ValidateThresholdChange lib moduleID key v moduleConfig overrides assetDecimals =
     (case validateThresholdValue moduleID key v assetDecimals of
        Some err \<Rightarrow> Some err
      | None \<Rightarrow>
          if moduleConfig = None then None
          else
            let overrides = upsertOverride overrides moduleID key v in
            if moduleID = ModuleSharePriceLoss then
              check_effective (sharePriceThresholdConfig moduleConfig :: gerror + unit SharePriceModule)
                (\<lambda>m. applySharePriceOverrides m overrides) SharePrice_ValidateConfig
            else if moduleID = ModuleWithdrawLiquidity then
              check_effective
                (withdrawLiquidityThresholdConfig lib moduleConfig assetDecimals
                  :: gerror + unit WithdrawLiquidityModule)
                (\<lambda>m. applyWithdrawLiquidityOverrides m overrides assetDecimals)
                WithdrawLiquidity_ValidateConfig
            else if moduleID = ModuleVaultState then
              check_effective (vaultStateThresholdConfig moduleConfig :: gerror + unit VaultStateModule)
                (\<lambda>m. applyVaultStateOverrides m overrides) VaultState_ValidateConfig
            else None)"

subsection \<open>What the loops change\<close>

text \<open>
  A loop reads and writes the thresholds only: on two modules with equal thresholds it fails on
  both or sets the same thresholds on both.
\<close>

lemma left_of_None [simp]: "left_of r = None \<longleftrightarrow> (\<exists>x. r = Inr x)"
  by (cases r) (auto simp: left_of_def)

lemma overridesLoop_simulation:
  assumes "overridesLoop body m os = Inr m'" "R m n"
    and "\<And>m n ov m'. R m n \<Longrightarrow> body m ov = Inr m' \<Longrightarrow> \<exists>n'. body' n ov = Inr n' \<and> R m' n'"
  shows "\<exists>n'. overridesLoop body' n os = Inr n' \<and> R m' n'"
  using assms(1,2)
proof (induction os arbitrary: m n)
  case (Cons ov os)
  from Cons.prems(1) obtain m1 where m1: "body m ov = Inr m1" "overridesLoop body m1 os = Inr m'"
    by (auto split: sum.splits)
  with assms(3) [OF Cons.prems(2)] obtain n1 where "body' n ov = Inr n1" "R m1 n1" by blast
  with Cons.IH m1(2) show ?case by auto
qed simp

text \<open>A run of a loop on one module is a run on any other module with the same thresholds.\<close>

lemma overridesLoop_frame:
  assumes "overridesLoop body m os = Inr m'" "n = frame m"
    and "\<And>m ov. body' (frame m) ov = map_sum id frame (body m ov)"
  shows "overridesLoop body' n os = Inr (frame m')"
  using overridesLoop_simulation [OF assms(1), of "\<lambda>m n. n = frame m" n body'] assms(2,3) by simp

lemma sharePriceOverride_frame:
  "sharePriceOverride (n\<lparr>sp_WarnBPS := sp_WarnBPS m, sp_UrgentBPS := sp_UrgentBPS m\<rparr>) ov =
     map_sum id (\<lambda>m'. n\<lparr>sp_WarnBPS := sp_WarnBPS m', sp_UrgentBPS := sp_UrgentBPS m'\<rparr>) (sharePriceOverride m ov)"
  by (simp add: sharePriceOverride_def split: option.split sum.split)

lemma applySharePriceOverrides_frame:
  assumes "applySharePriceOverrides m os = Inr m'" "sp_WarnBPS n = sp_WarnBPS m" "sp_UrgentBPS n = sp_UrgentBPS m"
  shows "applySharePriceOverrides n os = Inr (n\<lparr>sp_WarnBPS := sp_WarnBPS m', sp_UrgentBPS := sp_UrgentBPS m'\<rparr>)"
  unfolding applySharePriceOverrides_def
  by (rule overridesLoop_frame [OF assms(1) [unfolded applySharePriceOverrides_def], where
      frame = "\<lambda>m. n\<lparr>sp_WarnBPS := sp_WarnBPS m, sp_UrgentBPS := sp_UrgentBPS m\<rparr>"]) (simp_all add: sharePriceOverride_frame assms(2-))

lemma liquidityOverride_frame:
  "liquidityOverride dec (n\<lparr>wl_IdleWarn := wl_IdleWarn m, wl_IdleUrgent := wl_IdleUrgent m\<rparr>) ov =
     map_sum id (\<lambda>m'. n\<lparr>wl_IdleWarn := wl_IdleWarn m', wl_IdleUrgent := wl_IdleUrgent m'\<rparr>) (liquidityOverride dec m ov)"
  by (simp add: liquidityOverride_def split: option.split sum.split)

lemma applyWithdrawLiquidityOverrides_frame:
  assumes "applyWithdrawLiquidityOverrides m os dec = Inr m'" 
    "wl_IdleWarn n = wl_IdleWarn m" "wl_IdleUrgent n = wl_IdleUrgent m"
  shows "applyWithdrawLiquidityOverrides n os dec = Inr (n\<lparr>wl_IdleWarn := wl_IdleWarn m', wl_IdleUrgent := wl_IdleUrgent m'\<rparr>)"
  unfolding applyWithdrawLiquidityOverrides_def
  by (rule overridesLoop_frame [OF assms(1) [unfolded applyWithdrawLiquidityOverrides_def], where
      frame = "\<lambda>m. n\<lparr>wl_IdleWarn := wl_IdleWarn m, wl_IdleUrgent := wl_IdleUrgent m\<rparr>"]) (simp_all add: liquidityOverride_frame assms(2-))

lemma vaultStateOverride_frame:
  "vaultStateOverride (n\<lparr>vm_ChangeSeverity := vm_ChangeSeverity m\<rparr>) ov =
     map_sum id (\<lambda>m'. n\<lparr>vm_ChangeSeverity := vm_ChangeSeverity m'\<rparr>) (vaultStateOverride m ov)"
  by (simp add: vaultStateOverride_def split: option.split sum.split)

lemma applyVaultStateOverrides_frame:
  assumes "applyVaultStateOverrides m os = Inr m'" "vm_ChangeSeverity n = vm_ChangeSeverity m"
  shows "applyVaultStateOverrides n os = Inr (n\<lparr>vm_ChangeSeverity := vm_ChangeSeverity m'\<rparr>)"
  unfolding applyVaultStateOverrides_def
  by (rule overridesLoop_frame [OF assms(1) [unfolded applyVaultStateOverrides_def], where
      frame = "\<lambda>m. n\<lparr>vm_ChangeSeverity := vm_ChangeSeverity m\<rparr>"]) (simp_all add: vaultStateOverride_frame assms(2-))

lemma applySharePriceOverrides_keeps:
  assumes "applySharePriceOverrides m os = Inr e"
  shows "sp_BaselineSharePrice e = sp_BaselineSharePrice m" "sp_Reader e = sp_Reader m"
proof -
  have "e = m\<lparr>sp_WarnBPS := sp_WarnBPS e, sp_UrgentBPS := sp_UrgentBPS e\<rparr>"
    using applySharePriceOverrides_frame [OF assms refl refl] assms by simp
  then obtain a b where "e = m\<lparr>sp_WarnBPS := a, sp_UrgentBPS := b\<rparr>" by blast
  then show "sp_BaselineSharePrice e = sp_BaselineSharePrice m" "sp_Reader e = sp_Reader m" by simp_all
qed

lemma applyWithdrawLiquidityOverrides_keeps:
  assumes "applyWithdrawLiquidityOverrides m os dec = Inr e"
  shows "wl_IdleAssetReader e = wl_IdleAssetReader m" "wl_ExitSimulator e = wl_ExitSimulator m"
    "wl_Owner e = wl_Owner m" "wl_Receiver e = wl_Receiver m" "wl_Vault e = wl_Vault m"
proof -
  have "e = m\<lparr>wl_IdleWarn := wl_IdleWarn e, wl_IdleUrgent := wl_IdleUrgent e\<rparr>"
    using applyWithdrawLiquidityOverrides_frame [OF assms refl refl] assms by simp
  then obtain a b where "e = m\<lparr>wl_IdleWarn := a, wl_IdleUrgent := b\<rparr>" by blast
  then show "wl_IdleAssetReader e = wl_IdleAssetReader m" "wl_ExitSimulator e = wl_ExitSimulator m"
    "wl_Owner e = wl_Owner m" "wl_Receiver e = wl_Receiver m" "wl_Vault e = wl_Vault m" by simp_all
qed

lemma applyVaultStateOverrides_keeps:
  assumes "applyVaultStateOverrides m os = Inr e"
  shows "vm_Reader e = vm_Reader m"
proof -
  have "e = m\<lparr>vm_ChangeSeverity := vm_ChangeSeverity e\<rparr>"
    using applyVaultStateOverrides_frame [OF assms refl] assms by simp
  then obtain a where "e = m\<lparr>vm_ChangeSeverity := a\<rparr>" by blast
  then show "vm_Reader e = vm_Reader m" by simp
qed

subsection \<open>The thresholds of a module value\<close>

datatype Threshold = Bps int | Units bigint | Level Severity

definition share_price_threshold :: "'w SharePriceModule \<Rightarrow> string \<Rightarrow> Threshold option" where
  "share_price_threshold m key =
     (if key = ''loss_warn_bps'' then Some (Bps (sint (sp_WarnBPS m)))
      else if key = ''loss_urgent_bps'' then Some (Bps (sint (sp_UrgentBPS m))) else None)"

definition liquidity_threshold :: "'w WithdrawLiquidityModule \<Rightarrow> string \<Rightarrow> Threshold option" where
  "liquidity_threshold m key =
     (if key = ''idle_warn_threshold_usdc'' then Some (Units (wl_IdleWarn m))
      else if key = ''idle_urgent_threshold_usdc'' then Some (Units (wl_IdleUrgent m)) else None)"

definition vault_state_threshold :: "'w VaultStateModule \<Rightarrow> string \<Rightarrow> Threshold option" where
  "vault_state_threshold m key =
     (if key = ''change_severity'' then Some (Level (vm_ChangeSeverity m)) else None)"

fun threshold :: "'w MonitorModule \<Rightarrow> string \<Rightarrow> Threshold option" where
  "threshold (SharePriceValue m) key = share_price_threshold m key"
| "threshold (SharePricePtr p) key = Option.bind p (\<lambda>m. share_price_threshold m key)"
| "threshold (LiquidityValue m) key = liquidity_threshold m key"
| "threshold (LiquidityPtr p) key = Option.bind p (\<lambda>m. liquidity_threshold m key)"
| "threshold (VaultStateValue m) key = vault_state_threshold m key"
| "threshold (VaultStatePtr p) key = Option.bind p (\<lambda>m. vault_state_threshold m key)"
| "threshold (OtherModule m) key = None"

text \<open>What a stored text means for a key.\<close>

definition read_threshold :: "uint8 \<Rightarrow> string \<Rightarrow> string \<Rightarrow> Threshold option" where
  "read_threshold dec key v =
     (if key = ''loss_warn_bps'' \<or> key = ''loss_urgent_bps'' then map_option Bps (ParseInt v)
      else if key = ''idle_warn_threshold_usdc'' \<or> key = ''idle_urgent_threshold_usdc''
      then (case ParseDecimalUnits key v dec of Inl err \<Rightarrow> None | Inr n \<Rightarrow> Some (Units (Some n)))
      else if key = ''change_severity'' then Some (Level v) else None)"

text \<open>The last stored value of a key.\<close>

definition stored_value :: "ThresholdOverride list \<Rightarrow> string \<Rightarrow> string option" where
  "stored_value os key = map_of (rev (map (\<lambda>ov. (to_Key ov, to_Value ov)) os)) key"

lemma stored_value_simps [simp]:
  "stored_value [] key = None"
  "stored_value (override # os) key =
     (case stored_value os key of
        None \<Rightarrow> if to_Key override = key then Some (to_Value override) else None
      | Some v \<Rightarrow> Some v)"
  by (auto simp: stored_value_def map_add_def split: option.splits)

text \<open>The name in \<open>ParseDecimalUnits\<close> is for its errors only.\<close>

lemma ParseDecimalUnits_name:
  "ParseDecimalUnits name v dec = Inr n \<Longrightarrow> ParseDecimalUnits name' v dec = Inr n"
  by (auto simp: ParseDecimalUnits_def Let_def split: if_splits prod.splits)

lemma parseThresholdBPS_Inr:
  assumes "parseThresholdBPS i key v = Inr x"
  shows "ParseInt v = Some (sint x)" "0 < sint x" "sint x \<le> 10000"
proof -
  from assms obtain n where n: "ParseInt v = Some n" "x = word_of_int n"
    by (auto simp: parseThresholdBPS_def Let_def split: option.splits if_splits)
  with ParseInt_range [OF n(1)] have "sint x = n"
    by (simp add: sint_sbintrunc' signed_take_bit_int_eq_self)
  with n show "ParseInt v = Some (sint x)" by simp
  show "0 < sint x" "sint x \<le> 10000"
    using assms by (auto simp: parseThresholdBPS_def Let_def ValidateBPS_def split: option.splits if_splits)
qed

lemma parseThresholdAssetUnits_Inr:
  assumes "parseThresholdAssetUnits i key v dec = Inr n"
  shows "ParseDecimalUnits key' v dec = Inr n" "0 < n"
  using assms by (auto simp: parseThresholdAssetUnits_def intro: ParseDecimalUnits_name
      split: sum.splits if_splits)

text \<open>An override sets the threshold of its key, if the module has it, and no other.\<close>

definition sets_threshold :: "uint8 \<Rightarrow> ThresholdOverride \<Rightarrow> (string \<Rightarrow> Threshold option)
    \<Rightarrow> (string \<Rightarrow> Threshold option) \<Rightarrow> bool" where
  "sets_threshold dec override before after \<longleftrightarrow>
     (\<forall>key. after key =
        (if before key \<noteq> None \<and> to_Key override = key then read_threshold dec key (to_Value override)
         else before key) \<and> (after key = None \<longleftrightarrow> before key = None))"

lemma sharePriceOverride_sets:
  "sharePriceOverride m ov = Inr m' \<Longrightarrow>
   sets_threshold dec ov (share_price_threshold m) (share_price_threshold m')"
  by (auto simp: sharePriceOverride_def sets_threshold_def share_price_threshold_def read_threshold_def
      parseThresholdBPS_Inr(1) split: option.splits sum.splits if_splits)

lemma liquidityOverride_sets:
  "liquidityOverride dec m ov = Inr m' \<Longrightarrow>
   sets_threshold dec ov (liquidity_threshold m) (liquidity_threshold m')"
  by (auto simp: liquidityOverride_def sets_threshold_def liquidity_threshold_def read_threshold_def
      parseThresholdAssetUnits_Inr(1) split: option.splits sum.splits if_splits)

lemma vaultStateOverride_sets:
  "vaultStateOverride m ov = Inr m' \<Longrightarrow>
   sets_threshold dec ov (vault_state_threshold m) (vault_state_threshold m')"
  by (auto simp: vaultStateOverride_def sets_threshold_def vault_state_threshold_def read_threshold_def
      split: option.splits if_splits)

lemma overridesLoop_thresholds:
  assumes "overridesLoop body m os = Inr m'"
    and "\<And>m ov m'. body m ov = Inr m' \<Longrightarrow> sets_threshold dec ov (th m) (th m')"
  shows "th m' key = (if th m key = None then None else case stored_value os key of
      None \<Rightarrow> th m key | Some v \<Rightarrow> read_threshold dec key v)"
  using assms(1)
proof (induction os arbitrary: m)
  case (Cons ov os)
  from Cons.prems obtain m1 where m1: "body m ov = Inr m1" "overridesLoop body m1 os = Inr m'"
    by (auto split: sum.splits)
  with assms(2) have "sets_threshold dec ov (th m) (th m1)" by blast
  then have step: "th m1 key = (if th m key \<noteq> None \<and> to_Key ov = key
        then read_threshold dec key (to_Value ov) else th m key)" "th m1 key = None \<longleftrightarrow> th m key = None"
    unfolding sets_threshold_def by blast+
  show ?case
    unfolding Cons.IH [OF m1(2)] stored_value_simps using step by (auto split: option.splits)
qed auto


text \<open>The value that is stored for a module and a key.\<close>

definition override_of :: "ThresholdOverride list \<Rightarrow> string \<Rightarrow> string \<Rightarrow> string option" where
  "override_of os i key = stored_value (overridesForModule os i) key"

lemma ApplyOverrides_thresholds:
  assumes "ApplyOverrides mv os dec = Inr mv'" "module_id mv = Some i" "threshold mv key \<noteq> None"
  shows "threshold mv' key = (case override_of os i key of
      None \<Rightarrow> threshold mv key | Some v \<Rightarrow> read_threshold dec key v)"
proof -
  note loop = overridesLoop_thresholds [where key = key and dec = dec]
  have share: "share_price_threshold m' key = (case override_of os ModuleSharePriceLoss key of
      None \<Rightarrow> share_price_threshold m key | Some v \<Rightarrow> read_threshold dec key v)"
    if "applySharePriceOverrides m os = Inr m'" "share_price_threshold m key \<noteq> None"
    for m m' :: "'a SharePriceModule"
    using loop [OF that(1) [unfolded applySharePriceOverrides_def], of share_price_threshold] that(2)
    by (simp add: override_of_def sharePriceOverride_sets)
  have liquidity: "liquidity_threshold m' key = (case override_of os ModuleWithdrawLiquidity key of
      None \<Rightarrow> liquidity_threshold m key | Some v \<Rightarrow> read_threshold dec key v)"
    if "applyWithdrawLiquidityOverrides m os dec = Inr m'" "liquidity_threshold m key \<noteq> None"
    for m m' :: "'a WithdrawLiquidityModule"
    using loop [OF that(1) [unfolded applyWithdrawLiquidityOverrides_def], of liquidity_threshold] that(2)
    by (simp add: override_of_def liquidityOverride_sets)
  have state: "vault_state_threshold m' key = (case override_of os ModuleVaultState key of
      None \<Rightarrow> vault_state_threshold m key | Some v \<Rightarrow> read_threshold dec key v)"
    if "applyVaultStateOverrides m os = Inr m'" "vault_state_threshold m key \<noteq> None"
    for m m' :: "'a VaultStateModule"
    using loop [OF that(1) [unfolded applyVaultStateOverrides_def], of vault_state_threshold] that(2)
    by (simp add: override_of_def vaultStateOverride_sets)
  show ?thesis
    using assms share liquidity state
    by (cases mv) (auto simp: map_sum_Inr_iff split: option.splits)
qed

subsection \<open>Upserting\<close>

lemma overridesForModule_upsert_other:
  "i \<noteq> j \<Longrightarrow> overridesForModule (upsertOverride os i key v) j = overridesForModule os j"
  by (induction os) (auto simp: overridesForModule_def)

definition distinct_overrides :: "ThresholdOverride list \<Rightarrow> bool" where
  "distinct_overrides os \<longleftrightarrow> distinct (map (\<lambda>ov. (to_ModuleID ov, to_Key ov)) os)"

lemma override_of_Cons:
  "override_of (ov # os) i key = (case override_of os i key of
     None \<Rightarrow> if to_ModuleID ov = i \<and> to_Key ov = key then Some (to_Value ov) else None
   | Some v \<Rightarrow> Some v)"
  by (auto simp: override_of_def overridesForModule_def split: option.splits)

lemma override_of_Nil: "override_of [] i key = None"
  by (simp add: override_of_def overridesForModule_def)

lemma override_of_None:
  "override_of os i key = None \<longleftrightarrow> (i, key) \<notin> set (map (\<lambda>ov. (to_ModuleID ov, to_Key ov)) os)"
  by (induction os) (auto simp: override_of_Nil override_of_Cons split: option.splits)

lemma override_of_upsert:
  assumes "distinct_overrides os"
  shows "override_of (upsertOverride os i key v) j key' =
    (if j = i \<and> key' = key then Some v else override_of os j key')"
  using assms
proof (induction os)
  case (Cons ov os)
  show ?case
  proof (cases "to_ModuleID ov = i \<and> to_Key ov = key")
    case True
    with Cons.prems have "override_of os i key = None"
      by (auto simp: override_of_None distinct_overrides_def)
    with True show ?thesis by (auto simp: override_of_Cons split: option.splits)
  next
    case False
    with Cons show ?thesis by (auto simp: override_of_Cons distinct_overrides_def split: option.splits)
  qed
qed (simp add: override_of_Nil override_of_Cons)

subsection \<open>An accepted change\<close>

text \<open>What the monitor asks of a module before it runs it: the overrides apply and the effective
  module accepts its own configuration.\<close>

fun accepts_itself :: "'w MonitorModule \<Rightarrow> bool" where
  "accepts_itself (SharePriceValue m) = (SharePrice_ValidateConfig m = None)"
| "accepts_itself (SharePricePtr p) = (case p of None \<Rightarrow> False | Some m \<Rightarrow> SharePrice_ValidateConfig m = None)"
| "accepts_itself (LiquidityValue m) = (WithdrawLiquidity_ValidateConfig m = None)"
| "accepts_itself (LiquidityPtr p) =
     (case p of None \<Rightarrow> False | Some m \<Rightarrow> WithdrawLiquidity_ValidateConfig m = None)"
| "accepts_itself (VaultStateValue m) = (VaultState_ValidateConfig m = None)"
| "accepts_itself (VaultStatePtr p) = (case p of None \<Rightarrow> False | Some m \<Rightarrow> VaultState_ValidateConfig m = None)"
| "accepts_itself (OtherModule m) = False"

definition runs_under :: "ThresholdOverride list \<Rightarrow> uint8 \<Rightarrow> 'w MonitorModule \<Rightarrow> bool" where
  "runs_under os dec mv \<longleftrightarrow> (case ApplyOverrides mv os dec of Inl err \<Rightarrow> False | Inr eff \<Rightarrow> accepts_itself eff)"

lemma runs_under_upsert_other:
  assumes "runs_under os dec mv" "module_id mv = Some j" "j \<noteq> i"
  shows "runs_under (upsertOverride os i key v) dec mv"
proof -
  have "ApplyOverrides mv (upsertOverride os i key v) dec = ApplyOverrides mv os dec"
    using assms(2,3) by (cases mv) (auto simp: applySharePriceOverrides_def
        applyWithdrawLiquidityOverrides_def applyVaultStateOverrides_def overridesForModule_upsert_other
        split: option.splits)
  with assms(1) show ?thesis by (simp add: runs_under_def)
qed

lemma check_effective_None:
  "check_effective config f validate = None \<longleftrightarrow>
     (\<exists>m e. config = Inr m \<and> f m = Inr e \<and> validate e = None)"
  by (auto simp: check_effective_def split: sum.splits)

lemma ValidateThresholdChange_tries:
  assumes "ValidateThresholdChange lib i key v c os dec = None" "c \<noteq> None"
  shows "i = ModuleSharePriceLoss \<Longrightarrow> \<exists>(m :: unit SharePriceModule) e.
      sharePriceThresholdConfig c = Inr m \<and>
      applySharePriceOverrides m (upsertOverride os i key v) = Inr e \<and> SharePrice_ValidateConfig e = None"
    and "i = ModuleWithdrawLiquidity \<Longrightarrow> \<exists>(m :: unit WithdrawLiquidityModule) e.
      withdrawLiquidityThresholdConfig lib c dec = Inr m \<and>
      applyWithdrawLiquidityOverrides m (upsertOverride os i key v) dec = Inr e \<and>
      WithdrawLiquidity_ValidateConfig e = None"
    and "i = ModuleVaultState \<Longrightarrow> \<exists>(m :: unit VaultStateModule) e.
      vaultStateThresholdConfig c = Inr m \<and>
      applyVaultStateOverrides m (upsertOverride os i key v) = Inr e \<and> VaultState_ValidateConfig e = None"
  using assms by (auto simp: ValidateThresholdChange_def Let_def check_effective_None split: option.splits)

lemma share_price_accepted:
  assumes "buildSharePriceModule sys c reader = Inr m" "runs_under os dec (SharePriceValue m)"
    and "sharePriceThresholdConfig c = Inr (m0 :: 'v SharePriceModule)"
    and "applySharePriceOverrides m0 os' = Inr e0" "SharePrice_ValidateConfig e0 = None"
  shows "runs_under os' dec (SharePriceValue m)"
proof -
  have "sp_WarnBPS m = sp_WarnBPS m0" "sp_UrgentBPS m = sp_UrgentBPS m0"
    using assms(1,3) by (auto simp: buildSharePriceModule_def sharePriceThresholdConfig_def split: sum.splits)
  note new = applySharePriceOverrides_frame [OF assms(4) this]
  from assms(2) obtain e where e: "applySharePriceOverrides m os = Inr e" "SharePrice_ValidateConfig e = None"
    by (auto simp: runs_under_def map_sum_Inr_iff split: sum.splits)
  have "SharePrice_ValidateConfig (m\<lparr>sp_WarnBPS := sp_WarnBPS e0, sp_UrgentBPS := sp_UrgentBPS e0\<rparr>) = None"
    using e(2) assms(5)
    by (auto simp: SharePrice_ValidateConfig_def applySharePriceOverrides_keeps [OF e(1)] split: if_splits)
  then show ?thesis by (simp add: runs_under_def new)
qed

lemma liquidity_accepted:
  assumes "buildWithdrawLiquidityModule sys cfg c reader sim vault owner receiver = Inr m"
    and "runs_under os dec (LiquidityValue m)" "dec = ec_AssetDecimals (cfg_Ethereum cfg)"
    and "withdrawLiquidityThresholdConfig lib c dec = Inr (m0 :: 'v WithdrawLiquidityModule)"
    and "applyWithdrawLiquidityOverrides m0 os' dec = Inr e0" "WithdrawLiquidity_ValidateConfig e0 = None"
  shows "runs_under os' dec (LiquidityValue m)"
proof -
  have "wl_IdleWarn m = wl_IdleWarn m0" "wl_IdleUrgent m = wl_IdleUrgent m0"
    using assms(1,3,4)
    by (auto simp: buildWithdrawLiquidityModule_def withdrawLiquidityThresholdConfig_def split: sum.splits)
  note new = applyWithdrawLiquidityOverrides_frame [OF assms(5) this]
  from assms(2) obtain e where e: "applyWithdrawLiquidityOverrides m os dec = Inr e"
      "WithdrawLiquidity_ValidateConfig e = None"
    by (auto simp: runs_under_def map_sum_Inr_iff split: sum.splits)
  have "WithdrawLiquidity_ValidateConfig
      (m\<lparr>wl_IdleWarn := wl_IdleWarn e0, wl_IdleUrgent := wl_IdleUrgent e0\<rparr>) = None"
    using e(2) assms(6)
    by (auto simp: WithdrawLiquidity_ValidateConfig_def applyWithdrawLiquidityOverrides_keeps [OF e(1)]
        split: if_splits)
  then show ?thesis by (simp add: runs_under_def new)
qed

lemma vault_state_accepted:
  assumes "buildVaultStateModule sys reread c reader = Inr m" "runs_under os dec (VaultStateValue m)"
    and "vaultStateThresholdConfig c = Inr (m0 :: 'v VaultStateModule)"
    and "applyVaultStateOverrides m0 os' = Inr e0" "VaultState_ValidateConfig e0 = None"
  shows "runs_under os' dec (VaultStateValue m)"
proof -
  have "vm_ChangeSeverity m = vm_ChangeSeverity m0"
    using assms(1,3) by (auto simp: buildVaultStateModule_def vaultStateThresholdConfig_def split: sum.splits)
  note new = applyVaultStateOverrides_frame [OF assms(4) this]
  from assms(2) obtain e where e: "applyVaultStateOverrides m os = Inr e" "VaultState_ValidateConfig e = None"
    by (auto simp: runs_under_def map_sum_Inr_iff split: sum.splits)
  have "VaultState_ValidateConfig (m\<lparr>vm_ChangeSeverity := vm_ChangeSeverity e0\<rparr>) = None"
    using e(2) assms(5)
    by (auto simp: VaultState_ValidateConfig_def applyVaultStateOverrides_keeps [OF e(1)] split: if_splits)
  then show ?thesis by (simp add: runs_under_def new)
qed

text \<open>What the factory builds, with the block it was built from.\<close>

lemma BuildModules_member:
  assumes "BuildModules sys reread cfg entries reader vault owner receiver exitSim = Inr ms" "mv \<in> set ms"
  obtains (share) c m where "mv = SharePriceValue m" "buildSharePriceModule sys c reader = Inr m"
      "EnabledModuleConfig cfg ModuleSharePriceLoss = Inr (Some c)"
    | (liquidity) c m where "mv = LiquidityValue m"
      "buildWithdrawLiquidityModule sys cfg c reader exitSim vault owner receiver = Inr m"
      "EnabledModuleConfig cfg ModuleWithdrawLiquidity = Inr (Some c)"
    | (state) c m where "mv = VaultStateValue m" "buildVaultStateModule sys reread c reader = Inr m"
      "EnabledModuleConfig cfg ModuleVaultState = Inr (Some c)"
  using assms
  by (auto simp: BuildModules_def append_enabled_def map_sum_Inr_iff
      split: option.splits sum.splits)

lemma EnabledModuleConfig_Some:
  assumes "EnabledModuleConfig cfg i = Inr (Some c)"
  shows "cfg_module cfg i = Some c" "c \<noteq> None"
  using assms by (auto simp: EnabledModuleConfig_def ModuleEnabled_def config_lookup_def
      split: option.splits sum.splits if_splits)

text \<open>\<open>cfg.Modules[moduleID]\<close>: a missing key reads as the nil map.\<close>

definition module_config :: "Config \<Rightarrow> string \<Rightarrow> ModuleConfig" where
  "module_config cfg i = (case cfg_module cfg i of None \<Rightarrow> None | Some c \<Rightarrow> c)"

lemma accepted_change_runs:
  assumes "BuildModules sys reread cfg entries reader vault owner receiver exitSim = Inr ms" "mv \<in> set ms"
    and "runs_under os dec mv" "dec = ec_AssetDecimals (cfg_Ethereum cfg)"
    and "ValidateThresholdChange lib i key v (module_config cfg i) os dec = None"
  shows "runs_under (upsertOverride os i key v) dec mv"
  using assms(1,2)
proof (cases rule: BuildModules_member)
  case (share c m)
  note c = EnabledModuleConfig_Some [OF share(3)]
  show ?thesis
  proof (cases "i = ModuleSharePriceLoss")
    case True
    with ValidateThresholdChange_tries(1) [OF assms(5)] c share_price_accepted [OF share(2)] assms(3) share(1)
    show ?thesis by (auto simp: module_config_def)
  qed (use runs_under_upsert_other [OF assms(3)] share(1) in auto)
next
  case (liquidity c m)
  note c = EnabledModuleConfig_Some [OF liquidity(3)]
  show ?thesis
  proof (cases "i = ModuleWithdrawLiquidity")
    case True
    with ValidateThresholdChange_tries(2) [OF assms(5)] c
      liquidity_accepted [OF liquidity(2) _ assms(4)] assms(3) liquidity(1)
    show ?thesis by (auto simp: module_config_def)
  qed (use runs_under_upsert_other [OF assms(3)] liquidity(1) in auto)
next
  case (state c m)
  note c = EnabledModuleConfig_Some [OF state(3)]
  show ?thesis
  proof (cases "i = ModuleVaultState")
    case True
    with ValidateThresholdChange_tries(3) [OF assms(5)] c vault_state_accepted [OF state(2)] assms(3) state(1)
    show ?thesis by (auto simp: module_config_def)
  qed (use runs_under_upsert_other [OF assms(3)] state(1) in auto)
qed

lemma accepted_change_read:
  assumes "distinct_overrides os" "ApplyOverrides mv os dec = Inr mv0"
    and "ApplyOverrides mv (upsertOverride os i key v) dec = Inr mv1"
    and "module_id mv = Some i" "threshold mv key' \<noteq> None"
  shows "threshold mv1 key' = (if key' = key then read_threshold dec key v else threshold mv0 key')"
  using ApplyOverrides_thresholds [OF assms(2,4,5)] ApplyOverrides_thresholds [OF assms(3,4,5)]
  by (simp add: override_of_upsert [OF assms(1)])

subsection \<open>The order of the overrides does not matter\<close>

lemma override_of_Some:
  "distinct_overrides os \<Longrightarrow> override_of os i key = Some v \<longleftrightarrow>
     \<lparr>to_ModuleID = i, to_Key = key, to_Value = v\<rparr> \<in> set os"
proof (induction os)
  case (Cons ov os)
  have ov: "ov = \<lparr>to_ModuleID = to_ModuleID ov, to_Key = to_Key ov, to_Value = to_Value ov\<rparr>" by simp
  show ?case
  proof (cases "to_ModuleID ov = i \<and> to_Key ov = key")
    case True
    with Cons.prems have none: "override_of os i key = None"
      by (auto simp: override_of_None distinct_overrides_def)
    with Cons have "\<lparr>to_ModuleID = i, to_Key = key, to_Value = v\<rparr> \<notin> set os"
      by (auto simp: distinct_overrides_def)
    with True none show ?thesis by (cases ov) (auto simp: override_of_Cons)
  next
    case False
    with Cons show ?thesis
      by (cases ov) (auto simp: override_of_Cons distinct_overrides_def split: option.splits)
  qed
qed (simp add: override_of_Nil)

lemma override_of_set:
  assumes "distinct_overrides os" "distinct_overrides os'" "set os = set os'"
  shows "override_of os i key = override_of os' i key"
  using override_of_Some [OF assms(1), of i key] override_of_Some [OF assms(2), of i key] assms(3)
  by (cases "override_of os i key"; cases "override_of os' i key") auto

text \<open>Whether an override is accepted does not depend on the module.\<close>

lemma overridesLoop_succeeds:
  assumes "\<And>m n ov. (\<exists>m'. body m ov = Inr m') \<longleftrightarrow> (\<exists>n'. body n ov = Inr n')"
  shows "(\<exists>m'. overridesLoop body m os = Inr m') \<longleftrightarrow> (\<forall>ov \<in> set os. \<exists>m'. body m ov = Inr m')"
proof (induction os arbitrary: m)
  case (Cons ov os)
  show ?case
  proof (cases "body m ov")
    case (Inr m1)
    have "(\<forall>ov \<in> set os. \<exists>m'. body m1 ov = Inr m') \<longleftrightarrow> (\<forall>ov \<in> set os. \<exists>m'. body m ov = Inr m')"
      using assms by blast
    with Inr Cons.IH [of m1] show ?thesis by auto
  qed auto
qed simp

lemma override_bodies_succeed:
  "(\<exists>m'. sharePriceOverride m ov = Inr m') \<longleftrightarrow> (\<exists>n'. sharePriceOverride n ov = Inr n')"
  "(\<exists>m'. liquidityOverride dec p ov = Inr m') \<longleftrightarrow> (\<exists>n'. liquidityOverride dec q ov = Inr n')"
  "(\<exists>m'. vaultStateOverride v ov = Inr m') \<longleftrightarrow> (\<exists>n'. vaultStateOverride w ov = Inr n')"
  by (simp_all add: sharePriceOverride_def liquidityOverride_def vaultStateOverride_def
      split: option.split sum.split)

lemma overridesLoop_perm:
  assumes "\<And>m n ov. (\<exists>m'. body m ov = Inr m') \<longleftrightarrow> (\<exists>n'. body n ov = Inr n')"
    and "set os' = set os" "overridesLoop body m os = Inr e"
  obtains e' where "overridesLoop body m os' = Inr e'"
  using assms(2,3) overridesLoop_succeeds [of body, OF assms(1)] by metis

lemma set_overridesForModule:
  "set os = set os' \<Longrightarrow> set (overridesForModule os i) = set (overridesForModule os' i)"
  by (auto simp: overridesForModule_def)

lemma share_price_equality:
  assumes "\<And>key. share_price_threshold e key = share_price_threshold e' key"
    and "e = m\<lparr>sp_WarnBPS := a, sp_UrgentBPS := b\<rparr>" "e' = m\<lparr>sp_WarnBPS := a', sp_UrgentBPS := b'\<rparr>"
  shows "e' = e"
  using assms(1) [of "''loss_warn_bps''"] assms(1) [of "''loss_urgent_bps''"] assms(2,3)
  by (simp add: share_price_threshold_def signed_word_eqI [of a a'] signed_word_eqI [of b b'])

lemma liquidity_equality:
  assumes "\<And>key. liquidity_threshold e key = liquidity_threshold e' key"
    and "e = m\<lparr>wl_IdleWarn := a, wl_IdleUrgent := b\<rparr>" "e' = m\<lparr>wl_IdleWarn := a', wl_IdleUrgent := b'\<rparr>"
  shows "e' = e"
  using assms(1) [of "''idle_warn_threshold_usdc''"] assms(1) [of "''idle_urgent_threshold_usdc''"] assms(2,3)
  by (simp add: liquidity_threshold_def)

lemma vault_state_equality:
  assumes "\<And>key. vault_state_threshold e key = vault_state_threshold e' key"
    and "e = m\<lparr>vm_ChangeSeverity := a\<rparr>" "e' = m\<lparr>vm_ChangeSeverity := a'\<rparr>"
  shows "e' = e"
  using assms(1) [of "''change_severity''"] assms(2,3) by (simp add: vault_state_threshold_def)

text \<open>What the frame lemmas say of a run on the module itself.\<close>

lemma applied_shapes:
  "applySharePriceOverrides m os = Inr e \<Longrightarrow>
     e = m\<lparr>sp_WarnBPS := sp_WarnBPS e, sp_UrgentBPS := sp_UrgentBPS e\<rparr>"
  "applyWithdrawLiquidityOverrides p os dec = Inr e2 \<Longrightarrow>
     e2 = p\<lparr>wl_IdleWarn := wl_IdleWarn e2, wl_IdleUrgent := wl_IdleUrgent e2\<rparr>"
  "applyVaultStateOverrides v os = Inr e3 \<Longrightarrow> e3 = v\<lparr>vm_ChangeSeverity := vm_ChangeSeverity e3\<rparr>"
  using applySharePriceOverrides_frame [of m os e m] applyWithdrawLiquidityOverrides_frame [of p os dec e2 p]
    applyVaultStateOverrides_frame [of v os e3 v] by auto

lemma overridesLoop_same:
  assumes "overridesLoop body m os = Inr e" "overridesLoop body m os' = Inr e'"
    and "\<And>key. stored_value os key = stored_value os' key"
    and "\<And>m ov m'. body m ov = Inr m' \<Longrightarrow> sets_threshold dec ov (th m) (th m')"
  shows "th e key = th e' key"
proof -
  have "th e key = (if th m key = None then None else case stored_value os key of
      None \<Rightarrow> th m key | Some v \<Rightarrow> read_threshold dec key v)"
    by (rule overridesLoop_thresholds [OF assms(1)]) (rule assms(4))
  moreover have "th e' key = (if th m key = None then None else case stored_value os' key of
      None \<Rightarrow> th m key | Some v \<Rightarrow> read_threshold dec key v)"
    by (rule overridesLoop_thresholds [OF assms(2)]) (rule assms(4))
  ultimately show ?thesis unfolding assms(3) by simp
qed

lemma apply_perm:
  assumes "distinct_overrides os" "distinct_overrides os'" "set os = set os'"
  shows "applySharePriceOverrides m os = Inr e \<Longrightarrow> applySharePriceOverrides m os' = Inr e"
    and "applyWithdrawLiquidityOverrides p os dec = Inr e2 \<Longrightarrow>
      applyWithdrawLiquidityOverrides p os' dec = Inr e2"
    and "applyVaultStateOverrides v os = Inr e3 \<Longrightarrow> applyVaultStateOverrides v os' = Inr e3"
proof -
  have same: "stored_value (overridesForModule os i) key = stored_value (overridesForModule os' i) key"
    for i key using override_of_set [OF assms] by (simp add: override_of_def)
  note perm = overridesLoop_perm [OF override_bodies_succeed(1)]
    overridesLoop_perm [OF override_bodies_succeed(2)] overridesLoop_perm [OF override_bodies_succeed(3)]
  note sets = set_overridesForModule [OF assms(3) [symmetric]]
  show "applySharePriceOverrides m os = Inr e \<Longrightarrow> applySharePriceOverrides m os' = Inr e"
  proof -
    assume e: "applySharePriceOverrides m os = Inr e"
    then obtain e' where e': "applySharePriceOverrides m os' = Inr e'"
      unfolding applySharePriceOverrides_def by (rule perm(1) [OF sets])
    have "share_price_threshold e key = share_price_threshold e' key" for key
      by (rule overridesLoop_same [where dec = 0, OF e [unfolded applySharePriceOverrides_def] e' [unfolded applySharePriceOverrides_def]])
        (simp_all add: same sharePriceOverride_sets)
    from share_price_equality [OF this applied_shapes(1) [OF e] applied_shapes(1) [OF e']] e'
    show ?thesis by simp
  qed
  show "applyWithdrawLiquidityOverrides p os dec = Inr e2 \<Longrightarrow> applyWithdrawLiquidityOverrides p os' dec = Inr e2"
  proof -
    assume e: "applyWithdrawLiquidityOverrides p os dec = Inr e2"
    then obtain e' where e': "applyWithdrawLiquidityOverrides p os' dec = Inr e'"
      unfolding applyWithdrawLiquidityOverrides_def by (rule perm(2) [OF sets])
    have "liquidity_threshold e2 key = liquidity_threshold e' key" for key
      by (rule overridesLoop_same [where dec = dec, OF e [unfolded applyWithdrawLiquidityOverrides_def] e' [unfolded applyWithdrawLiquidityOverrides_def]])
        (simp_all add: same liquidityOverride_sets)
    from liquidity_equality [OF this applied_shapes(2) [OF e] applied_shapes(2) [OF e']] e'
    show ?thesis by simp
  qed
  show "applyVaultStateOverrides v os = Inr e3 \<Longrightarrow> applyVaultStateOverrides v os' = Inr e3"
  proof -
    assume e: "applyVaultStateOverrides v os = Inr e3"
    then obtain e' where e': "applyVaultStateOverrides v os' = Inr e'"
      unfolding applyVaultStateOverrides_def by (rule perm(3) [OF sets])
    have "vault_state_threshold e3 key = vault_state_threshold e' key" for key
      by (rule overridesLoop_same [where dec = 0, OF e [unfolded applyVaultStateOverrides_def] e' [unfolded applyVaultStateOverrides_def]])
        (simp_all add: same vaultStateOverride_sets)
    from vault_state_equality [OF this applied_shapes(3) [OF e] applied_shapes(3) [OF e']] e'
    show ?thesis by simp
  qed
qed

lemma ApplyOverrides_perm:
  assumes "distinct_overrides os" "distinct_overrides os'" "set os = set os'"
    and "ApplyOverrides mv os dec = Inr e"
  shows "ApplyOverrides mv os' dec = Inr e"
  using assms(4) by (cases mv) (auto simp: map_sum_Inr_iff split: option.splits
      dest: apply_perm [OF assms(1-3)])

end
