(* ===== verification/App_Overrides.thy ===== *)
theory App_Overrides
  imports Morpho_Overrides Storage "HOL-Library.Multiset"
begin

text \<open>
  \<open>internal/app/overrides.go\<close>: the wrapper the monitor runs instead of a module
  (\<open>thresholdOverrideModule\<close>). It reads the stored overrides before each validation and each
  run and works on the effective module; the bootstrap stays the module's own. The module
  factory behind \<open>ModuleFactory\<close> is the one of \<open>Morpho_Overrides\<close>, the program's only one.

  A module held as a nil pointer panics when a method is called on it; the factory builds values
  only, and the operations of a nil pointer fail here with the error \<open>nil_receiver\<close>.
\<close>

definition nil_receiver :: gerror where
  "nil_receiver = New ''panic: value method called using nil pointer''"

definition ops_of :: "'w Clock \<Rightarrow> 'w MonitorModule \<Rightarrow> 'w Module" where
  "ops_of sys mv =
     (case module_ops sys mv of
        Some m \<Rightarrow> m
      | None \<Rightarrow> \<lparr>mod_ID = [], mod_ValidateConfig = ret (Some nil_receiver),
                  mod_Bootstrap = ret (Inl nil_receiver), mod_Monitor = ret (Inl nil_receiver)\<rparr>)"

definition toThresholdOverrides :: "StoredOverride list \<Rightarrow> ThresholdOverride list" where
  "toThresholdOverrides overrides =
     map (\<lambda>ov. \<lparr>to_ModuleID = so_ModuleID ov, to_Key = so_Key ov, to_Value = so_Value ov\<rparr>) overrides"

definition effective :: "'w Driver \<Rightarrow> uint8 \<Rightarrow> 'w MonitorModule \<Rightarrow> ('w, gerror + 'w MonitorModule) io"
  where
  "effective repos assetDecimals module =
     bindE (ListThresholdOverrides repos) (\<lambda>overrides.
       ret (ApplyOverrides module (toThresholdOverrides overrides) assetDecimals))"

definition override_ValidateConfig :: "'w Clock \<Rightarrow> 'w Driver \<Rightarrow> uint8 \<Rightarrow> 'w MonitorModule
    \<Rightarrow> ('w, gerror option) io" where
  "override_ValidateConfig sys repos assetDecimals module =
     tryE (effective repos assetDecimals module) (\<lambda>err. ret (Some err))
       (\<lambda>eff. mod_ValidateConfig (ops_of sys eff))"

definition override_Monitor :: "'w Clock \<Rightarrow> 'w Driver \<Rightarrow> uint8 \<Rightarrow> 'w MonitorModule
    \<Rightarrow> ('w, gerror + MonitorResult) io" where
  "override_Monitor sys repos assetDecimals module =
     bindE (effective repos assetDecimals module) (\<lambda>eff. mod_Monitor (ops_of sys eff))"

definition thresholdOverrideModule :: "'w Clock \<Rightarrow> 'w Driver \<Rightarrow> uint8 \<Rightarrow> 'w MonitorModule \<Rightarrow> 'w Module"
  where
  "thresholdOverrideModule sys repos assetDecimals module =
     \<lparr>mod_ID = mod_ID (ops_of sys module),
      mod_ValidateConfig = override_ValidateConfig sys repos assetDecimals module,
      mod_Bootstrap = mod_Bootstrap (ops_of sys module),
      mod_Monitor = override_Monitor sys repos assetDecimals module\<rparr>"

definition withThresholdOverrides :: "'w Clock \<Rightarrow> 'w MonitorModule option list \<Rightarrow> 'w Driver \<Rightarrow> uint8
    \<Rightarrow> 'w Module option list" where
  "withThresholdOverrides sys modules repos assetDecimals =
     map (map_option (thresholdOverrideModule sys repos assetDecimals)) modules"

text \<open>\<open>upsertEffectiveOverride\<close>, which nothing calls.\<close>

fun upsertEffectiveOverride :: "StoredOverride list \<Rightarrow> string \<Rightarrow> string \<Rightarrow> string \<Rightarrow> StoredOverride list"
  where
  "upsertEffectiveOverride [] moduleID key v =
     [\<lparr>so_ModuleID = moduleID, so_Key = key, so_Value = v, so_UpdatedByUserID = 0,
       so_UpdatedAt = zeroTime\<rparr>]"
| "upsertEffectiveOverride (override # rest) moduleID key v =
     (if so_ModuleID override = moduleID \<and> so_Key override = key
      then override\<lparr>so_Value := v\<rparr> # rest
      else override # upsertEffectiveOverride rest moduleID key v)"

lemma toThresholdOverrides_upsert:
  "toThresholdOverrides (upsertEffectiveOverride os moduleID key v) =
     upsertOverride (toThresholdOverrides os) moduleID key v"
  by (induction os) (simp_all add: toThresholdOverrides_def)

subsection \<open>The stored overrides\<close>

text \<open>
  What the modules see is a function of the table: the rows in the order of their keys. Rows
  whose time does not parse make the listing fail, so \<open>overrides_readable\<close> is a condition.
\<close>

definition stored_overrides :: "Database \<Rightarrow> ThresholdOverride list" where
  "stored_overrides db =
     map (\<lambda>row. \<lparr>to_ModuleID = or_module_id row, to_Key = or_key row, to_Value = or_value row\<rparr>)
       (select_overrides db)"

lemma scanOverride_Inr:
  assumes "scanOverride row = Inr ov"
  shows "so_ModuleID ov = or_module_id row" "so_Key ov = or_key row" "so_Value ov = or_value row"
  using assms by (auto simp: scanOverride_def split: sum.splits)

lemma scanned_overrides:
  "scan_rows scanOverride rows = Inr overrides \<Longrightarrow>
   toThresholdOverrides overrides =
     map (\<lambda>row. \<lparr>to_ModuleID = or_module_id row, to_Key = or_key row, to_Value = or_value row\<rparr>) rows"
  by (induction rows arbitrary: overrides)
    (auto simp: toThresholdOverrides_def scanOverride_Inr split: sum.splits)

lemma distinct_map_set_perm:
  assumes "distinct (map f xs)" "mset ys = mset xs"
  shows "distinct (map f ys)"
  using assms by (metis mset_map mset_eq_imp_distinct_iff)

lemma mset_sort_by: "mset (sort_by le xs) = mset xs"
proof -
  have "mset (insort_by le x ys) = add_mset x (mset ys)" for x ys
    by (induction ys) auto
  then show ?thesis by (induction xs) (simp_all add: sort_by_def)
qed

lemma stored_overrides_distinct: "db_ok db \<Longrightarrow> distinct_overrides (stored_overrides db)"
  using distinct_map_set_perm [of "\<lambda>r. (or_module_id r, or_key r)" "db_overrides db" "select_overrides db"]
  by (simp add: distinct_overrides_def stored_overrides_def db_ok_def select_overrides_def mset_sort_by
      comp_def)

lemma find_key_Some:
  assumes "distinct (map (\<lambda>r. (or_module_id r, or_key r)) rows)"
  shows "map_option or_value (find (\<lambda>r. or_module_id r = i \<and> or_key r = k) rows) = Some v \<longleftrightarrow>
    (\<exists>r \<in> set rows. or_module_id r = i \<and> or_key r = k \<and> or_value r = v)"
  using assms
proof (induction rows)
  case (Cons a rows)
  show ?case
  proof (cases "or_module_id a = i \<and> or_key a = k")
    case True
    then have "\<not> (\<exists>r \<in> set rows. or_module_id r = i \<and> or_key r = k)"
      using Cons.prems by (auto simp: image_iff)
    with True show ?thesis by auto
  next
    case False
    with Cons show ?thesis by auto
  qed
qed simp

lemma override_of_stored:
  assumes "db_ok db"
  shows "override_of (stored_overrides db) i k = override_value db i k"
proof -
  have d: "distinct (map (\<lambda>r. (or_module_id r, or_key r)) (db_overrides db))"
    using assms by (simp add: db_ok_def)
  have "override_of (stored_overrides db) i k = Some v \<longleftrightarrow> override_value db i k = Some v" for v
    unfolding override_of_Some [OF stored_overrides_distinct [OF assms]] override_value_def find_key_Some [OF d]
    by (auto simp: stored_overrides_def select_overrides_def)
  then show ?thesis by (metis not_Some_eq)
qed

lemma distinct_upsertOverride:
  assumes "distinct_overrides os"
  shows "distinct_overrides (upsertOverride os i k v)"
proof -
  have "map (\<lambda>ov. (to_ModuleID ov, to_Key ov)) (upsertOverride os i k v) =
    (let ks = map (\<lambda>ov. (to_ModuleID ov, to_Key ov)) os in if (i, k) \<in> set ks then ks else ks @ [(i, k)])"
    by (induction os) (auto simp: Let_def)
  with assms show ?thesis by (simp add: distinct_overrides_def Let_def)
qed

text \<open>After a row is upserted, the modules see the overrides with that one changed, up to order.\<close>

lemma stored_overrides_upsert:
  assumes "db_ok db" "upsert_override r db = Inr db'"
  shows "set (stored_overrides db') =
    set (upsertOverride (stored_overrides db) (or_module_id r) (or_key r) (or_value r))"
proof -
  let ?os = "upsertOverride (stored_overrides db) (or_module_id r) (or_key r) (or_value r)"
  note ok = stmt_ok(4) [OF assms]
  have d: "distinct_overrides ?os"
    by (simp add: distinct_upsertOverride stored_overrides_distinct assms(1))
  have "override_of (stored_overrides db') i k = override_of ?os i k" for i k
    by (simp add: override_of_stored ok assms(1) override_of_upsert stored_overrides_distinct
        upsert_override_value [OF assms(2)])
  then have "ov \<in> set (stored_overrides db') \<longleftrightarrow> ov \<in> set ?os" for ov
    using override_of_Some [OF stored_overrides_distinct [OF ok]] override_of_Some [OF d]
    by (cases ov) (metis ThresholdOverride.cases)
  then show ?thesis by blast
qed

subsection \<open>What a module with overrides does\<close>

definition overrides_readable :: "Database \<Rightarrow> bool" where
  "overrides_readable db \<longleftrightarrow> list_all (\<lambda>row. parse_RFC3339 (or_updated_at row) \<noteq> None) (db_overrides db)"

context driver
begin

lemma ListThresholdOverrides_law:
  assumes "ListThresholdOverrides dr w = (r, w')"
  shows "dr_Get dr w' = dr_Get dr w"
    "r = Inr overrides \<Longrightarrow> toThresholdOverrides overrides = stored_overrides (dr_Get dr w)"
proof -
  have "dr_Get dr w' = dr_Get dr w \<and>
    (\<forall>overrides. r = Inr overrides \<longrightarrow> toThresholdOverrides overrides = stored_overrides (dr_Get dr w))"
    using assms unfolding ListThresholdOverrides_def Let_def
    by (auto elim!: io_elims query_stmt_cases split: sum.splits dest!: fault_get
        simp: scanned_overrides stored_overrides_def)
  then show "dr_Get dr w' = dr_Get dr w"
    "r = Inr overrides \<Longrightarrow> toThresholdOverrides overrides = stored_overrides (dr_Get dr w)"
    by blast+
qed

lemma effective_law:
  assumes "effective dr dec mv w = (r, w')"
  shows "dr_Get dr w' = dr_Get dr w"
    "r = Inr eff \<Longrightarrow> ApplyOverrides mv (stored_overrides (dr_Get dr w)) dec = Inr eff"
proof -
  have "dr_Get dr w' = dr_Get dr w \<and>
    (\<forall>eff. r = Inr eff \<longrightarrow> ApplyOverrides mv (stored_overrides (dr_Get dr w)) dec = Inr eff)"
    using assms unfolding effective_def
    by (auto elim!: io_elims dest: ListThresholdOverrides_law)
  then show "dr_Get dr w' = dr_Get dr w"
    "r = Inr eff \<Longrightarrow> ApplyOverrides mv (stored_overrides (dr_Get dr w)) dec = Inr eff"
    by blast+
qed

end

end
