(* ===== verification/App_Providers.thy ===== *)
theory App_Providers
  imports App_Overrides Telegram_Commands World
begin

text \<open>
  \<open>internal/app/providers.go\<close>: what stands behind the Telegram commands for the event log and
  the thresholds. A threshold change is proposed (\<open>BuildSetConfirmation\<close>), kept as a pending
  confirmation, and applied by \<open>Confirm\<close>; both validate it against the stored overrides.
\<close>

subsection \<open>The event log\<close>

record 'w eventLogProvider =
  lp_repos :: "'w Driver"
  lp_limit :: int

definition formatEventFields :: "string gomap \<Rightarrow> string" where
  "formatEventFields flds =
     (case flds of
        None \<Rightarrow> []
      | Some fm \<Rightarrow> strings_Join (map (\<lambda>(k, v). k @ ''='' @ v) (sorted_list_of_fmap fm)) '' '')"

definition formatEventRecord :: "EventRecord \<Rightarrow> string" where
  "formatEventRecord event =
     (let line = RFC3339Nano (ev_CreatedAt event) @ '' '' @ ev_EventType event @ '' '' @ ev_Message event;
          flds = formatEventFields (ev_Fields event) in
      if flds = [] then line else line @ '' '' @ flds)"

definition Recent :: "'w eventLogProvider \<Rightarrow> bool \<Rightarrow> ('w, gerror + string) io" where
  "Recent provider includeInfo =
     (let limit = (if lp_limit provider \<le> 0 then 10 else lp_limit provider) in
      bindE (ListRecentEvents (lp_repos provider) includeInfo limit) (\<lambda>events.
        ret (Inr (if events = [] then ''no recent events''
                  else strings_Join (map formatEventRecord events) [CHR 0x0A]))))"

subsection \<open>Listing thresholds\<close>

text \<open>\<open>fmt\<close>'s \<open>%v\<close> of a decoded YAML value; the text of a floating-point number is a parameter.\<close>

fun Sprint_any :: "(string \<Rightarrow> string) \<Rightarrow> anyval \<Rightarrow> string" where
  "Sprint_any showFloat AnyNil = ''<nil>''"
| "Sprint_any showFloat (AnyBool b) = (if b then ''true'' else ''false'')"
| "Sprint_any showFloat (AnyInt i) = dec_int (sint i)"
| "Sprint_any showFloat (AnyUint64 u) = dec_nat (unat u)"
| "Sprint_any showFloat (AnyFloat l) = showFloat l"
| "Sprint_any showFloat (AnyString s) = s"
| "Sprint_any showFloat (AnySeq vs) = ''['' @ strings_Join (map (Sprint_any showFloat) vs) '' '' @ '']''"
| "Sprint_any showFloat (AnyMap kvs) =
     ''map['' @ strings_Join (map (\<lambda>(k, t). k @ '':'' @ t)
       (sort_key fst (map (\<lambda>(k, v). (k, Sprint_any showFloat v)) kvs))) '' '' @ '']''"

definition staticThresholdLines :: "(string \<Rightarrow> string) \<Rightarrow> Config \<Rightarrow> string list" where
  "staticThresholdLines showFloat cfg =
     concat (map (\<lambda>(moduleID, keys).
       case cfg_module cfg moduleID of
         None \<Rightarrow> []
       | Some moduleConfig \<Rightarrow> concat (map (\<lambda>key.
           case config_lookup moduleConfig key of
             None \<Rightarrow> []
           | Some v \<Rightarrow> [moduleID @ '' '' @ key @ ''='' @ Sprint_any showFloat v]) keys))
       [(ModuleSharePriceLoss, [''loss_warn_bps'', ''loss_urgent_bps'']),
        (ModuleWithdrawLiquidity, [''idle_warn_threshold_usdc'', ''idle_urgent_threshold_usdc'']),
        (ModuleVaultState, [''change_severity''])])"

record 'w thresholdProvider =
  tp_repos :: "'w Driver"
  tp_config :: Config
  tp_clock :: "'w Clock option"
  tp_ttl :: Duration
  tp_assetDecimals :: uint8
  tp_lib :: AddressLib

definition List_Thresholds :: "(string \<Rightarrow> string) \<Rightarrow> 'w thresholdProvider \<Rightarrow> ('w, gerror + string) io" where
  "List_Thresholds showFloat provider =
     bindE (ListThresholdOverrides (tp_repos provider)) (\<lambda>overrides.
       let static = staticThresholdLines showFloat (tp_config provider);
           lines = [''static thresholds:''] @ (if static = [] then [''no static thresholds''] else static) @
             [''threshold overrides:''] @
             (if overrides = [] then [''no threshold overrides'']
              else map (\<lambda>ov. so_ModuleID ov @ '' '' @ so_Key ov @ ''='' @ so_Value ov @ '' by '' @
                dec_int (sint (so_UpdatedByUserID ov)) @ '' at '' @ RFC3339Nano (so_UpdatedAt ov)) overrides)
       in ret (Inr (strings_Join lines [CHR 0x0A])))"

subsection \<open>The payload of a confirmation\<close>

definition json_request :: "ThresholdSetRequest \<Rightarrow> json" where
  "json_request r = JObj [(''ModuleID'', JStr (tq_ModuleID r)), (''Key'', JStr (tq_Key r)),
     (''Value'', JStr (tq_Value r)), (''UserID'', JNum (dec_int (sint (tq_UserID r))))]"

definition is_int64 :: "json \<Rightarrow> bool" where
  "is_int64 v = (case v of JNull \<Rightarrow> True | JNum l \<Rightarrow> ParseInt l \<noteq> None | _ \<Rightarrow> False)"

definition int_over :: "json \<Rightarrow> int64 \<Rightarrow> int64" where
  "int_over v old =
     (case v of JNum l \<Rightarrow> (case ParseInt l of Some n \<Rightarrow> word_of_int n | None \<Rightarrow> old) | _ \<Rightarrow> old)"

definition request_of_members :: "(string \<times> json) list \<Rightarrow> ThresholdSetRequest" where
  "request_of_members kvs =
     \<lparr>tq_ModuleID = text_field ''ModuleID'' kvs, tq_Key = text_field ''Key'' kvs,
      tq_Value = text_field ''Value'' kvs,
      tq_UserID = fold (\<lambda>(k, v). int_over v) (named ''UserID'' kvs) 0\<rparr>"

definition unmarshal_request :: "string \<Rightarrow> gerror + ThresholdSetRequest" where
  "unmarshal_request s =
     (case json_decode s of
        None \<Rightarrow> Inl (New ''invalid JSON'')
      | Some JNull \<Rightarrow> Inr (request_of_members [])
      | Some (JObj kvs) \<Rightarrow>
          if list_all (\<lambda>name. list_all (is_text \<circ> snd) (named name kvs)) [''ModuleID'', ''Key'', ''Value''] \<and>
             list_all (is_int64 \<circ> snd) (named ''UserID'' kvs)
          then Inr (request_of_members kvs)
          else Inl (New ''json: cannot unmarshal value into Go struct ThresholdSetRequest'')
      | Some _ \<Rightarrow> Inl (New ''json: cannot unmarshal value into Go value of type ThresholdSetRequest''))"

subsection \<open>Changing thresholds\<close>

definition provider_now :: "'w Clock \<Rightarrow> 'w thresholdProvider \<Rightarrow> 'w Clock" where
  "provider_now sys provider = clock_now sys (tp_clock provider)"

definition validateChange :: "'w thresholdProvider \<Rightarrow> string \<Rightarrow> string \<Rightarrow> string \<Rightarrow> ('w, gerror option) io"
  where
  "validateChange provider moduleID key v =
     tryE (ListThresholdOverrides (tp_repos provider)) (\<lambda>err. ret (Some err)) (\<lambda>overrides.
       ret (ValidateThresholdChange (tp_lib provider) moduleID key v
              (module_config (tp_config provider) moduleID) (toThresholdOverrides overrides)
              (tp_assetDecimals provider)))"

definition defaultThresholdConfirmationTTL :: Duration where
  "defaultThresholdConfirmationTTL = 10 * 60 * 10 ^ 9"

definition BuildSetConfirmation :: "'w Clock \<Rightarrow> 'w thresholdProvider \<Rightarrow> int64 \<Rightarrow> string \<Rightarrow> string \<Rightarrow> string
    \<Rightarrow> ('w, gerror + string) io" where
  "BuildSetConfirmation sys provider userID module key v =
     (case BuildThresholdConfirmation
             \<lparr>tq_ModuleID = module, tq_Key = key, tq_Value = v, tq_UserID = userID\<rparr> of
        Inl err \<Rightarrow> ret (Inl err)
      | Inr confirmation \<Rightarrow>
          let request = th_Request confirmation in
          onErr (validateChange provider (tq_ModuleID request) (tq_Key request) (tq_Value request))
            (\<lambda>err. ret (Inl err)) (
          bindIO (provider_now sys provider) (\<lambda>now.
          let ttl = (if tp_ttl provider \<le> 0 then defaultThresholdConfirmationTTL else tp_ttl provider) in
          onErr (InsertPendingConfirmation (tp_repos provider)
              \<lparr>pc_ID = th_ID confirmation, pc_Kind = ''threshold'',
               pc_PayloadJSON = json_encode (json_request request), pc_RequestedByUserID = userID,
               pc_ExpiresAt = now + ttl, pc_CreatedAt = now\<rparr>)
            (\<lambda>err. ret (Inl err))
            (ret (Inr (th_Message confirmation @ [CHR 0x0A] @ ''confirm with '' @ CommandConfirm @ '' '' @
               th_ID confirmation))))))"

text \<open>\<open>Confirm\<close> after the confirmation is consumed.\<close>

definition applyConfirmation :: "'w thresholdProvider \<Rightarrow> int64 \<Rightarrow> string \<Rightarrow> Time \<Rightarrow> PendingConfirmation
    \<Rightarrow> ('w, gerror + string) io" where
  "applyConfirmation provider userID i now confirmation =
     (if pc_Kind confirmation \<noteq> ''threshold''
      then ret (Inl (New (''pending confirmation '' @ Quote i @ '' is not a threshold change'')))
      else (case unmarshal_request (pc_PayloadJSON confirmation) of
        Inl err \<Rightarrow> ret (Inl err)
      | Inr request \<Rightarrow>
     (case BuildThresholdConfirmation request of
        Inl err \<Rightarrow> ret (Inl err)
      | Inr c \<Rightarrow>
     onErr (validateChange provider (tq_ModuleID request) (tq_Key request) (tq_Value request))
       (\<lambda>err. ret (Inl err)) (
     onErr (UpsertThresholdOverride (tp_repos provider) (tq_ModuleID request) (tq_Key request)
              (tq_Value request) (pc_RequestedByUserID confirmation) now)
       (\<lambda>err. ret (Inl err)) (
     onErr (Repositories_Record (tp_repos provider) EventSecurity ''threshold override applied''
              (Some (fmap_of_list [(''module_id'', tq_ModuleID request), (''key'', tq_Key request),
                 (''value'', tq_Value request), (''user_id'', dec_int (sint userID))])) now)
       (\<lambda>err. ret (Inl err))
       (ret (Inr (''threshold override applied '' @ tq_ModuleID request @ '' '' @ tq_Key request @ ''='' @
          tq_Value request))))))))"

definition Confirm :: "'w Clock \<Rightarrow> 'w thresholdProvider \<Rightarrow> int64 \<Rightarrow> string \<Rightarrow> ('w, gerror + string) io" where
  "Confirm sys provider userID i =
     bindIO (provider_now sys provider) (\<lambda>now.
     bindE (ConsumePendingConfirmationForUser (tp_repos provider) i userID now)
       (applyConfirmation provider userID i now))"

subsection \<open>A payload is read back\<close>

lemma foldName_ascii:
  assumes "(of_char c :: nat) < 128"
  shows "foldName (c # s) = foldRune (of_char c) # foldName s"
proof -
  have "decode_rune (c # s) = (of_char c, 1)"
    using assms by (simp add: decode_rune_def byte_at_def)
  then show ?thesis by (simp add: foldName_def runes.simps [of "c # s"])
qed

lemma ParseInt_dec_int:
  assumes "- (2 ^ 63) \<le> n" "n < 2 ^ 63"
  shows "ParseInt (dec_int n) = Some n"
proof -
  have digits: "list_all is_digit (dec_nat m)" for m
    using dec_nat_digits by (simp add: list_all_iff)
  have sign: "(case dec_nat m of
      [] \<Rightarrow> (False, [])
    | c # cs \<Rightarrow> if c = CHR ''+'' then (False, cs) else if c = CHR ''-'' then (True, cs) else (False, dec_nat m))
    = (False, dec_nat m)" for m
  proof -
    obtain c cs where c: "dec_nat m = c # cs" by (cases "dec_nat m") simp_all
    then have "is_digit c" using dec_nat_digits [of m] by simp
    then have "c \<noteq> CHR ''+''" "c \<noteq> CHR ''-''" by (auto simp: is_digit_def)
    with c show ?thesis by simp
  qed
  show ?thesis
    using assms by (auto simp: dec_int_def ParseInt_def Let_def sign digits nat_of_digits_dec_nat)
qed

lemma ParseInt_sint: "ParseInt (dec_int (sint (u :: int64))) = Some (sint u)"
  using sint_range_size [of u] by (intro ParseInt_dec_int) (simp_all add: word_size)

definition text_request :: "ThresholdSetRequest \<Rightarrow> bool" where
  "text_request r \<longleftrightarrow> valid_utf8 (tq_ModuleID r) \<and> valid_utf8 (tq_Key r) \<and> valid_utf8 (tq_Value r)"

lemma unmarshal_json_request:
  assumes "text_request r"
  shows "unmarshal_request (json_encode (json_request r)) = Inr r"
proof -
  let ?kvs = "[(''ModuleID'', JStr (tq_ModuleID r)), (''Key'', JStr (tq_Key r)),
     (''Value'', JStr (tq_Value r)), (''UserID'', JNum (dec_int (sint (tq_UserID r))))]"
  have "json_ok (json_request r)" by (auto simp: json_request_def)
  then have "json_decode (json_encode (json_request r)) = Some (scrub_json (json_request r))"
    by (rule json_decode_encode)
  also have "scrub_json (json_request r) = JObj ?kvs"
    using assms by (simp add: json_request_def scrub_valid text_request_def)
  finally have "json_decode (json_encode (json_request r)) = Some (JObj ?kvs)" .
  moreover have "named ''ModuleID'' ?kvs = [(''ModuleID'', JStr (tq_ModuleID r))]"
    "named ''Key'' ?kvs = [(''Key'', JStr (tq_Key r))]"
    "named ''Value'' ?kvs = [(''Value'', JStr (tq_Value r))]"
    "named ''UserID'' ?kvs = [(''UserID'', JNum (dec_int (sint (tq_UserID r))))]"
    by (simp_all add: named_def foldName_ascii foldRune_def)
  moreover from this have "request_of_members ?kvs = r"
    by (simp add: request_of_members_def text_field_def int_over_def ParseInt_sint)
  ultimately show ?thesis
    by (simp only: unmarshal_request_def option.case json.case)
      (simp add: is_text_def is_int64_def ParseInt_sint)
qed

subsection \<open>Laws over any database\<close>

text \<open>The listing depends on the overrides of the database only.\<close>

lemma stored_overrides_cong: "db_overrides db' = db_overrides db \<Longrightarrow> stored_overrides db' = stored_overrides db"
  by (simp add: stored_overrides_def select_overrides_def)

lemma delete_confirmation_overrides [simp]: "db_overrides (delete_confirmation i db) = db_overrides db"
  by (simp add: delete_confirmation_def)

text \<open>A stored override that a request asks for.\<close>

definition override_row :: "ThresholdSetRequest \<Rightarrow> int64 \<Rightarrow> Time \<Rightarrow> OverrideRow" where
  "override_row request userID now =
     \<lparr>or_module_id = tq_ModuleID request, or_key = tq_Key request, or_value = tq_Value request,
      or_updated_by_user_id = userID, or_updated_at = stored_time now\<rparr>"

abbreviation asked :: "int64 \<Rightarrow> string \<Rightarrow> string \<Rightarrow> string \<Rightarrow> ThresholdSetRequest" where
  "asked userID m k v \<equiv> \<lparr>tq_ModuleID = m, tq_Key = k, tq_Value = v, tq_UserID = userID\<rparr>"

locale provider_env = driver dr for dr :: "'w Driver" +
  fixes sys :: "'w Clock" and provider :: "'w thresholdProvider"
  assumes repos: "tp_repos provider = dr"
    and now_get: "provider_now sys provider w = (t, w') \<Longrightarrow> dr_Get dr w' = dr_Get dr w"
begin

definition acceptable :: "Database \<Rightarrow> string \<Rightarrow> string \<Rightarrow> string \<Rightarrow> bool" where
  "acceptable db i k v \<longleftrightarrow> ValidateThresholdChange (tp_lib provider) i k v
     (module_config (tp_config provider) i) (stored_overrides db) (tp_assetDecimals provider) = None"

lemma validateChange_law:
  assumes "validateChange provider i k v w = (r, w')"
  shows "dr_Get dr w' = dr_Get dr w" "r = None \<Longrightarrow> acceptable (dr_Get dr w) i k v"
proof -
  have "dr_Get dr w' = dr_Get dr w \<and> (r = None \<longrightarrow> acceptable (dr_Get dr w) i k v)"
    using assms unfolding validateChange_def repos
    by (auto elim!: io_elims dest: ListThresholdOverrides_law simp: acceptable_def)
  then show "dr_Get dr w' = dr_Get dr w" "r = None \<Longrightarrow> acceptable (dr_Get dr w) i k v" by blast+
qed

lemma UpsertThresholdOverride_cases:
  assumes "UpsertThresholdOverride dr i k v u now w = (r, w')"
  obtains (failed) e where "r = Some e" "dr_Get dr w' = dr_Get dr w"
  | (executed) "r = None"
      "upsert_override \<lparr>or_module_id = i, or_key = k, or_value = v, or_updated_by_user_id = u,
         or_updated_at = stored_time now\<rparr> (dr_Get dr w) = Inr (dr_Get dr w')"
  using assms unfolding UpsertThresholdOverride_def
  by (auto elim!: io_elims exec_stmt_cases)

lemma Record_overrides:
  assumes "Repositories_Record dr ty m fs now w = (r, w')"
  shows "db_overrides (dr_Get dr w') = db_overrides (dr_Get dr w)"
    "db_confirmations (dr_Get dr w') = db_confirmations (dr_Get dr w)"
  using assms unfolding Repositories_Record_def InsertEvent_def
  by (auto elim!: io_elims exec_stmt_cases simp: insert_event_def dest!: sym [of _ "dr_Get dr w'"])

text \<open>How a confirmation can end: refused with the overrides untouched, or applied.\<close>

lemma applyConfirmation_cases:
  assumes run: "applyConfirmation provider userID i now c w = (r, w')"
  obtains (refused) e where "r = Inl e" "db_overrides (dr_Get dr w') = db_overrides (dr_Get dr w)"
  | (applied) request db' where "pc_Kind c = ''threshold''"
      "unmarshal_request (pc_PayloadJSON c) = Inr request" "allowed_change request"
      "acceptable (dr_Get dr w) (tq_ModuleID request) (tq_Key request) (tq_Value request)"
      "upsert_override (override_row request (pc_RequestedByUserID c) now) (dr_Get dr w) = Inr db'"
      "db_overrides (dr_Get dr w') = db_overrides db'"
proof (cases "pc_Kind c = ''threshold'' \<and> (\<exists>request. unmarshal_request (pc_PayloadJSON c) = Inr request
    \<and> allowed_change request)")
  case False
  with run have "(\<exists>e. r = Inl e) \<and> w' = w"
    by (auto simp: applyConfirmation_def ret_eq BuildThresholdConfirmation_Inr split: if_splits sum.splits)
  then show thesis using refused by blast
next
  case True
  then obtain request cf where req: "unmarshal_request (pc_PayloadJSON c) = Inr request"
      "allowed_change request" "pc_Kind c = ''threshold''" "BuildThresholdConfirmation request = Inr cf"
    by (auto simp: BuildThresholdConfirmation_Inr)
  obtain v w3 where v: "validateChange provider (tq_ModuleID request) (tq_Key request) (tq_Value request) w
      = (v, w3)" by (metis surj_pair)
  obtain u w4 where u: "UpsertThresholdOverride dr (tq_ModuleID request) (tq_Key request)
      (tq_Value request) (pc_RequestedByUserID c) now w3 = (u, w4)" by (metis surj_pair)
  note rest = run [unfolded applyConfirmation_def repos] req v u
  note same = validateChange_law(1) [OF v]
  show thesis
  proof (cases "v = None \<and> u = None")
    case False
    then have "\<exists>e. r = Inl e" "w' = w3 \<or> w' = w4 \<and> u \<noteq> None"
      using rest by (auto simp: onErr_eq ret_eq split: option.splits)
    moreover have "u \<noteq> None \<Longrightarrow> dr_Get dr w4 = dr_Get dr w3"
      using u by (auto elim: UpsertThresholdOverride_cases)
    ultimately show thesis using same refused by auto
  next
    case True
    then have "db_overrides (dr_Get dr w') = db_overrides (dr_Get dr w4)"
      using rest Record_overrides(1) by (auto simp: onErr_eq ret_eq split: prod.splits option.splits)
    moreover have "upsert_override (override_row request (pc_RequestedByUserID c) now) (dr_Get dr w)
        = Inr (dr_Get dr w4)"
      using u True same by (auto elim: UpsertThresholdOverride_cases simp: override_row_def)
    ultimately show thesis
      using applied req True validateChange_law(2) [OF v] by blast
  qed
qed

lemma Confirm_cases:
  assumes "Confirm sys provider userID i w = (r, w')"
  obtains (refused) e where "r = Inl e" "db_overrides (dr_Get dr w') = db_overrides (dr_Get dr w)"
  | (applied) now row c request db db' where
      "select_confirmation i (dr_Get dr w) = Some row" "scanConfirmation row = Inr c"
      "now < pc_ExpiresAt c" "pc_RequestedByUserID c = userID" "pc_Kind c = ''threshold''"
      "unmarshal_request (pc_PayloadJSON c) = Inr request" "allowed_change request"
      "acceptable (dr_Get dr w) (tq_ModuleID request) (tq_Key request) (tq_Value request)"
      "db = delete_confirmation i (dr_Get dr w)"
      "upsert_override (override_row request userID now) db = Inr db'"
      "db_overrides (dr_Get dr w') = db_overrides db'"
proof -
  from assms obtain now w1 q w2 where now: "provider_now sys provider w = (now, w1)"
    and q: "consumePendingConfirmation dr i now userID True w1 = (q, w2)"
    and run: "(case q of Inl e \<Rightarrow> (Inl e, w2) | Inr c \<Rightarrow> applyConfirmation provider userID i now c w2) = (r, w')"
    unfolding Confirm_def ConsumePendingConfirmationForUser_def repos
    by (auto simp: bindIO_eq bindE_eq split: prod.splits)
  note g1 = now_get [OF now]
  from q show thesis
  proof (cases rule: consume_cases)
    case (used row c)
    have g2: "db_overrides (dr_Get dr w2) = db_overrides (dr_Get dr w)" using used(6) g1 by simp
    from run [unfolded used(1)] have "applyConfirmation provider userID i now c w2 = (r, w')" by simp
    then show thesis
    proof (cases rule: applyConfirmation_cases)
      case (refused e)
      then show thesis using that(1) g2 by simp
    next
      case (applied request db')
      then show thesis
        using that(2) [of row c now request "dr_Get dr w2" db'] used g1 stored_overrides_cong [OF g2]
        by (simp add: acceptable_def)
    qed
  qed (use refused run g1 in auto)
qed

text \<open>What a proposal stores.\<close>

definition proposed :: "ThresholdSetRequest \<Rightarrow> Time \<Rightarrow> PendingConfirmation" where
  "proposed request now =
     \<lparr>pc_ID = threshold_id request, pc_Kind = ''threshold'',
      pc_PayloadJSON = json_encode (json_request request), pc_RequestedByUserID = tq_UserID request,
      pc_ExpiresAt = now + (if tp_ttl provider \<le> 0 then defaultThresholdConfirmationTTL else tp_ttl provider),
      pc_CreatedAt = now\<rparr>"

lemma BuildSetConfirmation_cases:
  assumes "BuildSetConfirmation sys provider userID m k v w = (r, w')"
  obtains (refused) e where "r = Inl e" "dr_Get dr w' = dr_Get dr w"
  | (pending) t w1 now w2 where "r = Inr t" "allowed_change (asked userID m k v)" "acceptable (dr_Get dr w) m k v"
      "validateChange provider m k v w = (None, w1)" "provider_now sys provider w1 = (now, w2)"
      "InsertPendingConfirmation dr (proposed (asked userID m k v) now) w2 = (None, w')"
      "dr_Get dr w1 = dr_Get dr w" "dr_Get dr w2 = dr_Get dr w"
proof (cases "allowed_change (asked userID m k v)")
  case False
  then have "(\<exists>e. r = Inl e) \<and> w' = w"
    using assms by (auto simp: BuildSetConfirmation_def ret_eq BuildThresholdConfirmation_Inr split: sum.splits)
  then show thesis using refused by blast
next
  case ok: True
  obtain c where c: "BuildThresholdConfirmation (asked userID m k v) = Inr c" "th_ID c = threshold_id (asked userID m k v)" "th_Request c = asked userID m k v"
    using ok by (simp add: BuildThresholdConfirmation_Inr)
  obtain e w1 where v: "validateChange provider m k v w = (e, w1)" by (metis surj_pair)
  obtain now w2 where n: "provider_now sys provider w1 = (now, w2)" by (metis surj_pair)
  obtain e2 w3 where i: "InsertPendingConfirmation dr (proposed (asked userID m k v) now) w2 = (e2, w3)"
    by (metis surj_pair)
  note run = assms(1) [unfolded BuildSetConfirmation_def c(1) repos]
  have g: "dr_Get dr w1 = dr_Get dr w" "dr_Get dr w2 = dr_Get dr w"
    using validateChange_law(1) [OF v] now_get [OF n] by simp_all
  have fail: "dr_Get dr w3 = dr_Get dr w2" if "e2 \<noteq> None"
    using i that unfolding InsertPendingConfirmation_def by (auto elim!: io_elims exec_stmt_cases)
  show thesis
  proof (cases "e = None \<and> e2 = None")
    case True
    with run c v n i show thesis
      by (intro pending [OF _ ok _ _ n _ g])
        (auto simp: Let_def onErr_eq bindIO_eq ret_eq proposed_def validateChange_law(2) [OF v])
  next
    case False
    with run c v n i have "(\<exists>x. r = Inl x) \<and> (w' = w1 \<or> w' = w3 \<and> e2 \<noteq> None)"
      by (auto simp: Let_def onErr_eq bindIO_eq ret_eq proposed_def split: option.splits)
    then show thesis using refused g fail by auto
  qed
qed

lemma BuildSetConfirmation_overrides:
  assumes "BuildSetConfirmation sys provider userID m k v w = (r, w')"
  shows "db_overrides (dr_Get dr w') = db_overrides (dr_Get dr w)"
  using assms
proof (cases rule: BuildSetConfirmation_cases)
  case (pending t w1 now w2)
  with InsertPendingConfirmation_None(2) [OF pending(6)] show ?thesis by simp
qed simp

text \<open>A second proposal of the same user for the same threshold is refused while one is stored.\<close>

lemma second_proposal_refused:
  assumes "BuildSetConfirmation sys provider userID m k v w = (Inr t, w1)"
    and "dr_Get dr w2 = dr_Get dr w1"
    and "BuildSetConfirmation sys provider userID m k v' w2 = (r, w3)"
  shows "(\<exists>e. r = Inl e) \<and> dr_Get dr w3 = dr_Get dr w2"
proof -
  let ?i = "threshold_id (asked userID m k v)"
  have stored: "select_confirmation ?i (dr_Get dr w2) \<noteq> None"
    using assms(1)
  proof (cases rule: BuildSetConfirmation_cases)
    case (pending t' w1' now w2')
    have "pc_ID (proposed (asked userID m k v) now) = ?i" by (simp add: proposed_def)
    with InsertPendingConfirmation_None(2) [OF pending(6)] assms(2) have
      "?i \<in> cr_id ` set (db_confirmations (dr_Get dr w2))" by simp
    then show ?thesis by (simp only: select_confirmation_None not_not)
  qed simp
  from assms(3) show ?thesis
  proof (cases rule: BuildSetConfirmation_cases)
    case (pending t' w1' now w2')
    have "pc_ID (proposed (asked userID m k v') now) = ?i" by (simp add: proposed_def threshold_id_def)
    with InsertPendingConfirmation_None(1) [OF pending(6)] stored pending(8) show ?thesis by simp
  qed auto
qed

subsection \<open>Changes keep the modules running\<close>

lemma runs_under_set:
  assumes "distinct_overrides os" "distinct_overrides os'" "set os = set os'" "runs_under os dec mv"
  shows "runs_under os' dec mv"
proof -
  obtain e where e: "ApplyOverrides mv os dec = Inr e" "accepts_itself e"
    using assms(4) by (auto simp: runs_under_def split: sum.splits)
  from ApplyOverrides_perm [OF assms(1-3) e(1)] e(2) show ?thesis by (simp add: runs_under_def)
qed

lemma Confirm_keeps_running:
  assumes "Confirm sys provider userID i w = (r, w')" "db_ok (dr_Get dr w)"
    and "BuildModules clk reread (tp_config provider) entries reader vault owner receiver exitSim = Inr ms"
    and "mv \<in> set ms" "tp_assetDecimals provider = ec_AssetDecimals (cfg_Ethereum (tp_config provider))"
    and "runs_under (stored_overrides (dr_Get dr w)) (tp_assetDecimals provider) mv"
  shows "runs_under (stored_overrides (dr_Get dr w')) (tp_assetDecimals provider) mv"
  using assms(1)
proof (cases rule: Confirm_cases)
  case (refused e)
  then show ?thesis using assms(6) stored_overrides_cong by metis
next
  case (applied now row c request db db')
  let ?os = "stored_overrides (dr_Get dr w)"
  have db: "stored_overrides db = ?os" "db_ok db"
    unfolding applied(9) by (rule stored_overrides_cong, simp) (rule stmt_ok(5) [OF assms(2)])
  have "set (stored_overrides db') =
      set (upsertOverride ?os (tq_ModuleID request) (tq_Key request) (tq_Value request))"
    using stored_overrides_upsert [OF db(2) applied(10)] unfolding db(1) by (simp add: override_row_def)
  moreover have "runs_under (upsertOverride ?os (tq_ModuleID request) (tq_Key request) (tq_Value request))
      (tp_assetDecimals provider) mv"
    using accepted_change_runs [OF assms(3,4,6,5)] applied(8) by (simp add: acceptable_def)
  moreover have "distinct_overrides (stored_overrides db')"
    using stored_overrides_distinct stmt_ok(4) [OF db(2) applied(10)] by blast
  ultimately have "runs_under (stored_overrides db') (tp_assetDecimals provider) mv"
    using runs_under_set distinct_upsertOverride stored_overrides_distinct [OF assms(2)] by metis
  then show ?thesis using stored_overrides_cong [OF applied(11)] by simp
qed

lemma ok_intros:
  "preserves (\<lambda>w. db_ok (dr_Get dr w)) (ListThresholdOverrides dr)"
  "preserves (\<lambda>w. db_ok (dr_Get dr w)) (provider_now sys provider)"
  "preserves (\<lambda>w. db_ok (dr_Get dr w)) (consumePendingConfirmation dr i at userID req)"
  "preserves (\<lambda>w. db_ok (dr_Get dr w)) (UpsertThresholdOverride dr m k v userID at)"
  "preserves (\<lambda>w. db_ok (dr_Get dr w)) (InsertPendingConfirmation dr c)"
  "preserves (\<lambda>w. db_ok (dr_Get dr w)) (InsertEvent dr ty msg flds at)"
  by (auto intro!: preservesI dest: now_get repositories_ok consume_ok ListThresholdOverrides_law(1))

lemma Confirm_ok: "preserves (\<lambda>w. db_ok (dr_Get dr w)) (Confirm sys provider userID i)"
  unfolding Confirm_def applyConfirmation_def validateChange_def repos Repositories_Record_def
    ConsumePendingConfirmationForUser_def
  by (intro preserves_intros ok_intros)

lemma BuildSetConfirmation_ok:
  "preserves (\<lambda>w. db_ok (dr_Get dr w)) (BuildSetConfirmation sys provider userID m k v)"
  unfolding BuildSetConfirmation_def validateChange_def repos Let_def
  by (intro preserves_intros ok_intros)

subsection \<open>A change that is confirmed in time takes effect\<close>

lemma no_fault:
  assumes "\<And>name w. fst (dr_Fault dr name w) = None"
  obtains v' where "dr_Fault dr name v = (None, v')" "dr_Get dr v' = dr_Get dr v"
  using assms [of name v] fault_get [of name v] by (metis prod.collapse)

lemma writes_succeed:
  assumes "\<And>name w. fst (dr_Fault dr name w) = None"
  shows "\<exists>w'. UpsertThresholdOverride dr m k v u now w = (None, w')"
    and "\<exists>w'. Repositories_Record dr ty msg flds now w = (None, w')"
proof -
  obtain w1 where "dr_Fault dr ''upsert threshold_overrides'' w = (None, w1)"
    by (rule no_fault [OF assms])
  then show "\<exists>w'. UpsertThresholdOverride dr m k v u now w = (None, w')"
    by (simp add: UpsertThresholdOverride_def exec_stmt_def onErr_eq ret_eq upsert_override_def)
  obtain w2 where "dr_Fault dr ''insert event_records'' w = (None, w2)"
    by (rule no_fault [OF assms])
  then show "\<exists>w'. Repositories_Record dr ty msg flds now w = (None, w')"
    by (simp add: Repositories_Record_def InsertEvent_def exec_stmt_def onErr_eq ret_eq insert_event_def)
qed

lemma validateChange_again:
  assumes "\<And>name w. fst (dr_Fault dr name w) = None"
    and "validateChange provider m k v w = (None, w1)" "dr_Get dr u = dr_Get dr w"
  shows "\<exists>u1. validateChange provider m k v u = (None, u1) \<and> dr_Get dr u1 = dr_Get dr u"
proof -
  obtain overrides where o: "scan_rows scanOverride (select_overrides (dr_Get dr w)) = Inr overrides"
    "ValidateThresholdChange (tp_lib provider) m k v (module_config (tp_config provider) m)
       (toThresholdOverrides overrides) (tp_assetDecimals provider) = None"
    using assms(2) unfolding validateChange_def repos ListThresholdOverrides_def Let_def
    by (auto elim!: io_elims query_stmt_cases split: sum.splits)
  obtain u1 where 1: "dr_Fault dr ''select threshold_overrides'' u = (None, u1)" "dr_Get dr u1 = dr_Get dr u"
    by (rule no_fault [OF assms(1)])
  obtain u2 where 2: "dr_Fault dr ''rows threshold_overrides'' u1 = (None, u2)" "dr_Get dr u2 = dr_Get dr u1"
    by (rule no_fault [OF assms(1)])
  show ?thesis
    using o 1 2 assms(3)
    by (simp add: validateChange_def repos ListThresholdOverrides_def Let_def query_stmt_def io_simps)
qed

lemma applyConfirmation_succeeds:
  assumes "\<And>name w. fst (dr_Fault dr name w) = None" "text_request request" "allowed_change request"
    and "validateChange provider (tq_ModuleID request) (tq_Key request) (tq_Value request) w = (None, w1)"
    and "dr_Get dr u = dr_Get dr w"
  shows "\<exists>msg u'. applyConfirmation provider userID i now (proposed request t) u = (Inr msg, u') \<and>
    override_value (dr_Get dr u') (tq_ModuleID request) (tq_Key request) = Some (tq_Value request)"
proof -
  let ?c = "proposed request t"
  obtain u1 where u1: "validateChange provider (tq_ModuleID request) (tq_Key request) (tq_Value request) u
      = (None, u1)"
    using validateChange_again [OF assms(1,4,5)] by blast
  have "pc_Kind ?c = ''threshold''" "unmarshal_request (pc_PayloadJSON ?c) = Inr request"
    using unmarshal_json_request [OF assms(2)] by (simp_all add: proposed_def)
  moreover obtain cf where "BuildThresholdConfirmation request = Inr cf"
    using assms(3) by (simp add: BuildThresholdConfirmation_Inr)
  moreover obtain u2 where u2: "UpsertThresholdOverride dr (tq_ModuleID request) (tq_Key request)
      (tq_Value request) (pc_RequestedByUserID ?c) now u1 = (None, u2)"
    using writes_succeed(1) [OF assms(1)] by blast
  moreover obtain u3 where u3: "Repositories_Record dr EventSecurity ''threshold override applied''
      (Some (fmap_of_list [(''module_id'', tq_ModuleID request), (''key'', tq_Key request),
         (''value'', tq_Value request), (''user_id'', dec_int (sint userID))])) now u2 = (None, u3)"
    using writes_succeed(2) [OF assms(1)] by blast
  ultimately have "applyConfirmation provider userID i now ?c u = (Inr (''threshold override applied '' @
      tq_ModuleID request @ '' '' @ tq_Key request @ ''='' @ tq_Value request), u3)"
    using u1 unfolding applyConfirmation_def repos by (simp add: onErr_eq ret_eq)
  moreover have "override_value (dr_Get dr u3) (tq_ModuleID request) (tq_Key request) = Some (tq_Value request)"
    using upsert_listed [OF u2] Record_overrides(1) [OF u3] by (simp add: override_value_def)
  ultimately show ?thesis by blast
qed

lemma set_then_confirm:
  assumes "BuildSetConfirmation sys provider userID m k v w = (Inr t, w1)" "dr_Get dr w2 = dr_Get dr w1"
    and fault: "\<And>name w. fst (dr_Fault dr name w) = None"
    and utf: "text_request (asked userID m k v)"
    and clock: "\<And>now w u now' u'. provider_now sys provider w = (now, u) \<Longrightarrow>
      provider_now sys provider w2 = (now', u') \<Longrightarrow>
      writable now \<and> writable (pc_ExpiresAt (proposed (asked userID m k v) now)) \<and>
      now' < pc_ExpiresAt (proposed (asked userID m k v) now)"
  shows "\<exists>msg w3. Confirm sys provider userID (threshold_id (asked userID m k v)) w2 = (Inr msg, w3) \<and>
    override_value (dr_Get dr w3) m k = Some v"
  using assms(1)
proof (cases rule: BuildSetConfirmation_cases)
  case (pending t' u1 now u2)
  let ?c = "proposed (asked userID m k v) now"
  obtain now' w2' where n: "provider_now sys provider w2 = (now', w2')" by (metis surj_pair)
  note times = clock [OF pending(5) n]
  have c: "pc_CreatedAt ?c = now" "pc_ID ?c = threshold_id (asked userID m k v)"
      "pc_RequestedByUserID ?c = userID"
    by (simp_all add: proposed_def)
  have g: "dr_Get dr w2' = dr_Get dr w1" using now_get [OF n] assms(2) by simp
  from insert_consume_succeeds [OF pending(6) _ _ g fault c(3)] times c obtain w3 where
    w3: "ConsumePendingConfirmationForUser dr (threshold_id (asked userID m k v)) userID now' w2' = (Inr ?c, w3)"
    by auto
  have "dr_Get dr w3 = dr_Get dr w"
    using insert_consume(4) [OF pending(6) _ _ g, of userID now' ?c w3] times c w3 pending(8) by simp
  then obtain msg u' where "applyConfirmation provider userID (threshold_id (asked userID m k v)) now' ?c w3
      = (Inr msg, u')" "override_value (dr_Get dr u') m k = Some v"
    using applyConfirmation_succeeds [OF fault utf pending(2), of w u1 w3] pending(4) by fastforce
  then show ?thesis
    using n w3 unfolding Confirm_def repos by (auto simp: bindIO_eq bindE_eq)
qed simp

end

subsection \<open>The provider of the runtime\<close>

definition runtime_thresholds :: "Outside \<Rightarrow> AddressLib \<Rightarrow> Config \<Rightarrow> world thresholdProvider" where
  "runtime_thresholds out lib cfg =
     \<lparr>tp_repos = sql_driver out, tp_config = cfg, tp_clock = None, tp_ttl = 0,
      tp_assetDecimals = ec_AssetDecimals (cfg_Ethereum cfg), tp_lib = lib\<rparr>"

definition runtime_logs :: "Outside \<Rightarrow> world eventLogProvider" where
  "runtime_logs out = \<lparr>lp_repos = sql_driver out, lp_limit = 0\<rparr>"

interpretation thresholds: provider_env "sql_driver out" "system_clock out" "runtime_thresholds out lib cfg"
  for out lib cfg
  by unfold_locales
    (auto simp: runtime_thresholds_def provider_now_def clock_now_def system_clock_def ask_def sql_driver_def)

lemma get_world [simp]: "dr_Get (sql_driver out) w = wd_db w"
  by (simp add: sql_driver_def)

lemma runtime_thresholds_simps [simp]:
  "tp_config (runtime_thresholds out lib cfg) = cfg"
  "tp_assetDecimals (runtime_thresholds out lib cfg) = ec_AssetDecimals (cfg_Ethereum cfg)"
  "provider_now (system_clock out) (runtime_thresholds out lib cfg) = system_clock out"
  by (simp_all add: runtime_thresholds_def provider_now_def clock_now_def)

subsection \<open>Properties\<close>

text \<open>C29: A confirmation changes nothing but what was asked for: either the stored overrides are as
  before, or the user who confirms had asked for this change, in time, for a threshold of a known
  module that may be changed, and exactly its row is set.\<close>

theorem confirm_applies_the_request:
  "case Confirm (system_clock out) (runtime_thresholds out lib cfg) userID i w of (r, w') \<Rightarrow>
     db_overrides (wd_db w') = db_overrides (wd_db w) \<or>
     (\<exists>row c request now. select_confirmation i (wd_db w) = Some row \<and> scanConfirmation row = Inr c \<and>
        pc_RequestedByUserID c = userID \<and> now < pc_ExpiresAt c \<and>
        unmarshal_request (pc_PayloadJSON c) = Inr request \<and> allowed_change request \<and>
        db_overrides (wd_db w') = upsert_rows (override_row request userID now) (db_overrides (wd_db w)))"
proof -
  obtain r w' where run: "Confirm (system_clock out) (runtime_thresholds out lib cfg) userID i w = (r, w')"
    by (metis surj_pair)
  then show ?thesis
  proof (cases rule: thresholds.Confirm_cases)
    case (applied now row c request db db')
    then have "db_overrides (wd_db w') = upsert_rows (override_row request userID now) (db_overrides (wd_db w))"
      by (auto simp: upsert_override_def)
    with applied run show ?thesis by auto
  qed (simp add: run)
qed



text \<open>A proposal that is accepted, for the witnesses.\<close>

definition steady_outside :: Outside where
  "steady_outside = demo_outside\<lparr>out_Clock := (\<lambda>l. 0)\<rparr>"

abbreviation demo_thresholds :: "world thresholdProvider" where
  "demo_thresholds \<equiv> runtime_thresholds steady_outside (vr_Lib demo_reader) demo_modules_config"

lemma demo_proposal:
  "\<exists>t w1. BuildSetConfirmation (system_clock steady_outside) demo_thresholds 42 ModuleSharePriceLoss
     ''loss_warn_bps'' ''60'' fresh_world = (Inr t, w1)"
proof -
  have "config_lookup (module_config demo_modules_config ModuleSharePriceLoss) ''loss_warn_bps'' = Some (AnyInt 50)"
    "config_lookup (module_config demo_modules_config ModuleSharePriceLoss) ''loss_urgent_bps'' = Some (AnyInt 100)"
    "module_config demo_modules_config ModuleSharePriceLoss \<noteq> None"
    by (simp_all add: demo_modules_config_def module_config_def cfg_module_def config_lookup_def fmlookup_of_list)
  moreover have "parseThresholdBPS ModuleSharePriceLoss ''loss_warn_bps'' ''60'' = Inr 60"
    by (simp add: parseThresholdBPS_def ParseInt_def is_digit_def digit_val_def ValidateBPS_def)
  ultimately have cfg: "sharePriceThresholdConfig (module_config demo_modules_config ModuleSharePriceLoss) = Inr
      \<lparr>sp_BaselineSharePrice = Some 1, sp_PreviousSharePrice = None, sp_WarnBPS = 50, sp_UrgentBPS = 100,
       sp_Reader = Some noopSharePriceReader, sp_Clock = None\<rparr>"
    and some: "module_config demo_modules_config ModuleSharePriceLoss \<noteq> None"
    and bps: "parseThresholdBPS ModuleSharePriceLoss ''loss_warn_bps'' ''60'' = Inr 60"
    by (simp_all add: sharePriceThresholdConfig_def ModuleInt64_def)
  have "validateThresholdValue ModuleSharePriceLoss ''loss_warn_bps'' ''60'' dec = None" for dec
    by (simp add: validateThresholdValue_def bps left_of_def)
  then have "ValidateThresholdChange lib ModuleSharePriceLoss ''loss_warn_bps'' ''60''
      (module_config demo_modules_config ModuleSharePriceLoss) [] dec = None" for lib dec
    using some
    by (simp add: ValidateThresholdChange_def Let_def check_effective_None cfg applySharePriceOverrides_def
        overridesForModule_def sharePriceOverride_def SharePrice_ValidateConfig_def bps)
  then show ?thesis
    by (simp add: BuildSetConfirmation_def BuildThresholdConfirmation_def allowedThresholdKeys_def
        validateChange_def ListThresholdOverrides_def Let_def query_stmt_def io_simps ask_def
        system_clock_def InsertPendingConfirmation_def exec_stmt_def sql_driver_def
        steady_outside_def demo_outside_def fresh_world_def emptyDatabase_def insert_confirmation_row_def
        select_overrides_def sort_by_def toThresholdOverrides_def runtime_thresholds_def provider_now_def
        clock_now_def)
qed



end
