(* ===== verification/App_Alerts.thy ===== *)
theory App_Alerts
  imports Withdraw_Service
begin

text \<open>
  \<open>internal/app/alerts.go\<close>: the result handler of the monitor, which sends an alert for each
  urgent finding and then asks for the withdrawal, and the two small adapters behind its
  interfaces. The state \<open>'s\<close> of its collaborators includes the withdrawal service's pending
  transaction.
\<close>

type_synonym 's AutoWithdrawer = "MonitorResult \<Rightarrow> Finding \<Rightarrow> ('s, gerror option) io"
type_synonym 's Notifier = "string \<Rightarrow> ('s, gerror option) io"

record 's AlertService =
  al_Withdrawer :: "'s AutoWithdrawer"
  al_Notifier :: "'s Notifier"

text \<open>The two nested loops; an error ends both.\<close>

fun handleFindings :: "'s AlertService \<Rightarrow> MonitorResult \<Rightarrow> Finding list \<Rightarrow> ('s, gerror option) io"
where
  "handleFindings service result [] = ret None"
| "handleFindings service result (finding # rest) =
     (if f_Severity finding \<noteq> SeverityUrgent then handleFindings service result rest
      else onErr (al_Notifier service (f_Message finding)) (\<lambda>err. ret (Some err))
          (onErr (al_Withdrawer service result finding) (\<lambda>err. ret (Some err))
            (handleFindings service result rest)))"

fun HandleMonitorResults :: "'s AlertService \<Rightarrow> MonitorResult list \<Rightarrow> ('s, gerror option) io" where
  "HandleMonitorResults service [] = ret None"
| "HandleMonitorResults service (result # rest) =
     onErr (handleFindings service result (elems (mr_Findings result))) (\<lambda>err. ret (Some err))
       (HandleMonitorResults service rest)"

record AlertMessage =
  am_Text :: string

definition telegramAlertNotifier :: "(AlertMessage \<Rightarrow> ('s, gerror option) io) \<Rightarrow> 's Notifier" where
  "telegramAlertNotifier send text = send \<lparr>am_Text = text\<rparr>"

definition urgentWithdrawer :: "(WithdrawalTrigger \<Rightarrow> ('s, WithdrawalResult \<times> gerror option) io)
    \<Rightarrow> 's AutoWithdrawer" where
  "urgentWithdrawer execute result finding =
     bindIO (execute \<lparr>tr_Kind = TriggerKindUrgent, tr_ModuleID = mr_ModuleID result,
         tr_FindingKey = f_Key finding\<rparr>) (\<lambda>(r, err). ret err)"

subsection \<open>The urgent findings, one after the other\<close>

definition urgent_findings :: "MonitorResult list \<Rightarrow> (MonitorResult \<times> Finding) list" where
  "urgent_findings results =
     concat (map (\<lambda>r. map (Pair r) (filter (\<lambda>f. f_Severity f = SeverityUrgent) (elems (mr_Findings r))))
       results)"

text \<open>The specification: alert and withdraw for each urgent finding in order, up to an error.\<close>

fun alert_each :: "'s AlertService \<Rightarrow> (MonitorResult \<times> Finding) list \<Rightarrow> ('s, gerror option) io" where
  "alert_each service [] w = (None, w)"
| "alert_each service ((result, finding) # rest) w =
     (case al_Notifier service (f_Message finding) w of
        (Some err, w1) \<Rightarrow> (Some err, w1)
      | (None, w1) \<Rightarrow>
          (case al_Withdrawer service result finding w1 of
             (Some err, w2) \<Rightarrow> (Some err, w2)
           | (None, w2) \<Rightarrow> alert_each service rest w2))"

lemma alert_each_append:
  "alert_each service (xs @ ys) w =
     (case alert_each service xs w of (Some e, w1) \<Rightarrow> (Some e, w1) | (None, w1) \<Rightarrow> alert_each service ys w1)"
  by (induction service xs w rule: alert_each.induct) (auto split: prod.splits option.splits)

lemma handleFindings_alert_each:
  "handleFindings service result fs w =
     alert_each service (map (Pair result) (filter (\<lambda>f. f_Severity f = SeverityUrgent) fs)) w"
  by (induction fs arbitrary: w) (auto simp: onErr_eq ret_eq split: prod.splits option.splits)

lemma HandleMonitorResults_alert_each:
  "HandleMonitorResults service results w = alert_each service (urgent_findings results) w"
proof (induction results arbitrary: w)
  case Nil
  then show ?case by (simp add: urgent_findings_def ret_eq)
next
  case (Cons r rs)
  then show ?case
    by (simp add: onErr_eq ret_eq handleFindings_alert_each urgent_findings_def alert_each_append
        split: prod.splits option.splits)
qed

text \<open>With a notifier that delivers, every urgent finding reaches the withdrawer until one fails.\<close>

fun withdraw_each :: "'s AutoWithdrawer \<Rightarrow> (MonitorResult \<times> Finding) list \<Rightarrow> ('s, gerror option) io" where
  "withdraw_each withdrawer [] w = (None, w)"
| "withdraw_each withdrawer ((result, finding) # rest) w =
     (case withdrawer result finding w of
        (Some err, w2) \<Rightarrow> (Some err, w2)
      | (None, w2) \<Rightarrow> withdraw_each withdrawer rest w2)"

lemma alert_each_silent:
  assumes "\<And>m w. al_Notifier service m w = (None, w)"
  shows "alert_each service xs w = withdraw_each (al_Withdrawer service) xs w"
  by (induction xs arbitrary: w) (auto simp: assms split: prod.splits option.splits)

subsection \<open>Properties\<close>

text \<open>C23: A notifier that fails on the first urgent message keeps the withdrawal of every urgent
  finding from being attempted: the withdrawer is not even called, and the error of the notifier
  is all that is returned.\<close>

theorem failed_alert_blocks_withdrawal:
  assumes "urgent_findings results = (r, f) # rest" "al_Notifier service (f_Message f) w = (Some err, w')"
  shows "HandleMonitorResults (service\<lparr>al_Withdrawer := withdrawer\<rparr>) results w = (Some err, w')"
  using assms by (simp add: HandleMonitorResults_alert_each)

theorem failed_alert_blocks_withdrawal_witness:
  "HandleMonitorResults \<lparr>al_Withdrawer = (\<lambda>r f n. (None, n + 1)),
       al_Notifier = (\<lambda>m n. (Some (New ''telegram is down''), n))\<rparr>
     [\<lparr>mr_ModuleID = ''m'', mr_Status = MonitorStatusUrgent, mr_ObservedAt = 0, mr_Metrics = None,
       mr_Findings = Some [\<lparr>f_Key = ''k'', f_Severity = SeverityUrgent, f_Message = ''x'',
                            f_Evidence = None\<rparr>]\<rparr>] (0::nat)
   = (Some (New ''telegram is down''), 0)"
  using failed_alert_blocks_withdrawal
    [of "[\<lparr>mr_ModuleID = ''m'', mr_Status = MonitorStatusUrgent, mr_ObservedAt = 0, mr_Metrics = None,
       mr_Findings = Some [\<lparr>f_Key = ''k'', f_Severity = SeverityUrgent, f_Message = ''x'',
                            f_Evidence = None\<rparr>]\<rparr>]" _ _ _
     "\<lparr>al_Withdrawer = (\<lambda>r f n. (None, n + 1)),
       al_Notifier = (\<lambda>m n. (Some (New ''telegram is down''), n))\<rparr>" "0::nat"
     "New ''telegram is down''" 0 "\<lambda>r f n. (None, n + 1)"]
  by (simp add: urgent_findings_def)

end
