(* ===== verification/Telegram_Service.thy ===== *)
theory Telegram_Service
  imports Telegram_Commands Withdraw_Service App_Alerts Json
begin

text \<open>
  \<open>internal/interactions/telegram/service.go\<close>: sending, commands and the two sources of updates.
  What the commands call are interfaces, records of operations (\<open>None\<close> when nil). The part of
  the service that sends (\<open>TelegramOut\<close>) stands alone, since alerts are sent from a state that
  does not hold what the commands need.

  The loops run over what their \<open>select\<close> meets: the arrivals of the channel, or for each round of
  polling whether the context is done. A result \<open>None\<close> of a loop means that it is still waiting
  when these are used up.
\<close>

record 'w TelegramOut =
  tl_Bot :: "'w Bot option"
  tl_Sender :: "(int64 \<Rightarrow> string \<Rightarrow> ('w, gerror option) io) option"
  tl_Authorization :: Authorization
  tl_MaxResponseChars :: int

record 'w ThresholdService =
  ts_List :: "('w, gerror + string) io"
  ts_BuildSetConfirmation :: "int64 \<Rightarrow> string \<Rightarrow> string \<Rightarrow> string \<Rightarrow> ('w, gerror + string) io"
  ts_Confirm :: "int64 \<Rightarrow> string \<Rightarrow> ('w, gerror + string) io"

type_synonym 'w Recorder = "EventType \<Rightarrow> string \<Rightarrow> string gomap \<Rightarrow> Time \<Rightarrow> ('w, gerror option) io"

datatype arrival = Received Update | Closed | Cancelled gerror

record 'w TelegramService = "'w TelegramOut" +
  tl_UpdateSource :: "('w, gerror + arrival list) io option"
  tl_Reports :: "('w, gerror + string) io option"
  tl_Withdraw :: "('w, WithdrawalResult \<times> gerror option) io option"
  tl_Thresholds :: "'w ThresholdService option"
  tl_Logs :: "(bool \<Rightarrow> ('w, gerror + string) io) option"
  tl_Events :: "'w Recorder option"
  tl_Clock :: "'w Clock option"

record ReportMessage =
  rm_Text :: string

record CommandResponse =
  rs_ChatID :: int64
  rs_Text :: string

subsection \<open>Sending\<close>

definition boundResponse :: "('w, 'z) TelegramOut_scheme \<Rightarrow> string \<Rightarrow> string" where
  "boundResponse service text =
     (let maxChars = (if tl_MaxResponseChars service \<le> 0 then 3500 else tl_MaxResponseChars service);
          rs = map fst (runes text) in
      if int (length rs) \<le> maxChars then text
      else if maxChars \<le> 3 then encode_runes (take (nat maxChars) rs)
      else encode_runes (take (nat (maxChars - 3)) rs) @ ''...'')"

definition sanitizeTelegramError :: "string \<Rightarrow> string \<Rightarrow> gerror option \<Rightarrow> gerror option" where
  "sanitizeTelegramError operation token err =
     (case err of
        None \<Rightarrow> None
      | Some e \<Rightarrow>
          let message = error_text e in
          Some (New (operation @ '': '' @
            (if token \<noteq> [] then ReplaceAll message token ''[REDACTED]'' else message))))"

definition sendText :: "('w, 'z) TelegramOut_scheme \<Rightarrow> int64 \<Rightarrow> string \<Rightarrow> ('w, gerror option) io" where
  "sendText service chatID text =
     (let boundedText = boundResponse service text in
      case tl_Sender service of
        Some send \<Rightarrow> send chatID boundedText
      | None \<Rightarrow>
          (case tl_Bot service of
             None \<Rightarrow> ret None
           | Some api \<Rightarrow> bindIO (bot_Send api chatID boundedText) (\<lambda>err.
               ret (sanitizeTelegramError ''send telegram message'' (bot_Token api) err))))"

definition SendAlert :: "('w, 'z) TelegramOut_scheme \<Rightarrow> AlertMessage \<Rightarrow> ('w, gerror option) io" where
  "SendAlert service msg = sendText service (auth_ChatID (tl_Authorization service)) (am_Text msg)"

definition SendReport :: "('w, 'z) TelegramOut_scheme \<Rightarrow> ReportMessage \<Rightarrow> ('w, gerror option) io" where
  "SendReport service msg = sendText service (auth_ChatID (tl_Authorization service)) (rm_Text msg)"

definition SendCommandResponse :: "('w, 'z) TelegramOut_scheme \<Rightarrow> CommandResponse
    \<Rightarrow> ('w, gerror option) io" where
  "SendCommandResponse service msg = sendText service (rs_ChatID msg) (rs_Text msg)"

subsection \<open>Commands\<close>

definition tl_stats :: "'w TelegramService \<Rightarrow> ('w, gerror + string) io" where
  "tl_stats service = (case tl_Reports service of None \<Rightarrow> ret (Inr ''stats unavailable'') | Some stats \<Rightarrow> stats)"

definition tl_withdraw :: "'w TelegramService \<Rightarrow> ('w, gerror + string) io" where
  "tl_withdraw service =
     (case tl_Withdraw service of
        None \<Rightarrow> ret (Inr ''withdraw unavailable'')
      | Some dryRun \<Rightarrow> bindIO dryRun (\<lambda>(result, err).
          case err of
            Some e \<Rightarrow> ret (Inl e)
          | None \<Rightarrow> ret (Inr (if wr_Noop result then ''withdraw dry run: no shares to withdraw''
                              else ''withdraw dry run: '' @ wr_Status result))))"

definition tl_confirm :: "'w TelegramService \<Rightarrow> string list \<Rightarrow> int64 \<Rightarrow> ('w, gerror + string) io" where
  "tl_confirm service args userID =
     (case args of
        [i] \<Rightarrow> (case tl_Thresholds service of
            None \<Rightarrow> ret (Inr ''confirm unavailable'')
          | Some ts \<Rightarrow> ts_Confirm ts userID i)
      | _ \<Rightarrow> ret (Inr ''usage: /confirm <id>''))"

definition tl_thresholds :: "'w TelegramService \<Rightarrow> ('w, gerror + string) io" where
  "tl_thresholds service =
     (case tl_Thresholds service of None \<Rightarrow> ret (Inr ''thresholds unavailable'') | Some ts \<Rightarrow> ts_List ts)"

definition tl_thresholdSet :: "'w TelegramService \<Rightarrow> string list \<Rightarrow> int64 \<Rightarrow> ('w, gerror + string) io" where
  "tl_thresholdSet service args userID =
     (case args of
        [sub, module, key, v] \<Rightarrow>
          if sub \<noteq> ''set'' then ret (Inr ''usage: /threshold set <module> <key> <value>'')
          else (case tl_Thresholds service of
              None \<Rightarrow> ret (Inr ''threshold updates unavailable'')
            | Some ts \<Rightarrow> ts_BuildSetConfirmation ts userID module key v)
      | _ \<Rightarrow> ret (Inr ''usage: /threshold set <module> <key> <value>''))"

definition tl_logs :: "'w TelegramService \<Rightarrow> string list \<Rightarrow> ('w, gerror + string) io" where
  "tl_logs service args =
     (if length args > 1 \<or> (case args of [arg] \<Rightarrow> arg \<noteq> ''info'' | _ \<Rightarrow> False)
      then ret (Inr ''usage: /logs [info]'')
      else (case tl_Logs service of
          None \<Rightarrow> ret (Inr ''logs unavailable'')
        | Some recent \<Rightarrow> recent (case args of [arg] \<Rightarrow> arg = ''info'' | _ \<Rightarrow> False)))"

definition helpText :: string where
  "helpText = strings_Join
     [CommandStats, CommandWithdraw, CommandConfirm @ '' <id>'', CommandThresholds,
      CommandThresholdSet @ '' set <module> <key> <value>'', CommandLogs, CommandLogs @ '' info'',
      CommandHelp] [CHR 0x0A]"

definition dispatch :: "'w TelegramService \<Rightarrow> ParsedCommand \<Rightarrow> int64 \<Rightarrow> ('w, gerror + string) io" where
  "dispatch service command userID =
     (let name = cmd_Name command; args = cmd_Args command in
      if name = CommandStats then tl_stats service
      else if name = CommandWithdraw then tl_withdraw service
      else if name = CommandConfirm then tl_confirm service args userID
      else if name = CommandThresholds then tl_thresholds service
      else if name = CommandThresholdSet then tl_thresholdSet service args userID
      else if name = CommandLogs then tl_logs service args
      else if name = CommandHelp \<or> name = [] then ret (Inr helpText)
      else ret (Inr (''unknown command: '' @ name)))"

definition sanitizedCommandName :: "string \<Rightarrow> string" where
  "sanitizedCommandName name =
     (if name \<in> {CommandStats, CommandWithdraw, CommandConfirm, CommandThresholds, CommandThresholdSet,
                  CommandLogs, CommandHelp}
      then name else ''unknown'')"

definition telegram_now :: "'w Clock \<Rightarrow> 'w TelegramService \<Rightarrow> 'w Clock" where
  "telegram_now sys service = clock_now sys (tl_Clock service)"

definition reject_fields :: "ParsedCommand \<Rightarrow> int64 \<Rightarrow> int64 \<Rightarrow> string gomap" where
  "reject_fields command chatID userID =
     Some (fmap_of_list [(''chat_id'', dec_int (sint chatID)), (''user_id'', dec_int (sint userID)),
       (''command'', sanitizedCommandName (cmd_Name command))])"

definition recordSecurityReject :: "'w Clock \<Rightarrow> 'w TelegramService \<Rightarrow> ParsedCommand \<Rightarrow> int64 \<Rightarrow> int64
    \<Rightarrow> ('w, gerror option) io" where
  "recordSecurityReject sys service command chatID userID =
     (case tl_Events service of
        None \<Rightarrow> ret None
      | Some record_event \<Rightarrow> bindIO (telegram_now sys service) (\<lambda>now.
          onErr (record_event EventSecurity ''telegram command rejected''
                   (reject_fields command chatID userID) now)
            (\<lambda>err. ret (Some (Wrap ''record telegram security reject: '' err []))) (ret None)))"

definition HandleCommand :: "'w Clock \<Rightarrow> 'w TelegramService \<Rightarrow> int64 \<Rightarrow> int64 \<Rightarrow> string
    \<Rightarrow> ('w, gerror + CommandResponse) io" where
  "HandleCommand sys service chatID userID text =
     (let parsed = ParseCommand text in
      case Authorization_Check (tl_Authorization service) chatID userID of
        Some err \<Rightarrow> onErr (recordSecurityReject sys service parsed chatID userID)
          (\<lambda>recordErr. ret (Inl recordErr)) (ret (Inl err))
      | None \<Rightarrow> bindE (dispatch service parsed userID) (\<lambda>response.
          ret (Inr \<lparr>rs_ChatID = chatID, rs_Text = boundResponse service response\<rparr>)))"

definition isCommandText :: "string \<Rightarrow> bool" where
  "isCommandText text \<longleftrightarrow> (case TrimSpace text of [] \<Rightarrow> False | c # _ \<Rightarrow> c = CHR ''/'')"

definition handleUpdate :: "'w Clock \<Rightarrow> 'w TelegramService \<Rightarrow> Update \<Rightarrow> ('w, gerror option) io" where
  "handleUpdate sys service update =
     (case up_Message update of
        None \<Rightarrow> ret None
      | Some m \<Rightarrow> (case (um_Chat m, um_From m) of
          (Some chatID, Some userID) \<Rightarrow>
            if \<not> isCommandText (um_Text m) then ret None
            else tryE (HandleCommand sys service chatID userID (um_Text m))
              (\<lambda>err. ret (if errors_Is err ErrUnauthorizedTelegramCommand then None else Some err))
              (\<lambda>response. if rs_Text response = [] then ret None
                           else SendCommandResponse service response)
        | _ \<Rightarrow> ret None))"

subsection \<open>The sources of updates\<close>

fun consumeUpdates :: "'w Clock \<Rightarrow> 'w TelegramService \<Rightarrow> arrival list \<Rightarrow> ('w, gerror option option) io"
  where
  "consumeUpdates sys service [] = ret None"
| "consumeUpdates sys service (Cancelled err # rest) = ret (Some (Some err))"
| "consumeUpdates sys service (Closed # rest) = ret (Some None)"
| "consumeUpdates sys service (Received update # rest) =
     onErr (handleUpdate sys service update) (\<lambda>err. ret (Some (Some err)))
       (consumeUpdates sys service rest)"

definition next_offset :: "int64 \<Rightarrow> Update \<Rightarrow> int64" where
  "next_offset offset update =
     (if sint offset \<le> sint (up_UpdateID update) then up_UpdateID update + 1 else offset)"

text \<open>The loop over one batch: the new offset, and the error that ended it.\<close>

fun handleBatch :: "'w Clock \<Rightarrow> 'w TelegramService \<Rightarrow> int64 \<Rightarrow> Update list
    \<Rightarrow> ('w, int64 \<times> gerror option) io" where
  "handleBatch sys service offset [] = ret (offset, None)"
| "handleBatch sys service offset (update # rest) =
     (let offset' = next_offset offset update in
      onErr (handleUpdate sys service update) (\<lambda>err. ret (offset', Some err))
        (handleBatch sys service offset' rest))"

text \<open>One round of polling: the new offset, and the error that ended it.\<close>

definition pollRound :: "'w Clock \<Rightarrow> 'w TelegramService \<Rightarrow> 'w Bot \<Rightarrow> int64 \<Rightarrow> ('w, int64 \<times> gerror option) io"
  where
  "pollRound sys service api offset =
     tryE (bot_GetUpdates api offset)
       (\<lambda>err. ret (offset, sanitizeTelegramError ''get telegram updates'' (bot_Token api) (Some err)))
       (handleBatch sys service offset)"

fun pollLoop :: "'w Clock \<Rightarrow> 'w TelegramService \<Rightarrow> 'w Bot \<Rightarrow> int64 \<Rightarrow> gerror option list
    \<Rightarrow> ('w, gerror option option) io" where
  "pollLoop sys service api offset [] = ret None"
| "pollLoop sys service api offset (Some done # rest) = ret (Some (Some done))"
| "pollLoop sys service api offset (None # rest) =
     bindIO (pollRound sys service api offset) (\<lambda>(offset', err).
       case err of Some e \<Rightarrow> ret (Some (Some e)) | None \<Rightarrow> pollLoop sys service api offset' rest)"

definition pollBotUpdates :: "'w Clock \<Rightarrow> 'w TelegramService \<Rightarrow> 'w Bot \<Rightarrow> gerror option list
    \<Rightarrow> ('w, gerror option option) io" where
  "pollBotUpdates sys service api rounds = pollLoop sys service api 0 rounds"

definition Start :: "'w Clock \<Rightarrow> 'w TelegramService \<Rightarrow> gerror option list \<Rightarrow> ('w, gerror option option) io"
  where
  "Start sys service rounds =
     (case tl_UpdateSource service of
        Some updates \<Rightarrow> tryE updates (\<lambda>err. ret (Some (Some err))) (consumeUpdates sys service)
      | None \<Rightarrow> (case tl_Bot service of
          None \<Rightarrow> ret (Some (Some (Var ErrTelegramBotRequired)))
        | Some api \<Rightarrow> pollBotUpdates sys service api rounds))"

subsection \<open>Runes that were decoded are encoded and decoded again\<close>

lemma decode_encode_rune:
  assumes "(r, bs) \<in> set (runes s)"
  shows "decode_rune (encode_rune r @ t) = (r, length (encode_rune r))" "encode_rune r \<noteq> []"
proof -
  have "decode_rune (encode_rune r @ t) = (r, length (encode_rune r)) \<and> encode_rune r \<noteq> []"
    using assms
  proof (induction s rule: runes.induct)
    case (1 s)
    then have "s \<noteq> []" by (auto simp: runes.simps [of s] split: if_splits)
    obtain q w where d: "decode_rune s = (q, w)" by (cases "decode_rune s")
    with \<open>s \<noteq> []\<close> have rs: "runes s = (q, take w s) # runes (drop w s)"
      by (subst runes.simps) simp
    show ?case
    proof (cases "(r, bs) \<in> set (runes (drop w s))")
      case True
      with 1(1) [OF \<open>s \<noteq> []\<close> d [symmetric]] show ?thesis by simp
    next
      case False
      with 1(2) rs have r: "r = q" by simp
      consider "q < 128" | "q = 0xFFFD" "w = 1" | "128 \<le> q" "\<not> (q = 0xFFFD \<and> w = 1)" by linarith
      then show ?thesis
      proof cases
        case 1
        then show ?thesis by (simp add: r encode_rune_def decode_rune_def byte_at_def)
      next
        case 2
        then show ?thesis by (simp add: r encode_rune_def decode_rune_def byte_at_def cont_byte_def)
      next
        case 3
        note v = decode_valid [OF d 3]
        then have "length (encode_rune r) = w" by (simp add: r)
        with v show ?thesis by (auto simp: r)
      qed
    qed
  qed
  then show "decode_rune (encode_rune r @ t) = (r, length (encode_rune r))" "encode_rune r \<noteq> []" by blast+
qed

lemma runes_encode:
  assumes "set rs \<subseteq> fst ` set (runes s)"
  shows "map fst (runes (encode_runes rs @ t)) = rs @ map fst (runes t)"
  using assms
proof (induction rs)
  case (Cons r rs)
  then obtain bs where "(r, bs) \<in> set (runes s)" by auto
  note d = decode_encode_rune [OF this]
  have "runes (encode_rune r @ (encode_runes rs @ t)) =
      (r, encode_rune r) # runes (encode_runes rs @ t)"
    using d(2) by (subst runes.simps) (simp add: d(1))
  with Cons show ?case by (simp add: encode_runes_def)
qed (simp add: encode_runes_def)

text \<open>The limit that is in force.\<close>

definition response_limit :: "('w, 'z) TelegramOut_scheme \<Rightarrow> nat" where
  "response_limit service = (if tl_MaxResponseChars service \<le> 0 then 3500 else nat (tl_MaxResponseChars service))"

definition rune_list :: "string \<Rightarrow> nat list" where
  "rune_list s = map fst (runes s)"

lemma dots_runes: "map fst (runes ''...'') = [46, 46, 46]"
  by (simp add: runes.simps decode_rune_def byte_at_def)

lemma boundResponse_runes:
  "rune_list (boundResponse service text) =
     (let n = response_limit service in
      if length (rune_list text) \<le> n then rune_list text
      else if n \<le> 3 then take n (rune_list text)
      else take (n - 3) (rune_list text) @ [46, 46, 46])"
proof -
  let ?rs = "map fst (runes text)"
  have sub: "set (take k ?rs) \<subseteq> fst ` set (runes text)" for k
    using set_take_subset by fastforce
  have e: "map fst (runes (encode_runes (take k ?rs))) = take k ?rs" for k
    using runes_encode [OF sub, of k "[]"] by simp
  have f: "map fst (runes (encode_runes (take k ?rs) @ ''...'')) = take k ?rs @ [46, 46, 46]" for k
    by (simp only: runes_encode [OF sub] dots_runes)
  have "nat (m - 3) = nat m - 3" for m :: int by linarith
  then show ?thesis
    by (auto simp: boundResponse_def rune_list_def response_limit_def Let_def e f nat_le_iff le_nat_iff)
qed

lemma boundResponse_short: "length (rune_list text) \<le> response_limit service \<Longrightarrow> boundResponse service text = text"
  by (auto simp: boundResponse_def rune_list_def response_limit_def Let_def split: if_splits)

subsection \<open>Properties\<close>

text \<open>C38: What is sent to Telegram is bounded: a text within the limit in force (3500 runes unless
  configured) is sent as it is, a longer one is cut to exactly the limit, ending in three dots
  when there is room for them; no rune is cut in half.\<close>

theorem responses_are_bounded:
  "length (rune_list (boundResponse service text)) \<le> response_limit service \<and>
   rune_list (boundResponse service text) =
     (let n = response_limit service in
      if length (rune_list text) \<le> n then rune_list text
      else if n \<le> 3 then take n (rune_list text)
      else take (n - 3) (rune_list text) @ [46, 46, 46])"
  unfolding boundResponse_runes by (simp add: Let_def) arith

end
