(* ===== verification/Reports.thy ===== *)
theory Reports
  imports Core_Types Go_Strings "HOL-Library.Multiset"
begin

text \<open>
  \<open>internal/reports/report.go\<close>: the text of the \<open>/stats\<close> command. The first loop ranges over the
  map in an order of Go's own (\<open>entries\<close>); the rest is in the order of the sorted keys.
\<close>

definition render_metric :: "Metric \<Rightarrow> string" where
  "render_metric m = ''- '' @ m_Key m @ '': '' @ m_Value m @ '' '' @ m_Unit m @ [CHR 0x0A]"

definition render_finding :: "Finding \<Rightarrow> string" where
  "render_finding f = ''- '' @ f_Severity f @ '': '' @ f_Message f @ [CHR 0x0A]"

definition render_result :: "string \<times> MonitorResult \<Rightarrow> string" where
  "render_result kr =
     (case kr of (key, result) \<Rightarrow>
        [CHR 0x0A] @ key @ '': '' @ mr_Status result @ [CHR 0x0A] @
        concat (map render_metric (elems (mr_Metrics result))) @
        concat (map render_finding (elems (mr_Findings result))))"

definition RenderStats :: "(MonitorModuleID \<times> MonitorResult) list
    \<Rightarrow> (MonitorModuleID, MonitorResult) fmap \<Rightarrow> string" where
  "RenderStats entries results =
     TrimSpace (''Status: '' @ WorstKnownStatus (map (mr_Status \<circ> snd) entries) @ [CHR 0x0A] @
       concat (map render_result (sorted_list_of_fmap results)))"

subsection \<open>The order of the map does not show\<close>

lemma worstKnown_set: "set ss = set ts \<Longrightarrow> WorstKnownStatus ss = WorstKnownStatus ts"
proof -
  have "foldr (\<lambda>s n. max (status_rank s) n) us (0::nat) = Max (set (0 # map status_rank us))" for us
  proof (induction us)
    case (Cons u us)
    have "Max (set (0 # map status_rank (u # us))) = max (status_rank u) (Max (set (0 # map status_rank us)))"
      by (metis List.finite_set Max_insert insert_commute list.simps(15,9) list.set_intros(1) empty_iff)
    with Cons show ?case by simp
  qed simp
  moreover assume "set ss = set ts"
  ultimately show ?thesis by (simp add: WorstKnownStatus_refines worst_spec_def)
qed

lemma WorstKnownStatus_mset: "mset ss = mset ts \<Longrightarrow> WorstKnownStatus ss = WorstKnownStatus ts"
  by (intro worstKnown_set mset_eq_setD)

lemma distinct_entries_mset:
  assumes "distinct (map fst entries)" "fmap_of_list entries = results"
  shows "mset entries = mset (sorted_list_of_fmap results)"
proof (rule set_eq_iff_mset_eq_distinct [THEN iffD1])
  show "distinct entries" using assms(1) by (simp add: distinct_map)
  have "distinct (map fst (sorted_list_of_fmap results))"
    by (simp add: sorted_list_of_fmap_def comp_def sorted_list_of_fset.rep_eq)
  then show "distinct (sorted_list_of_fmap results)" by (simp add: distinct_map)
  have "(k, v) \<in> set entries \<longleftrightarrow> fmlookup results k = Some v" for k v
    using assms by (auto simp: fmlookup_of_list map_of_eq_Some_iff)
  moreover have "(k, v) \<in> set (sorted_list_of_fmap results) \<longleftrightarrow> fmlookup results k = Some v" for k v
    by (auto simp: sorted_list_of_fmap_def fmlookup_dom_iff intro!: image_eqI [where x = k])
  ultimately show "set entries = set (sorted_list_of_fmap results)" by auto
qed

text \<open>The statistics show the worst known status, whatever order Go ranges over the results in.\<close>

lemma RenderStats_order:
  assumes "distinct (map fst entries)" "fmap_of_list entries = results"
  shows "RenderStats entries results = RenderStats (sorted_list_of_fmap results) results"
proof -
  have "mset (map (mr_Status \<circ> snd) entries) = mset (map (mr_Status \<circ> snd) (sorted_list_of_fmap results))"
    using distinct_entries_mset [OF assms] by simp
  from WorstKnownStatus_mset [OF this] show ?thesis by (simp add: RenderStats_def)
qed

end
