(* ===== verification/App_Bot.thy ===== *)
theory App_Bot
  imports App_Providers App_Runtime Telegram_Service App_Alerts Monitor_Service Reports
begin

text \<open>
  The services of \<open>buildMonitorServices\<close> (\<open>internal/app/runtime.go\<close>) put together. The components
  were modelled over the part of the state they use; here they share one state: the latest
  results of the monitor, the pending transaction of the withdrawal service, and the world. A
  component that uses a part of it is lifted with \<open>envIO\<close>, which leaves the rest alone.
\<close>

type_synonym bstate = "world wstate mstate"

abbreviation bot_latest :: "bstate \<Rightarrow> Latest" where "bot_latest s \<equiv> fst s"
abbreviation bot_pending :: "bstate \<Rightarrow> pendingWithdrawal option" where "bot_pending s \<equiv> fst (snd s)"
abbreviation bot_world :: "bstate \<Rightarrow> world" where "bot_world s \<equiv> snd (snd s)"

subsection \<open>Lifting\<close>

definition lift_driver :: "'w Driver \<Rightarrow> ('p \<times> 'w) Driver" where
  "lift_driver dr =
     \<lparr>dr_Get = (\<lambda>s. dr_Get dr (snd s)), dr_Put = (\<lambda>db s. (fst s, dr_Put dr db (snd s))),
      dr_Fault = (\<lambda>name. envIO (dr_Fault dr name)), dr_HashText = dr_HashText dr\<rparr>"

definition lift_module :: "'w Module \<Rightarrow> ('p \<times> 'w) Module" where
  "lift_module m =
     \<lparr>mod_ID = mod_ID m, mod_ValidateConfig = envIO (mod_ValidateConfig m),
      mod_Bootstrap = envIO (mod_Bootstrap m), mod_Monitor = envIO (mod_Monitor m)\<rparr>"

definition lift_bot :: "'w Bot \<Rightarrow> ('p \<times> 'w) Bot" where
  "lift_bot api =
     \<lparr>bot_Token = bot_Token api, bot_GetUpdates = (\<lambda>offset. envIO (bot_GetUpdates api offset)),
      bot_Send = (\<lambda>chat text. envIO (bot_Send api chat text))\<rparr>"

definition whole :: "(world, 'a) io \<Rightarrow> (bstate, 'a) io" where
  "whole m = envIO (envIO m)"

subsection \<open>The services\<close>

definition runtime_authorization :: "Config \<Rightarrow> Authorization" where
  "runtime_authorization cfg =
     \<lparr>auth_ChatID = tg_ChatID (cfg_Telegram cfg),
      auth_AllowedUserIDs = allowedUserIDs (tg_AllowedUserIDs (cfg_Telegram cfg))\<rparr>"

definition alert_sender :: "Config \<Rightarrow> 'w Bot \<Rightarrow> 'w TelegramOut" where
  "alert_sender cfg api =
     \<lparr>tl_Bot = Some api, tl_Sender = None, tl_Authorization = runtime_authorization cfg,
      tl_MaxResponseChars = 0\<rparr>"

definition build_alerts :: "world Platform \<Rightarrow> Config \<Rightarrow> world Service \<Rightarrow> world Bot
    \<Rightarrow> world wstate AlertService" where
  "build_alerts pl cfg svc api =
     \<lparr>al_Withdrawer = urgentWithdrawer (ExecuteFullExit pl svc),
      al_Notifier = telegramAlertNotifier (SendAlert (alert_sender cfg (lift_bot api)))\<rparr>"

definition build_monitor :: "Outside \<Rightarrow> world Platform \<Rightarrow> Config \<Rightarrow> world MonitorModule list
    \<Rightarrow> world Service \<Rightarrow> world Bot \<Rightarrow> world wstate MonitorService \<times> Latest" where
  "build_monitor out pl cfg modules svc api =
     (case NewService (envIO (system_clock out))
             (map (map_option lift_module) (withThresholdOverrides (system_clock out) (map Some modules)
                (sql_driver out) (ec_AssetDecimals (cfg_Ethereum cfg))))
             (lift_driver (sql_driver out)) None of
        (service, latest) \<Rightarrow>
          (service\<lparr>ms_ResultHandler := Some (HandleMonitorResults (build_alerts pl cfg svc api))\<rparr>, latest))"

definition reportProvider_Stats :: "(bstate, gerror + string) io" where
  "reportProvider_Stats = bindIO Snapshot (\<lambda>results.
     ret (Inr (RenderStats (sorted_list_of_fmap results) results)))"

definition lift_thresholds :: "Outside \<Rightarrow> (string \<Rightarrow> string) \<Rightarrow> world thresholdProvider
    \<Rightarrow> bstate ThresholdService" where
  "lift_thresholds out showFloat provider =
     \<lparr>ts_List = whole (List_Thresholds showFloat provider),
      ts_BuildSetConfirmation = (\<lambda>userID m k v.
        whole (BuildSetConfirmation (system_clock out) provider userID m k v)),
      ts_Confirm = (\<lambda>userID i. whole (Confirm (system_clock out) provider userID i))\<rparr>"

definition build_telegram :: "Outside \<Rightarrow> AddressLib \<Rightarrow> (string \<Rightarrow> string) \<Rightarrow> Config \<Rightarrow> world Service
    \<Rightarrow> world Bot \<Rightarrow> bstate TelegramService" where
  "build_telegram out lib showFloat cfg svc api =
     \<lparr>tl_Bot = Some (lift_bot (lift_bot api)), tl_Sender = None,
      tl_Authorization = runtime_authorization cfg, tl_MaxResponseChars = 0,
      tl_UpdateSource = None,
      tl_Reports = Some reportProvider_Stats,
      tl_Withdraw = Some (whole (DryRunFullExit svc)),
      tl_Thresholds = Some (lift_thresholds out showFloat (runtime_thresholds out lib cfg)),
      tl_Logs = Some (\<lambda>includeInfo. whole (Recent (runtime_logs out) includeInfo)),
      tl_Events = Some (\<lambda>ty m flds t. whole (Repositories_Record (sql_driver out) ty m flds t)),
      tl_Clock = None\<rparr>"

subsection \<open>The two loops of the daemon\<close>

text \<open>
  \<open>runMonitor\<close> (\<open>internal/app/app.go\<close>) runs the loop of the monitor and the one of Telegram in two
  goroutines and returns what the first of them returns. A schedule is the order in which the
  two take their turns: an event that the monitor's \<open>select\<close> receives, or a round of polling
  (the error of the context when that is done). One turn is atomic here: a run of all modules
  with its alerts, or one batch of updates.
\<close>

datatype turn = MonitorTurn loop_event | TelegramTurn "gerror option"

fun daemonLoop :: "bstate Clock \<Rightarrow> world wstate MonitorService \<Rightarrow> Duration \<Rightarrow> bstate TelegramService
    \<Rightarrow> bstate Bot \<Rightarrow> int64 \<Rightarrow> turn list \<Rightarrow> (bstate, gerror option option) io" where
  "daemonLoop sys monitor interval service api offset [] = ret None"
| "daemonLoop sys monitor interval service api offset (MonitorTurn event # rest) =
     (if interval \<le> 0 then ret (Some (Some (New ''monitor interval must be positive'')))
      else (case event of
        ContextDone err \<Rightarrow> ret (Some (Some err))
      | Tick \<Rightarrow> bindIO (RunOnce monitor) (\<lambda>(results, err).
          if fatal err then ret (Some err)
          else daemonLoop sys monitor interval service api offset rest)))"
| "daemonLoop sys monitor interval service api offset (TelegramTurn done # rest) =
     (case done of
        Some err \<Rightarrow> ret (Some (Some err))
      | None \<Rightarrow> bindIO (pollRound sys service api offset) (\<lambda>(offset', err).
          case err of
            Some e \<Rightarrow> ret (Some (Some e))
          | None \<Rightarrow> daemonLoop sys monitor interval service api offset' rest))"

text \<open>Alone, each goroutine does in the schedule what its loop does.\<close>

lemma daemonLoop_monitor:
  assumes "0 < interval"
  shows "daemonLoop sys monitor interval service api offset (map MonitorTurn events) s =
    (case tickLoop monitor events s of (r, s') \<Rightarrow> (map_option Some r, s'))"
proof (induction events arbitrary: s)
  case (Cons event events)
  show ?case
  proof (cases event)
    case Tick
    obtain results err s1 where r: "RunOnce monitor s = ((results, err), s1)" by (metis surj_pair)
    show ?thesis
      using assms Cons [of s1] Tick r
      by (cases err) (auto simp: bindIO_eq ret_eq fatal_def)
  qed (use assms in \<open>simp add: ret_eq\<close>)
qed (simp add: ret_eq)

lemma daemonLoop_telegram:
  "daemonLoop sys monitor interval service api offset (map TelegramTurn rounds) =
     pollLoop sys service api offset rounds"
proof (induction rounds arbitrary: offset)
  case (Cons round rounds)
  have "(\<lambda>(offset', err). case err of Some e \<Rightarrow> ret (Some (Some e))
      | None \<Rightarrow> daemonLoop sys monitor interval service api offset' (map TelegramTurn rounds)) =
    (\<lambda>(offset', err). case err of Some e \<Rightarrow> ret (Some (Some e)) | None \<Rightarrow> pollLoop sys service api offset' rounds)"
    by (rule ext) (auto split: option.splits simp: Cons)
  then show ?case by (cases round) simp_all
qed simp

text \<open>What every turn keeps, the daemon keeps, on every schedule.\<close>

lemma daemonLoop_moves:
  assumes "reflp R" "transp R" "moves R (RunOnce monitor)" "\<And>offset. moves R (pollRound sys service api offset)"
  shows "moves R (daemonLoop sys monitor interval service api offset turns)"
proof (induction turns arbitrary: offset)
  case (Cons t turns)
  note comb = moves_combinators [OF assms(1,2)]
  show ?case
  proof (cases t)
    case (MonitorTurn event)
    show ?thesis
      unfolding MonitorTurn daemonLoop.simps
      by (cases event) (auto intro!: comb(1,2,6) assms(3) Cons split: prod.splits)
  next
    case (TelegramTurn d)
    show ?thesis
      unfolding TelegramTurn daemonLoop.simps
      by (cases d) (auto intro!: comb(1,2) assms(4) Cons split: prod.splits option.splits)
  qed
qed (simp add: moves_combinators(1) [OF assms(1,2)])

end
