(* ===== verification/Bot_Frame.thy ===== *)
theory Bot_Frame
  imports App_Bot
begin

text \<open>
  How far the operations of the assembled program move its state, for any reflexive and
  transitive relation: the rules of \<open>moves\<close> for the monitor service, the alerts and the Telegram
  service, and the calls of the program that are \<open>quiet\<close> (they only read) or \<open>calm\<close> (they send no
  transaction and fetch no updates).
\<close>

subsection \<open>How far a run of the monitor moves the world\<close>

lemma moves_envIO:
  fixes R :: "'p \<times> 'w \<Rightarrow> 'p \<times> 'w \<Rightarrow> bool"
  assumes "\<And>p. moves (\<lambda>a b. R (p, a) (p, b)) m"
  shows "moves R (envIO m)"
proof (rule movesI)
  fix s :: "'p \<times> 'w" and r s'
  assume "envIO m s = (r, s')"
  then obtain w1 where "m (snd s) = (r, w1)" "s' = (fst s, w1)" by (rule envIO_elim)
  with movesD [OF assms [of "fst s"]] show "R s s'" by (metis prod.collapse)
qed

lemma moves_weaken: "moves R m \<Longrightarrow> (\<And>w w'. R w w' \<Longrightarrow> Q w w') \<Longrightarrow> moves Q m"
  by (auto simp: moves_def)

lemma handleFindings_moves:
  assumes "reflp R" "transp R" "\<And>m. moves R (al_Notifier service m)"
    and "\<And>r f. moves R (al_Withdrawer service r f)"
  shows "moves R (handleFindings service result fs)"
  by (induction fs) (auto intro!: moves_combinators [OF assms(1,2)] assms(3,4))

lemma HandleMonitorResults_moves:
  assumes "reflp R" "transp R" "\<And>m. moves R (al_Notifier service m)"
    and "\<And>r f. moves R (al_Withdrawer service r f)"
  shows "moves R (HandleMonitorResults service results)"
  by (induction results) (auto intro!: moves_combinators [OF assms(1,2)] handleFindings_moves [OF assms])

text \<open>The operations of a monitor service, each of which moves the environment by \<open>Q\<close> only.\<close>

definition modules_move :: "('w \<Rightarrow> 'w \<Rightarrow> bool) \<Rightarrow> 'w MonitorService \<Rightarrow> bool" where
  "modules_move Q svc \<longleftrightarrow> reflp Q \<and> transp Q \<and> moves Q (ms_Clock svc) \<and>
     (\<forall>r t. moves Q (InsertMonitorResult (ms_Storage svc) r t)) \<and>
     (\<forall>m. Some m \<in> set (ms_Modules svc) \<longrightarrow> moves Q (mod_ValidateConfig m) \<and> moves Q (mod_Monitor m))"

definition service_moves :: "('w \<Rightarrow> 'w \<Rightarrow> bool) \<Rightarrow> 'w MonitorService \<Rightarrow> bool" where
  "service_moves Q svc \<longleftrightarrow> modules_move Q svc \<and>
     (\<forall>h results. ms_ResultHandler svc = Some h \<longrightarrow> moves Q (h results))"

abbreviation in_env :: "('w \<Rightarrow> 'w \<Rightarrow> bool) \<Rightarrow> 'p \<times> 'w \<Rightarrow> 'p \<times> 'w \<Rightarrow> bool" where
  "in_env Q s s' \<equiv> Q (snd s) (snd s')"

lemma in_env_order: "reflp Q \<Longrightarrow> reflp (in_env Q)" "transp Q \<Longrightarrow> transp (in_env Q)"
  by (auto simp: reflp_def transp_def)

lemma moves_in_env: "moves Q m \<Longrightarrow> moves (in_env Q) (envIO m)"
  by (rule moves_envIO) simp

lemma moves_setLatest: "reflp Q \<Longrightarrow> moves (in_env Q) (setLatest r)"
  by (rule movesI) (auto simp: setLatest_def reflp_def)

lemma runModules_moves:
  assumes "modules_move Q svc" "set mods \<subseteq> set (ms_Modules svc)"
  shows "moves (in_env Q) (runModules svc mods results err)"
  using assms(2)
proof (induction mods arbitrary: results err)
  note q = assms(1) [unfolded modules_move_def]
  note comb = moves_combinators [OF in_env_order, of Q] moves_combinators [of Q]
  {
    case Nil
    show ?case using q by (auto intro: comb(1))
  next
    case (Cons m mods)
    have o: "moves Q (observeModule svc x e)" if "m = Some x" for x e
      using q Cons.prems that unfolding observeModule_def by (auto intro!: comb split: sum.splits)
    show ?case
    proof (cases m)
      case (Some x)
      then show ?thesis
        using q Cons.prems o
        by (auto simp: Let_def intro!: comb(1-8) moves_in_env moves_setLatest Cons.IH
            split: prod.splits option.splits)
    qed (use q in \<open>auto intro: comb(1)\<close>)
  }
qed

lemma RunOnce_moves:
  assumes "service_moves Q svc"
  shows "moves (in_env Q) (RunOnce svc)"
proof -
  note q = assms [unfolded service_moves_def modules_move_def]
  note comb = moves_combinators [OF in_env_order, of Q]
  have h: "moves (in_env Q) (case ms_ResultHandler svc of
        None \<Rightarrow> ret x
      | Some handler \<Rightarrow> if b then onErr (envIO (handler results)) (\<lambda>err. ret (y err)) (ret x) else ret x)"
    for x results b y
    using q by (cases "ms_ResultHandler svc") (auto intro!: comb(1,5,6) moves_in_env)
  have "modules_move Q svc" using assms by (simp add: service_moves_def)
  with q show ?thesis
    unfolding RunOnce_def
    by (auto intro!: comb(1,2,6) runModules_moves h split: prod.splits)
qed

subsection \<open>Modules that only read\<close>

text \<open>A module whose reader, simulator and clock are quiet.\<close>

fun quiet_module :: "world MonitorModule \<Rightarrow> bool" where
  "quiet_module (SharePriceValue m) \<longleftrightarrow> quiet (the (sp_Reader m)) \<and> (\<forall>c. sp_Clock m = Some c \<longrightarrow> quiet c)"
| "quiet_module (LiquidityValue m) \<longleftrightarrow>
     (\<forall>v. quiet (the (wl_IdleAssetReader m) v)) \<and> quiet (es_Position (the (wl_ExitSimulator m))) \<and>
     (\<forall>r. quiet (es_SimulateFullExit (the (wl_ExitSimulator m)) r)) \<and>
     (\<forall>c. wl_Clock m = Some c \<longrightarrow> quiet c)"
| "quiet_module (VaultStateValue m) \<longleftrightarrow> quiet (the (vm_Reader m)) \<and> (\<forall>c. vm_Clock m = Some c \<longrightarrow> quiet c)"
| "quiet_module m = False"

lemma quiet_module_ops:
  assumes "quiet_module mv" "quiet sys"
  shows "quiet (mod_ValidateConfig (ops_of sys mv))" "quiet (mod_Monitor (ops_of sys mv))"
proof -
  note intros = moves_combinators [OF quiet_order]
  have c: "quiet (clock_now sys oc)" if "\<forall>c. oc = Some c \<longrightarrow> quiet c" for oc
    using that assms(2) by (cases oc) (simp_all add: clock_now_def)
  show "quiet (mod_ValidateConfig (ops_of sys mv))"
    using assms(1) by (cases mv)
      (auto simp: ops_of_def share_price_ops_def liquidity_ops_def vault_state_ops_def intro: intros(1))
  show "quiet (mod_Monitor (ops_of sys mv))"
    using assms(1)
    by (cases mv)
      (auto simp: ops_of_def share_price_ops_def liquidity_ops_def vault_state_ops_def
        SharePrice_Monitor_def WithdrawLiquidity_Monitor_def VaultState_Monitor_def Let_def
        split: option.splits prod.splits sum.splits intro!: intros(1-8) c)
qed

lemma quiet_module_overrides:
  assumes "quiet_module mv" "ApplyOverrides mv os dec = Inr e"
  shows "quiet_module e"
proof -
  have "sp_Reader b = sp_Reader a \<and> sp_Clock b = sp_Clock a"
    if "applySharePriceOverrides a os = Inr b" for a b :: "world SharePriceModule"
    using arg_cong [OF applied_shapes(1) [OF that], of sp_Clock] applySharePriceOverrides_keeps [OF that] by simp
  moreover have "wl_Clock b = wl_Clock a"
    if "applyWithdrawLiquidityOverrides a os dec = Inr b" for a b :: "world WithdrawLiquidityModule"
    using arg_cong [OF applied_shapes(2) [OF that], of wl_Clock] by simp
  moreover have "vm_Clock b = vm_Clock a"
    if "applyVaultStateOverrides a os = Inr b" for a b :: "world VaultStateModule"
    using arg_cong [OF applied_shapes(3) [OF that], of vm_Clock] by simp
  ultimately show ?thesis
    using assms by (cases mv) (auto simp: applyWithdrawLiquidityOverrides_keeps
        applyVaultStateOverrides_keeps map_sum_Inr_iff split: sum.splits)
qed

lemma quiet_query: "quiet (query_stmt (sql_driver out) name f)"
  by (rule movesI) (auto simp: query_stmt_def sql_driver_def ask_def quiet_step_def calm_step_def
      onErr_eq ret_eq split: option.splits)

lemma quiet_fault: "quiet (dr_Fault (sql_driver out) name)"
  by (simp add: sql_driver_def quiet_ask)

lemma quiet_overrides: "quiet (ListThresholdOverrides (sql_driver out))"
  unfolding ListThresholdOverrides_def Let_def
  by (auto intro!: moves_combinators [OF quiet_order] quiet_query quiet_fault)

lemma quiet_effective: "quiet (effective (sql_driver out) dec mv)"
  unfolding effective_def by (auto intro!: moves_combinators [OF quiet_order] quiet_overrides)

lemma effective_quiet_module:
  assumes "quiet_module mv" "effective (sql_driver out) dec mv w = (Inr e, w')"
  shows "quiet_module e"
  using driver.effective_law(2) [OF sql.driver_axioms assms(2) refl] quiet_module_overrides [OF assms(1)] by blast

lemma quiet_override_module:
  assumes "quiet_module mv"
  shows "quiet (override_ValidateConfig (system_clock out) (sql_driver out) dec mv)"
    "quiet (override_Monitor (system_clock out) (sql_driver out) dec mv)"
proof -
  note ops = quiet_module_ops [OF _ quiet_system_clock]
  have t: "quiet_step u w" if "quiet_step u v" "quiet_step v w" for u v w
    using transpD [OF quiet_order(2) that] .
  note step = movesD [OF quiet_effective] effective_quiet_module [OF assms]
  show "quiet (override_ValidateConfig (system_clock out) (sql_driver out) dec mv)"
    by (rule movesI)
      (auto simp: override_ValidateConfig_def elim!: io_elims dest: step movesD [OF ops(1)] intro: t)
  show "quiet (override_Monitor (system_clock out) (sql_driver out) dec mv)"
    by (rule movesI)
      (auto simp: override_Monitor_def elim!: io_elims dest: step movesD [OF ops(2)] intro: t)
qed

text \<open>The modules of the factory, over a pool of endpoints.\<close>

lemma quiet_vaultCall:
  "vr_Ethereum reader = rpc_pool out n \<Longrightarrow> quiet (vaultCall reader m args)"
  unfolding vaultCall_def by (auto split: sum.splits intro!: moves_combinators [OF quiet_order] quiet_reads)

lemma quiet_readers:
  assumes "vr_Ethereum reader = rpc_pool out n"
  shows "quiet (CurrentSharePrice reader)" "quiet (IdleAssets reader vault)"
    "quiet (lived (CurrentVaultState reader))"
proof -
  note intros = moves_combinators(1-8) [OF quiet_order] quiet_vaultCall [OF assms]
  have u: "quiet (vaultUint256 reader m args)" for m args
    unfolding vaultUint256_def by (intro intros)
  have a: "quiet (vaultAddress reader m args)" for m args
    unfolding vaultAddress_def by (intro intros)
  have b: "quiet (vaultBytes reader m args)" for m args
    unfolding vaultBytes_def by (intro intros)
  have s: "quiet (vaultAddressString reader m)" for m
    unfolding vaultAddressString_def by (intro intros a)
  have v: "quiet (vaultValueString reader m)" for m
    unfolding vaultValueString_def by (intro intros)
  have l: "quiet (adaptersLoop reader i k as)" for i k as
    by (induction k arbitrary: i as) (auto intro!: intros a)
  have p: "quiet (vaultAdapters reader)"
    unfolding vaultAdapters_def orPanic_def Let_def by (intro intros u l)
  show "quiet (CurrentSharePrice reader)"
    unfolding CurrentSharePrice_def by (intro intros u)
  show "quiet (IdleAssets reader vault)"
    unfolding IdleAssets_def assms
    by (auto split: sum.splits intro!: moves_combinators [OF quiet_order] a quiet_reads)
  show "quiet (lived (CurrentVaultState reader))"
    unfolding lived_def CurrentVaultState_def orPanic_def by (intro intros s b v p)
qed

lemma BuildModules_quiet:
  assumes "BuildModules (system_clock out) reread cfg entries reader vault owner receiver (Some exitSim) = Inr ms"
    and "vr_Ethereum reader = rpc_pool out n" "quiet (es_Position exitSim)"
    and "\<And>r. quiet (es_SimulateFullExit exitSim r)" "mv \<in> set ms"
  shows "quiet_module mv"
  using assms(1,5)
proof (cases rule: BuildModules_member)
  case (share c m)
  then show ?thesis
    by (auto simp: buildSharePriceModule_def quiet_readers [OF assms(2)] quiet_system_clock split: sum.splits)
next
  case (liquidity c m)
  then show ?thesis
    by (auto simp: buildWithdrawLiquidityModule_def quiet_readers [OF assms(2)] quiet_system_clock
        assms(3,4) split: sum.splits)
next
  case (state c m)
  then show ?thesis
    by (auto simp: buildVaultStateModule_def quiet_readers [OF assms(2)] quiet_system_clock split: sum.splits)
qed

subsection \<open>How far a command moves the state\<close>

definition telegram_moves :: "('w \<Rightarrow> 'w \<Rightarrow> bool) \<Rightarrow> 'w Clock \<Rightarrow> 'w TelegramService \<Rightarrow> bool" where
  "telegram_moves R sys service \<longleftrightarrow> reflp R \<and> transp R \<and> moves R (telegram_now sys service) \<and>
     (\<forall>send chat t. tl_Sender service = Some send \<longrightarrow> moves R (send chat t)) \<and>
     (\<forall>api chat t. tl_Bot service = Some api \<longrightarrow> moves R (bot_Send api chat t)) \<and>
     (\<forall>stats. tl_Reports service = Some stats \<longrightarrow> moves R stats) \<and>
     (\<forall>dryRun. tl_Withdraw service = Some dryRun \<longrightarrow> moves R dryRun) \<and>
     (\<forall>ts. tl_Thresholds service = Some ts \<longrightarrow> moves R (ts_List ts) \<and>
        (\<forall>u m k v. moves R (ts_BuildSetConfirmation ts u m k v)) \<and> (\<forall>u i. moves R (ts_Confirm ts u i))) \<and>
     (\<forall>recent i. tl_Logs service = Some recent \<longrightarrow> moves R (recent i)) \<and>
     (\<forall>rec ty m f t. tl_Events service = Some rec \<longrightarrow> moves R (rec ty m f t))"

lemma dispatch_moves:
  assumes "telegram_moves R sys service"
  shows "moves R (dispatch service command userID)"
proof -
  note q = assms [unfolded telegram_moves_def]
  note comb = moves_combinators [of R]
  have "moves R (tl_stats service)" "moves R (tl_thresholds service)"
    using q by (auto simp: tl_stats_def tl_thresholds_def intro: comb(1) split: option.splits)
  moreover have "moves R (tl_withdraw service)"
    using q by (auto simp: tl_withdraw_def intro!: comb(1,2) split: option.splits)
  moreover have "moves R (tl_confirm service args userID)" "moves R (tl_logs service args)"
    "moves R (tl_thresholdSet service args userID)" for args
    using q by (auto simp: tl_confirm_def tl_logs_def tl_thresholdSet_def intro: comb(1)
        split: option.splits list.splits)
  ultimately show ?thesis
    using q comb(1) by (auto simp: dispatch_def Let_def)
qed

lemma sendText_moves:
  assumes "telegram_moves R sys service"
  shows "moves R (sendText service chat t)"
  using assms unfolding sendText_def Let_def telegram_moves_def
  by (auto intro!: moves_combinators(1,2) split: option.splits)

lemma recordSecurityReject_moves:
  assumes "telegram_moves R sys service"
  shows "moves R (recordSecurityReject sys service command chat user)"
  using assms unfolding recordSecurityReject_def telegram_moves_def
  by (auto intro!: moves_combinators(1,2,5) split: option.splits)

lemma handleUpdate_moves:
  assumes "telegram_moves R sys service"
  shows "moves R (handleUpdate sys service update)"
proof -
  have o: "reflp R" "transp R" using assms by (simp_all add: telegram_moves_def)
  note comb = moves_combinators [OF o]
  have "moves R (HandleCommand sys service chat user t)" for chat user t
    unfolding HandleCommand_def Let_def
    by (auto intro!: comb(1,4,5) recordSecurityReject_moves [OF assms] dispatch_moves [OF assms]
        split: option.splits)
  then show ?thesis
    unfolding handleUpdate_def SendCommandResponse_def
    by (auto intro!: comb(1,3) sendText_moves [OF assms] split: option.splits)
qed

lemma handleBatch_moves:
  assumes "telegram_moves R sys service"
  shows "moves R (handleBatch sys service offset updates)"
proof (induction updates arbitrary: offset)
  have o: "reflp R" "transp R" using assms by (simp_all add: telegram_moves_def)
  note comb = moves_combinators [OF o]
  {
    case Nil
    show ?case by (simp add: comb(1))
  next
    case (Cons u updates)
    show ?case
      by (auto simp: Let_def intro!: comb(1,5) handleUpdate_moves [OF assms] Cons)
  }
qed

lemma pollRound_moves:
  assumes "telegram_moves R sys service" "\<And>offset. moves R (bot_GetUpdates api offset)"
  shows "moves R (pollRound sys service api offset)"
proof -
  have o: "reflp R" "transp R" using assms by (simp_all add: telegram_moves_def)
  show ?thesis
    unfolding pollRound_def
    by (auto intro!: moves_combinators(1,3) [OF o] handleBatch_moves [OF assms(1)] assms(2))
qed

subsection \<open>Calls that send nothing\<close>

lemma calm_exec [calm_intros]: "calm (exec_stmt (sql_driver out) name f)"
  by (rule movesI) (auto simp: exec_stmt_def sql_driver_def ask_def calm_step_def
      onErr_eq ret_eq split: option.splits sum.splits)

lemma calm_reads [calm_intros]:
  "calm (query_stmt (sql_driver out) name g)" "calm (dr_Fault (sql_driver out) name)"
  "calm (system_clock out)" "calm (ListThresholdOverrides (sql_driver out))"
  by (intro quiet_calm quiet_query quiet_fault quiet_system_clock quiet_overrides)+

lemma calm_send: "calm (bot_Send (telegram_bot out token) chat t)"
  by (simp add: telegram_bot_def quiet_ask quiet_calm)

lemma calm_repositories [calm_intros]:
  "calm (InsertMonitorResult (sql_driver out) r t)"
  "calm (Repositories_Record (sql_driver out) ty m flds t)"
  "calm (InsertWithdrawalAttempt (sql_driver out) a)"
  "calm (UpsertThresholdOverride (sql_driver out) i k v u t)"
  "calm (InsertPendingConfirmation (sql_driver out) c)"
  "calm (ListRecentEvents (sql_driver out) b n)"
  unfolding InsertMonitorResult_def Repositories_Record_def InsertEvent_def InsertWithdrawalAttempt_def
    UpsertThresholdOverride_def InsertPendingConfirmation_def ListRecentEvents_def Let_def
  by (intro calm_intros)+

lemma calm_put [calm_intros]: "calm (\<lambda>w. (x, dr_Put (sql_driver out) (f w) w))"
  by (rule movesI) (auto simp: sql_driver_def calm_step_def)

lemma calm_consume [calm_intros]:
  "calm (ConsumePendingConfirmationForUser (sql_driver out) i u t)"
  unfolding ConsumePendingConfirmationForUser_def consumePendingConfirmation_def
    selectPendingConfirmation_def Let_def
  by (auto intro!: calm_intros split: option.splits sum.splits)

lemma calm_providers:
  "calm (Recent (runtime_logs out) includeInfo)"
  "calm (List_Thresholds showFloat (runtime_thresholds out lib cfg))"
  "calm (BuildSetConfirmation (system_clock out) (runtime_thresholds out lib cfg) u m k v)"
  "calm (Confirm (system_clock out) (runtime_thresholds out lib cfg) u i)"
proof -
  have p: "tp_repos (runtime_thresholds out lib cfg) = sql_driver out" by (simp add: runtime_thresholds_def)
  have v: "calm (validateChange (runtime_thresholds out lib cfg) m k v)" for m k v
    unfolding validateChange_def p by (intro calm_intros)
  have a: "calm (applyConfirmation (runtime_thresholds out lib cfg) u i now c)" for u i now c
    unfolding applyConfirmation_def p by (auto intro!: calm_intros v split: sum.splits)
  show "calm (Recent (runtime_logs out) includeInfo)"
    unfolding Recent_def Let_def runtime_logs_def by (auto intro!: calm_intros)
  show "calm (List_Thresholds showFloat (runtime_thresholds out lib cfg))"
    unfolding List_Thresholds_def p Let_def by (intro calm_intros)
  show "calm (BuildSetConfirmation (system_clock out) (runtime_thresholds out lib cfg) u m k v)"
    unfolding BuildSetConfirmation_def Let_def p runtime_thresholds_simps
    by (auto intro!: calm_intros v split: sum.splits)
  show "calm (Confirm (system_clock out) (runtime_thresholds out lib cfg) u i)"
    unfolding Confirm_def p runtime_thresholds_simps by (auto intro!: calm_intros a)
qed

subsection \<open>How far an execution moves the world\<close>

definition exit_moves :: "('w \<Rightarrow> 'w \<Rightarrow> bool) \<Rightarrow> 'w Platform \<Rightarrow> 'w Service \<Rightarrow> bool" where
  "exit_moves Q pl svc \<longleftrightarrow> reflp Q \<and> transp Q \<and> moves Q (service_now pl svc) \<and>
     moves Q (ad_Position (the (svc_Adapter svc))) \<and>
     (\<forall>r. moves Q (ad_BuildFullExit (the (svc_Adapter svc)) r)) \<and>
     (\<forall>r. moves Q (ad_SimulateFullExit (the (svc_Adapter svc)) r)) \<and>
     moves Q (sg_Address (the (svc_Signer svc))) \<and>
     (\<forall>tx c. moves Q (sg_SignTransaction (the (svc_Signer svc)) tx c)) \<and>
     (\<forall>a. moves Q (sb_PendingNonceAt (the (svc_Submitter svc)) a)) \<and>
     moves Q (sb_SuggestGasPrice (the (svc_Submitter svc))) \<and>
     moves Q (sb_SuggestGasTipCap (the (svc_Submitter svc))) \<and>
     (\<forall>tx. moves Q (sb_SendTransaction (the (svc_Submitter svc)) tx)) \<and>
     (\<forall>a. moves Q ((the (svc_Repository svc)) a))"

lemma moves_pending: "reflp Q \<Longrightarrow> moves (in_env Q) getPending" "reflp Q \<Longrightarrow> moves (in_env Q) (setPending p)"
  by (rule movesI; auto simp: getPending_def setPending_def reflp_def)+

lemma ExecuteFullExit_moves:
  assumes "exit_moves Q pl svc"
  shows "moves (in_env Q) (ExecuteFullExit pl svc trigger)"
proof -
  note q = assms [unfolded exit_moves_def]
  then have o: "reflp Q" "transp Q" by blast+
  note env = moves_combinators [OF in_env_order(1) [OF o(1)] in_env_order(2) [OF o(2)]]
  note comb = moves_combinators [OF o]
  have f: "moves (in_env Q) (failWith e)" for e by (simp add: failWith_def env(1))
  have r: "moves Q (recordAttempt (the (svc_Repository svc)) t res sim reason now)" for t res sim reason now
    using q by (simp add: recordAttempt_def)
  have i: "moves Q (initialFeeCaps policy (the (svc_Submitter svc)))" for policy
    unfolding initialFeeCaps_def Let_def using q by (auto intro!: comb(1,3) split: option.splits)
  have n: "moves Q (nonceAndFeeCaps svc (the (svc_Submitter svc)) p a now)" for p a now
    unfolding nonceAndFeeCaps_def using q
    by (auto intro!: comb(1,3,4) i split: option.splits sum.splits)
  have s: "moves (in_env Q) (submitFullExit pl svc t now a req sim)" for t now a req sim
    unfolding submitFullExit_def Let_def using q
    by (auto intro!: env(1-5) moves_in_env moves_pending f r n split: prod.splits)
  have g: "moves (in_env Q) (bindIO getPending (\<lambda>pending. case pending of
        Some p \<Rightarrow> if b p then ret (x p) else submitFullExit pl svc t now a req sim
      | None \<Rightarrow> submitFullExit pl svc t now a req sim))" for b x t now a req sim
    using o by (auto intro!: env(1,2) moves_pending s split: option.splits)
  show ?thesis
    unfolding ExecuteFullExit_def Let_def using q
    by (auto intro!: env(1-3,5) moves_in_env moves_pending f r g split: option.splits prod.splits)
qed

lemma DryRunFullExit_moves:
  assumes "exit_moves Q pl svc"
  shows "moves Q (DryRunFullExit svc)"
proof -
  have o: "reflp Q" "transp Q" using assms by (simp_all add: exit_moves_def)
  show ?thesis
    using assms unfolding DryRunFullExit_def exit_moves_def
    by (auto intro!: moves_combinators [OF o] split: option.splits prod.splits)
qed

end
