(* ===== verification/Module_Errors.thy ===== *)
theory Module_Errors
  imports Bot_Frame
begin

text \<open>
  The errors of the monitor modules are \<open>foreign\<close>: none wraps one of the variables by which the
  monitor service classifies its own failures. They come from libraries, which know nothing of
  these variables, or are made of texts by the modules.
\<close>

subsection \<open>Where an error comes from\<close>

lemma foreign_simps [simp]:
  "foreign (New s)" "foreign (Wrap a e b) \<longleftrightarrow> foreign e" "foreign (Var v) \<longleftrightarrow> v \<notin> monitor_sentinels"
  by (auto simp: foreign_def)

lemma monitor_sentinels_others [simp]:
  "ErrZeroVault \<notin> monitor_sentinels" "ErrVaultClientMismatch \<notin> monitor_sentinels"
  by (simp_all add: monitor_sentinels_def)

definition foreign_result :: "gerror + 'a \<Rightarrow> bool" where
  "foreign_result r \<longleftrightarrow> (case r of Inl e \<Rightarrow> foreign e | Inr x \<Rightarrow> True)"

lemma foreign_result_simps [simp]:
  "foreign_result (Inl e) \<longleftrightarrow> foreign e" "foreign_result (Inr x)" "foreign_result (library t)"
  "foreign_result (map_sum id f r) \<longleftrightarrow> foreign_result r"
  by (auto simp: foreign_result_def library_def split: sum.splits)

lemma foreign_case:
  "foreign_result r \<Longrightarrow> r = Inl e \<Longrightarrow> foreign e"
  by simp

definition fails_foreign :: "('w, gerror + 'a) io \<Rightarrow> bool" where
  "fails_foreign m \<longleftrightarrow> (\<forall>w. foreign_result (fst (m w)))"

lemma fails_foreignD: "fails_foreign m \<Longrightarrow> m w = (Inl e, w') \<Longrightarrow> foreign e"
  by (auto simp: fails_foreign_def dest!: spec [of _ w])

lemma fails_foreignI: "(\<And>w e w'. m w = (Inl e, w') \<Longrightarrow> foreign e) \<Longrightarrow> fails_foreign m"
  by (auto simp: fails_foreign_def foreign_result_def split: sum.splits) (metis prod.collapse)

named_theorems foreign_intros \<open>calls whose errors wrap none of the monitor's variables\<close>

lemma fails_foreign_combinators [foreign_intros]:
  "foreign_result r \<Longrightarrow> fails_foreign (ret r)"
  "fails_foreign m \<Longrightarrow> (\<And>x. fails_foreign (k x)) \<Longrightarrow> fails_foreign (bindE m k)"
  "fails_foreign m \<Longrightarrow> (\<And>e. foreign e \<Longrightarrow> fails_foreign (h e)) \<Longrightarrow> (\<And>x. fails_foreign (k2 x)) \<Longrightarrow>
     fails_foreign (tryE m h k2)"
  "(\<And>x. fails_foreign (k3 x)) \<Longrightarrow> fails_foreign (bindIO m3 k3)"
  "(b \<Longrightarrow> fails_foreign t) \<Longrightarrow> (\<not> b \<Longrightarrow> fails_foreign f) \<Longrightarrow> fails_foreign (if b then t else f)"
  "fails_foreign n \<Longrightarrow> (\<And>y. o1 = Some y \<Longrightarrow> fails_foreign (g y)) \<Longrightarrow>
     fails_foreign (case o1 of None \<Rightarrow> n | Some y \<Rightarrow> g y)"
  "(\<And>c d. fails_foreign (r2 c d)) \<Longrightarrow> fails_foreign (case p2 of (c, d) \<Rightarrow> r2 c d)"
  "(\<And>a. s1 = Inl a \<Longrightarrow> fails_foreign (p a)) \<Longrightarrow> (\<And>b. fails_foreign (q b)) \<Longrightarrow>
     fails_foreign (case s1 of Inl a \<Rightarrow> p a | Inr b \<Rightarrow> q b)"
proof -
  show "foreign_result r \<Longrightarrow> fails_foreign (ret r)" by (simp add: fails_foreign_def ret_def)
  show "fails_foreign m \<Longrightarrow> (\<And>x. fails_foreign (k x)) \<Longrightarrow> fails_foreign (bindE m k)"
    by (rule fails_foreignI) (auto elim!: io_elims dest: fails_foreignD)
  show "fails_foreign m \<Longrightarrow> (\<And>e. foreign e \<Longrightarrow> fails_foreign (h e)) \<Longrightarrow> (\<And>x. fails_foreign (k2 x)) \<Longrightarrow>
     fails_foreign (tryE m h k2)"
    by (rule fails_foreignI) (elim tryE_elim; blast dest: fails_foreignD)
  show "(\<And>x. fails_foreign (k3 x)) \<Longrightarrow> fails_foreign (bindIO m3 k3)"
    by (rule fails_foreignI) (elim bindIO_elim; blast dest: fails_foreignD)
qed (simp_all split: option.splits sum.splits prod.splits)

lemma fails_foreign_onErr:
  assumes "\<And>w e w'. m w = (Some e, w') \<Longrightarrow> foreign e" "\<And>e. foreign e \<Longrightarrow> fails_foreign (h e)"
    and "fails_foreign k"
  shows "fails_foreign (onErr m h k)"
  using assms by (intro fails_foreignI) (elim onErr_elim; blast dest: fails_foreignD)

subsection \<open>The reads\<close>

lemma firstAnswer_foreign:
  assumes "firstAnswer what le ops w = (Inl e, w')" "\<And>q. le = Some q \<Longrightarrow> foreign q"
    and "\<And>op. op \<in> set ops \<Longrightarrow> fails_foreign op"
  shows "foreign e"
  using assms
proof (induction what le ops w rule: firstAnswer.induct)
  case (2 what le op ops w)
  obtain a w1 where a: "op w = (a, w1)" by (cases "op w")
  show ?case
  proof (cases a)
    case (Inl q)
    then have "foreign q" using a 2(4) fails_foreignD by (metis list.set_intros(1))
    with 2 a Inl show ?thesis by auto
  qed (use 2 a in auto)
qed (auto split: option.splits)

lemma readAll_foreign:
  assumes "\<And>i. fails_foreign (op (endpoint out i))"
  shows "fails_foreign (readAll what op (rpc_pool out n))"
proof (rule fails_foreignI)
  fix w e w'
  assume "readAll what op (rpc_pool out n) w = (Inl e, w')"
  then have "firstAnswer what None (map op (endpoint out 0 #
      map (\<lambda>i. endpoint out (Suc i)) [0..<n])) w = (Inl e, w')"
    by (simp add: readAll_def rpc_pool_def NewMultiClient_def rpcClients_def comp_def)
  then show "foreign e"
    by (rule firstAnswer_foreign) (use assms in auto)
qed

lemma fails_foreign_ask: "fails_foreign (ask r (\<lambda>l. library (f l)))"
  by (simp add: fails_foreign_def ask_def)

lemma reads_foreign [foreign_intros]:
  "fails_foreign (CallContract (rpc_pool out n) msg blk)"
  "fails_foreign (EstimateGas (rpc_pool out n) msg)"
  unfolding CallContract_def EstimateGas_def
  by (rule readAll_foreign, simp add: endpoint_def fails_foreign_ask)+

lemma query_foreign [foreign_intros]: "fails_foreign (query_stmt (sql_driver out) name f)"
  by (rule fails_foreignI)
    (auto simp: query_stmt_def sql_driver_def ask_def library_results elim!: io_elims)

lemma parse_time_foreign: "foreign_result (parse_time s)"
  by (auto simp: parse_time_def split: option.splits)

lemma scan_rows_foreign:
  assumes "scan_rows scan rows = Inl e" "\<And>row. foreign_result (scan row)"
  shows "foreign e"
  using assms(1)
  by (induction rows) (auto split: sum.splits dest: foreign_case [OF assms(2)])

lemma overrides_foreign: "fails_foreign (ListThresholdOverrides (sql_driver out))"
proof -
  have "foreign_result (scanOverride row)" for row
    using parse_time_foreign [of "or_updated_at row"] by (auto simp: scanOverride_def split: sum.splits)
  then have s: "foreign e" if "scan_rows scanOverride rows = Inl e" for rows e
    using scan_rows_foreign [OF that] by blast
  show ?thesis
    unfolding ListThresholdOverrides_def Let_def
    by (intro foreign_intros fails_foreign_onErr)
      (auto simp: sql_driver_def ask_def library_results dest: s)
qed

subsection \<open>The modules\<close>

lemma validate_foreign:
  "SharePrice_ValidateConfig m = Some e \<Longrightarrow> foreign e"
  "WithdrawLiquidity_ValidateConfig l = Some e \<Longrightarrow> foreign e"
  "VaultState_ValidateConfig v = Some e \<Longrightarrow> foreign e"
  by (auto simp: SharePrice_ValidateConfig_def WithdrawLiquidity_ValidateConfig_def
      VaultState_ValidateConfig_def withdraw_liquidity_error_def split: if_splits option.splits)

text \<open>A module whose reader and simulator fail with foreign errors.\<close>

fun foreign_module :: "world MonitorModule \<Rightarrow> bool" where
  "foreign_module (SharePriceValue m) \<longleftrightarrow> fails_foreign (the (sp_Reader m))"
| "foreign_module (LiquidityValue m) \<longleftrightarrow> (\<forall>v. fails_foreign (the (wl_IdleAssetReader m) v)) \<and>
     fails_foreign (es_Position (the (wl_ExitSimulator m)))"
| "foreign_module (VaultStateValue m) \<longleftrightarrow> fails_foreign (the (vm_Reader m))"
| "foreign_module m = False"

lemma share_price_foreign:
  "fails_foreign (the (sp_Reader m)) \<Longrightarrow> fails_foreign (SharePrice_Monitor sys m)"
  unfolding SharePrice_Monitor_def
  by (auto split: option.splits prod.splits intro!: foreign_intros dest: validate_foreign)

lemma liquidity_foreign:
  assumes "\<And>v. fails_foreign (the (wl_IdleAssetReader m) v)"
    and "fails_foreign (es_Position (the (wl_ExitSimulator m)))"
  shows "fails_foreign (WithdrawLiquidity_Monitor sys m)"
proof -
  have "foreign e" if "validatePosition m q = Some e" for q e
    using that by (auto simp: validatePosition_def withdraw_liquidity_error_def split: if_splits)
  moreover have "foreign e" if "expected_exit q = Inl e" for q e
    using that by (auto simp: expected_exit_def withdraw_liquidity_error_def split: option.splits if_splits)
  ultimately show ?thesis
    unfolding WithdrawLiquidity_Monitor_def Let_def
    by (intro foreign_intros assms)
      (auto dest: validate_foreign simp: withdraw_liquidity_error_def)
qed

lemma vault_state_foreign:
  "fails_foreign (the (vm_Reader m)) \<Longrightarrow> fails_foreign (VaultState_Monitor sys m)"
  unfolding VaultState_Monitor_def Let_def
  by (auto split: option.splits intro!: foreign_intros dest: validate_foreign)

lemma ops_foreign: "foreign_module mv \<Longrightarrow> fails_foreign (mod_Monitor (ops_of sys mv))"
  by (cases mv) (auto simp: ops_of_def share_price_ops_def liquidity_ops_def vault_state_ops_def
      intro: share_price_foreign liquidity_foreign vault_state_foreign)

text \<open>Overrides change thresholds only, and fail with texts.\<close>

lemma threshold_foreign: "validateThresholdValue i k v dec = Some e \<Longrightarrow> foreign e"
  "parseThresholdBPS i k v = Inl e \<Longrightarrow> foreign e" "parseThresholdAssetUnits i k v dec = Inl e \<Longrightarrow> foreign e"
proof -
  show u: "parseThresholdBPS i k v = Inl e \<Longrightarrow> foreign e" for i k v e
    by (auto simp: parseThresholdBPS_def threshold_error_def Let_def split: option.splits if_splits)
  show a: "parseThresholdAssetUnits i k v dec = Inl e \<Longrightarrow> foreign e" for i k v dec e
    by (auto simp: parseThresholdAssetUnits_def threshold_error_def ParseDecimalUnits_def Let_def
        split: sum.splits if_splits prod.splits)
  show "validateThresholdValue i k v dec = Some e \<Longrightarrow> foreign e"
    using u a by (auto simp: validateThresholdValue_def left_of_def threshold_error_def
        split: if_splits sum.splits)
qed

lemma overridesLoop_foreign:
  assumes "\<And>m ov. foreign_result (body m ov)"
  shows "foreign_result (overridesLoop body m os)"
  by (induction os arbitrary: m) (auto split: sum.splits dest: foreign_case [OF assms])

lemma ApplyOverrides_foreign:
  assumes "foreign_module mv"
  shows "foreign_result (ApplyOverrides mv os dec)"
    "ApplyOverrides mv os dec = Inr e \<Longrightarrow> foreign_module e"
proof -
  have "foreign_result (sharePriceOverride m ov)" for m :: "world SharePriceModule" and ov
    by (auto simp: sharePriceOverride_def split: option.splits sum.splits dest: threshold_foreign)
  moreover have "foreign_result (liquidityOverride dec m ov)" for m :: "world WithdrawLiquidityModule" and ov
    by (auto simp: liquidityOverride_def split: option.splits sum.splits dest: threshold_foreign)
  moreover have "foreign_result (vaultStateOverride m ov)" for m :: "world VaultStateModule" and ov
    by (auto simp: vaultStateOverride_def split: option.splits dest: threshold_foreign)
  ultimately show "foreign_result (ApplyOverrides mv os dec)"
    using assms by (cases mv) (simp_all add: applySharePriceOverrides_def
        applyWithdrawLiquidityOverrides_def applyVaultStateOverrides_def overridesLoop_foreign)
  show "ApplyOverrides mv os dec = Inr e \<Longrightarrow> foreign_module e"
    using assms by (cases mv) (auto simp: map_sum_Inr_iff applySharePriceOverrides_keeps
        applyWithdrawLiquidityOverrides_keeps applyVaultStateOverrides_keeps)
qed

lemma override_Monitor_foreign:
  assumes "foreign_module mv"
  shows "fails_foreign (override_Monitor (system_clock out) (sql_driver out) dec mv)"
proof (rule fails_foreignI)
  fix w e w'
  assume "override_Monitor (system_clock out) (sql_driver out) dec mv w = (Inl e, w')"
  then show "foreign e"
    unfolding override_Monitor_def effective_def
    by (auto elim!: io_elims dest: fails_foreignD [OF overrides_foreign]
        fails_foreignD [OF ops_foreign [OF ApplyOverrides_foreign(2) [OF assms]]]
        foreign_case [OF ApplyOverrides_foreign(1) [OF assms]] sym)
qed

text \<open>The same for a call that may panic.\<close>

definition lives_foreign :: "('w, (gerror + 'a) option) io \<Rightarrow> bool" where
  "lives_foreign m \<longleftrightarrow> (\<forall>w e. fst (m w) = Some (Inl e) \<longrightarrow> foreign e)"

lemma lives_foreignD: "lives_foreign m \<Longrightarrow> m w = (Some (Inl e), w') \<Longrightarrow> foreign e"
  by (auto simp: lives_foreign_def dest!: spec [of _ w])

lemma lives_foreignI: "(\<And>w e w'. m w = (Some (Inl e), w') \<Longrightarrow> foreign e) \<Longrightarrow> lives_foreign m"
  unfolding lives_foreign_def by (metis prod.collapse)

lemma lives_foreign_rules:
  "lives_foreign (ret None)"
  "fails_foreign m \<Longrightarrow> (\<And>x. lives_foreign (k x)) \<Longrightarrow> lives_foreign (orPanic m k)"
  "(b \<Longrightarrow> lives_foreign t) \<Longrightarrow> (\<not> b \<Longrightarrow> lives_foreign f) \<Longrightarrow> lives_foreign (if b then t else f)"
proof -
  show "fails_foreign m \<Longrightarrow> (\<And>x. lives_foreign (k x)) \<Longrightarrow> lives_foreign (orPanic m k)"
    by (rule lives_foreignI) (auto simp: orPanic_def elim!: tryE_elim ret_elim
        dest: fails_foreignD lives_foreignD)
qed (simp_all add: lives_foreign_def ret_def)

lemma map_sum_Inl: "Inl e = map_sum id f r \<longleftrightarrow> r = Inl e"
  by (cases r) auto

lemma fails_foreign_lives: "fails_foreign m \<Longrightarrow> lives_foreign (bindIO m (\<lambda>r. ret (Some r)))"
  by (rule lives_foreignI) (auto elim!: io_elims dest: fails_foreignD)

text \<open>The modules of the factory over a pool of endpoints.\<close>

lemma readers_foreign:
  assumes "vr_Ethereum reader = rpc_pool out n"
  shows "fails_foreign (CurrentSharePrice reader)" "fails_foreign (IdleAssets reader vault)"
    "fails_foreign (lived (CurrentVaultState reader))"
proof -
  have c: "fails_foreign (vaultCall reader m args)" for m args
    unfolding vaultCall_def assms
    by (auto split: sum.splits simp: library_results intro!: foreign_intros)
  have p: "foreign_result (parseUint256Output m vs)" for m vs
    by (auto simp: parseUint256Output_def invalid_output_def split: list.splits abi_value.splits)
  have u: "fails_foreign (vaultUint256 reader m args)" for m args
    unfolding vaultUint256_def by (intro foreign_intros c p)
  have a: "fails_foreign (vaultAddress reader m args)" for m args
    unfolding vaultAddress_def invalid_output_def
    by (auto split: list.splits abi_value.splits intro!: foreign_intros c)
  have b: "fails_foreign (vaultBytes reader m args)" for m args
    unfolding vaultBytes_def invalid_output_def
    by (auto split: list.splits abi_value.splits intro!: foreign_intros c)
  have s: "fails_foreign (vaultAddressString reader m)" for m
    unfolding vaultAddressString_def by (intro foreign_intros a) simp
  have v: "fails_foreign (vaultValueString reader m)" for m
    unfolding vaultValueString_def invalid_output_def
    by (auto split: list.splits intro!: foreign_intros c)
  have l: "fails_foreign (adaptersLoop reader i k as)" for i k as
    by (induction k arbitrary: i as) (auto intro!: foreign_intros a)
  show "fails_foreign (CurrentSharePrice reader)"
    unfolding CurrentSharePrice_def invalid_output_def by (auto intro!: foreign_intros u)
  show "fails_foreign (IdleAssets reader vault)"
    unfolding IdleAssets_def assms
    by (auto split: sum.splits simp: library_results intro!: foreign_intros a p)
  have ad: "lives_foreign (vaultAdapters reader)"
    unfolding vaultAdapters_def Let_def
    by (intro lives_foreign_rules u) (auto intro!: fails_foreign_lives l)
  have "lives_foreign (CurrentVaultState reader)"
    unfolding CurrentVaultState_def
    by (intro lives_foreign_rules s b v)
      (auto simp: map_option_case map_sum_Inl split: option.splits elim!: io_elims intro!: lives_foreignI
        dest: lives_foreignD [OF ad])
  then show "fails_foreign (lived (CurrentVaultState reader))"
    unfolding lived_def
    by (intro fails_foreignI)
      (auto elim!: io_elims simp: panicked_def dest: lives_foreignD split: option.splits)
qed

end
