(* ===== verification/App_Daemon.thy ===== *)
theory App_Daemon
  imports Module_Errors
begin

text \<open>
  The daemon of the deployed program: the services of \<open>App_Bot\<close> over the modules that the factory
  builds for one \<open>Outside\<close>, and what holds of it on every schedule of its two loops.
\<close>

subsection \<open>The deployment\<close>

record 'k BotDeployment =
  bd_Parts :: "'k Deployment"
  bd_ERC20ABI :: Abi
  bd_Lib :: AddressLib
  bd_Reread :: "anyval \<Rightarrow> gerror + anyval"
  bd_Entries :: "(string \<times> ModuleConfig) list"
  bd_ShowFloat :: "string \<Rightarrow> string"
  bd_Token :: string

abbreviation bd_out :: "'k BotDeployment \<Rightarrow> Outside" where "bd_out b \<equiv> dp_Outside (bd_Parts b)"
abbreviation bd_cfg :: "'k BotDeployment \<Rightarrow> Config" where "bd_cfg b \<equiv> dp_Config (bd_Parts b)"

definition adapter_simulator :: "'w Adapter \<Rightarrow> 'w ExitSimulator" where
  "adapter_simulator adapter =
     \<lparr>es_Position = ad_Position adapter, es_SimulateFullExit = ad_SimulateFullExit adapter\<rparr>"

definition vault_reader :: "Config \<Rightarrow> 'w MultiClient \<Rightarrow> address \<Rightarrow> Abi \<Rightarrow> Abi \<Rightarrow> AddressLib
    \<Rightarrow> 'w VaultReader" where
  "vault_reader cfg ethClient vault vaultABI erc20ABI lib =
     \<lparr>vr_Ethereum = ethClient, vr_Vault = vault,
      vr_AssetDecimals = ec_AssetDecimals (cfg_Ethereum cfg), vr_VaultABI = vaultABI,
      vr_ERC20ABI = erc20ABI, vr_Lib = lib\<rparr>"

definition bd_build :: "'k BotDeployment \<Rightarrow> gerror + world MonitorModule list" where
  "bd_build b = (let d = bd_Parts b in
     BuildModules (system_clock (dp_Outside d)) (bd_Reread b) (dp_Config d) (bd_Entries b)
       (vault_reader (dp_Config d) (dp_pool d) (dp_Vault d) (dp_VaultABI d) (bd_ERC20ABI b) (bd_Lib b))
       (dp_Vault d) (pk_address (dp_Key d)) (dp_Receiver d) (Some (adapter_simulator (dp_adapter d))))"

definition bd_modules :: "'k BotDeployment \<Rightarrow> world MonitorModule list" where
  "bd_modules b = (case bd_build b of Inl err \<Rightarrow> [] | Inr ms \<Rightarrow> ms)"

definition bd_api :: "'k BotDeployment \<Rightarrow> world Bot" where
  "bd_api b = telegram_bot (bd_out b) (bd_Token b)"

definition bd_monitor :: "'k BotDeployment \<Rightarrow> world Service \<Rightarrow> world wstate MonitorService" where
  "bd_monitor b svc = fst (build_monitor (bd_out b) (dp_platform (bd_Parts b)) (bd_cfg b) (bd_modules b)
     svc (bd_api b))"

definition bd_telegram :: "'k BotDeployment \<Rightarrow> world Service \<Rightarrow> bstate TelegramService" where
  "bd_telegram b svc = build_telegram (bd_out b) (bd_Lib b) (bd_ShowFloat b) (bd_cfg b) svc (bd_api b)"

definition bd_clock :: "'k BotDeployment \<Rightarrow> bstate Clock" where
  "bd_clock b = whole (system_clock (bd_out b))"

definition bd_daemon :: "'k BotDeployment \<Rightarrow> world Service \<Rightarrow> Duration \<Rightarrow> int64 \<Rightarrow> turn list
    \<Rightarrow> (bstate, gerror option option) io" where
  "bd_daemon b svc interval =
     daemonLoop (bd_clock b) (bd_monitor b svc) interval (bd_telegram b svc) (lift_bot (lift_bot (bd_api b)))"

lemma bd_modules_built: "mv \<in> set (bd_modules b) \<Longrightarrow> bd_build b = Inr (bd_modules b)"
  by (auto simp: bd_modules_def split: sum.splits)

lemma simulator_simps [simp]:
  "es_Position (adapter_simulator a) = ad_Position a"
  "es_SimulateFullExit (adapter_simulator a) = ad_SimulateFullExit a"
  by (simp_all add: adapter_simulator_def)

lemma reader_pool: "vr_Ethereum (vault_reader cfg (dp_pool d) v va ea lib) = rpc_pool (dp_Outside d) (dp_Fallbacks d)"
  by (simp add: vault_reader_def dp_pool_def)

lemma bd_modules_quiet:
  assumes "mv \<in> set (bd_modules b)"
  shows "quiet_module mv"
  by (rule BuildModules_quiet [OF bd_modules_built [OF assms, unfolded bd_build_def Let_def]
      reader_pool _ _ assms]) (simp_all add: dp_quiet)

lemma dp_Position_foreign: "fails_foreign (ad_Position (dp_adapter d))"
proof -
  have "fails_foreign (vault_call abi \<lparr>vc_Ethereum = rpc_pool out n, vc_Vault = v\<rparr> m args)" for abi out n v m args
    unfolding vault_call_def by (auto split: sum.splits simp: library_results intro!: foreign_intros)
  moreover have "foreign_result (uint256Output m vs)" for m vs
    by (auto simp: uint256Output_def split: list.splits abi_value.splits)
  moreover have "foreign e" if "validateVaultClient ma = Some e" for ma :: "world MorphoAdapter" and e
    using that by (auto simp: validateVaultClient_def split: if_splits)
  ultimately show ?thesis
    unfolding dp_adapter_def morpho_adapter_def
    by (auto simp: Position_def BalanceOf_def split: option.splits intro!: foreign_intros)
qed

lemma bd_modules_foreign:
  assumes "mv \<in> set (bd_modules b)"
  shows "foreign_module mv"
  using bd_modules_built [OF assms, unfolded bd_build_def Let_def] assms
proof (cases rule: BuildModules_member)
  case (share c m)
  then show ?thesis
    by (auto simp: buildSharePriceModule_def readers_foreign [OF reader_pool] split: sum.splits)
next
  case (liquidity c m)
  then show ?thesis
    by (auto simp: buildWithdrawLiquidityModule_def readers_foreign [OF reader_pool] dp_Position_foreign
        split: sum.splits)
next
  case (state c m)
  then show ?thesis
    by (auto simp: buildVaultStateModule_def readers_foreign [OF reader_pool] split: sum.splits)
qed

subsection \<open>The monitor meets its contract\<close>

lemma bd_monitor_simps [simp]:
  "ms_Storage (bd_monitor b svc) = lift_driver (sql_driver (bd_out b))"
  "ms_Clock (bd_monitor b svc) = envIO (system_clock (bd_out b))"
  "ms_ResultHandler (bd_monitor b svc) =
     Some (HandleMonitorResults (build_alerts (dp_platform (bd_Parts b)) (bd_cfg b) svc (bd_api b)))"
  "ms_Modules (bd_monitor b svc) = map (\<lambda>mv. Some (lift_module (thresholdOverrideModule
     (system_clock (bd_out b)) (sql_driver (bd_out b)) (ec_AssetDecimals (cfg_Ethereum (bd_cfg b))) mv)))
     (bd_modules b)"
  by (simp_all add: bd_monitor_def build_monitor_def NewService_def clock_now_def withThresholdOverrides_def)

lemma bd_monitor_module:
  assumes "Some m \<in> set (ms_Modules (bd_monitor b svc))"
  obtains mv where "mv \<in> set (bd_modules b)"
    "mod_ValidateConfig m = envIO (override_ValidateConfig (system_clock (bd_out b))
       (sql_driver (bd_out b)) (ec_AssetDecimals (cfg_Ethereum (bd_cfg b))) mv)"
    "mod_Monitor m = envIO (override_Monitor (system_clock (bd_out b))
       (sql_driver (bd_out b)) (ec_AssetDecimals (cfg_Ethereum (bd_cfg b))) mv)"
  using assms by (auto simp: lift_module_def thresholdOverrideModule_def)

lemma driver_lift:
  assumes "driver dr"
  shows "driver (lift_driver dr)"
  using driver.get_put [OF assms] driver.fault_get [OF assms]
  by unfold_locales (auto simp: lift_driver_def elim!: envIO_elim)

lemma lift_driver_get [simp]: "dr_Get (lift_driver dr) s = dr_Get dr (snd s)"
  by (simp add: lift_driver_def)

lemma quiet_db:
  assumes "quiet m" "envIO m s = (r, s')"
  shows "wd_db (snd s') = wd_db (snd s)"
  using assms by (auto elim!: envIO_elim dest: quietD)

interpretation monitor: monitor_env "lift_driver (sql_driver (bd_out b))" "bd_monitor b svc"
  for b :: "'k BotDeployment" and svc
proof (intro monitor_env.intro driver_lift [OF sql.driver_axioms] monitor_env_axioms.intro, goal_cases)
  case (2 w t w')
  then show ?case by (auto dest: quiet_db [OF quiet_system_clock])
next
  case (3 m w r w')
  from bd_monitor_module [OF 3(1)] 3(2) show ?case
    by (metis quiet_db quiet_override_module(1) bd_modules_quiet lift_driver_get get_world)
next
  case (4 m w r w')
  from bd_monitor_module [OF 4(1)] 4(2) show ?case
    by (metis quiet_db quiet_override_module(2) bd_modules_quiet lift_driver_get get_world)
next
  case (5 m w e w')
  obtain mv where mv: "mv \<in> set (bd_modules b)" "mod_Monitor m = envIO (override_Monitor
      (system_clock (bd_out b)) (sql_driver (bd_out b)) (ec_AssetDecimals (cfg_Ethereum (bd_cfg b))) mv)"
    by (rule bd_monitor_module [OF 5(1)])
  from 5(2) [unfolded mv(2)] show ?case
    by (rule envIO_elim) (rule fails_foreignD [OF override_Monitor_foreign [OF bd_modules_foreign [OF mv(1)]]])
qed simp

subsection \<open>Moves of the assembled services\<close>

definition on_world :: "(world \<Rightarrow> world \<Rightarrow> bool) \<Rightarrow> bstate \<Rightarrow> bstate \<Rightarrow> bool" where
  "on_world R s s' \<longleftrightarrow> bot_latest s' = bot_latest s \<and> bot_pending s' = bot_pending s \<and>
     R (bot_world s) (bot_world s')"

lemma on_world_order: "reflp R \<Longrightarrow> reflp (on_world R)" "transp R \<Longrightarrow> transp (on_world R)"
  unfolding reflp_def transp_def on_world_def by auto

lemma moves_whole: "moves R m \<Longrightarrow> moves (on_world R) (whole m)"
  unfolding whole_def by (intro moves_envIO) (simp add: on_world_def)

text \<open>The calls of the world behind the services.\<close>

definition world_moves :: "(world \<Rightarrow> world \<Rightarrow> bool) \<Rightarrow> 'k BotDeployment \<Rightarrow> bool" where
  "world_moves R b \<longleftrightarrow> reflp R \<and> transp R \<and> moves R (system_clock (bd_out b)) \<and>
     (\<forall>c t. moves R (bot_Send (bd_api b) c t)) \<and>
     (\<forall>ty m flds t. moves R (Repositories_Record (sql_driver (bd_out b)) ty m flds t)) \<and>
     (\<forall>i. moves R (Recent (runtime_logs (bd_out b)) i)) \<and>
     moves R (List_Thresholds (bd_ShowFloat b) (runtime_thresholds (bd_out b) (bd_Lib b) (bd_cfg b))) \<and>
     (\<forall>u m k v. moves R (BuildSetConfirmation (system_clock (bd_out b))
        (runtime_thresholds (bd_out b) (bd_Lib b) (bd_cfg b)) u m k v)) \<and>
     (\<forall>u i. moves R (Confirm (system_clock (bd_out b))
        (runtime_thresholds (bd_out b) (bd_Lib b) (bd_cfg b)) u i))"

lemma world_moves_weaken:
  assumes "world_moves R b" "\<And>w w'. R w w' \<Longrightarrow> Q w w'" "reflp Q" "transp Q"
  shows "world_moves Q b"
proof -
  note weak = moves_weaken [where R = R and Q = Q, OF _ assms(2)]
  show ?thesis
    using assms(1,3,4) by (simp add: world_moves_def weak)
qed

lemma bd_telegram_moves:
  assumes "world_moves R b" "moves R (DryRunFullExit svc)"
  shows "telegram_moves (on_world R) (bd_clock b) (bd_telegram b svc)"
proof -
  note w = assms(1) [unfolded world_moves_def]
  then have o: "reflp (on_world R)" "transp (on_world R)" by (simp_all add: on_world_order)
  have "moves (on_world R) reportProvider_Stats"
    unfolding reportProvider_Stats_def
    by (intro moves_combinators [OF o]) (use o(1) in \<open>auto simp: moves_def Snapshot_def reflp_def\<close>)
  moreover have "moves (on_world R) (bot_Send (lift_bot (lift_bot (bd_api b))) c t)" for c t
    using w moves_whole [of R "bot_Send (bd_api b) c t"] by (simp add: lift_bot_def whole_def)
  ultimately show ?thesis
    using o w assms(2)
    by (simp add: telegram_moves_def bd_telegram_def build_telegram_def lift_thresholds_def
        telegram_now_def clock_now_def bd_clock_def moves_whole)
qed

lemma bd_getUpdates:
  "moves R (bot_GetUpdates (bd_api b) offset) \<Longrightarrow>
     moves (on_world R) (bot_GetUpdates (lift_bot (lift_bot (bd_api b))) offset)"
  using moves_whole [of R "bot_GetUpdates (bd_api b) offset"] by (simp add: lift_bot_def whole_def)

lemma dp_service_parts:
  assumes "dp_service d = Inr svc"
  shows "svc_Adapter svc = Some (dp_adapter d)" "svc_Signer svc = Some (dp_signer d)"
    "svc_Submitter svc = Some (dp_submitter d)" "svc_Repository svc = Some (dp_repository d)"
    "svc_Clock svc = Some (system_clock (dp_Outside d))"
  using assms by (auto simp: dp_service_def buildWithdrawService_def split: sum.splits)

lemma dp_exit_moves:
  assumes "dp_service d = Inr svc" "reflp R" "transp R" "\<And>w w'. quiet_step w w' \<Longrightarrow> R w w'"
    and "\<And>tx. moves R (sb_SendTransaction (dp_submitter d) tx)" "\<And>a. moves R (dp_repository d a)"
  shows "exit_moves R (dp_platform d) svc"
proof -
  note weak = moves_weaken [where R = quiet_step and Q = R, OF _ assms(4)]
  show ?thesis
    using assms(2,3,5,6)
    by (simp add: weak dp_quiet quiet_system_clock exit_moves_def dp_service_parts [OF assms(1)] dp_service_wired(2) [OF assms(1)])
qed

lemma quiet_DryRun:
  assumes "dp_service d = Inr svc"
  shows "quiet (DryRunFullExit svc)"
  unfolding DryRunFullExit_def dp_service_parts [OF assms]
  by (auto intro!: moves_combinators [OF quiet_order] dp_quiet split: prod.splits option.splits)

lemma calm_world: "world_moves calm_step b"
  by (simp add: world_moves_def calm_order calm_reads calm_send bd_api_def calm_repositories calm_providers)

lemma lift_InsertMonitorResult:
  "InsertMonitorResult (lift_driver dr) r t = envIO (InsertMonitorResult dr r t)"
  by (rule ext)
    (auto simp: InsertMonitorResult_def exec_stmt_def lift_driver_def io_simps envIO_def
      split: prod.splits option.splits sum.splits)

text \<open>What keeps every call of the world within \<open>R\<close> keeps the daemon within it, on every schedule.\<close>

lemma monitor_moves:
  assumes "dp_service (bd_Parts b) = Inr svc" "reflp R" "transp R"
    and quiet: "\<And>w w'. quiet_step w w' \<Longrightarrow> R w w'"
    and send: "\<And>tx. moves R (sb_SendTransaction (dp_submitter (bd_Parts b)) tx)"
    and attempt: "\<And>a. moves R (dp_repository (bd_Parts b) a)"
    and result: "\<And>r t. moves R (InsertMonitorResult (sql_driver (bd_out b)) r t)"
    and message: "\<And>c t. moves R (bot_Send (bd_api b) c t)"
  shows "moves (in_env (in_env R)) (RunOnce (bd_monitor b svc))"
proof (rule RunOnce_moves)
  let ?R = "in_env R :: world wstate \<Rightarrow> world wstate \<Rightarrow> bool"
  let ?a = "build_alerts (dp_platform (bd_Parts b)) (bd_cfg b) svc (bd_api b)"
  note o = in_env_order(1) [OF assms(2)] in_env_order(2) [OF assms(3)]
  note weak = moves_weaken [where R = quiet_step and Q = R, OF _ quiet]
  have x: "moves ?R (ExecuteFullExit (dp_platform (bd_Parts b)) svc t)" for t
    by (intro ExecuteFullExit_moves dp_exit_moves [OF assms(1-4)] send attempt)
  have "moves ?R (bot_Send (lift_bot (bd_api b)) c t)" for c t
    by (simp add: lift_bot_def moves_in_env message)
  then have "moves ?R (al_Notifier ?a m)" for m
    by (auto simp: build_alerts_def telegramAlertNotifier_def SendAlert_def sendText_def alert_sender_def
        Let_def intro!: moves_combinators [OF o])
  moreover have "moves ?R (al_Withdrawer ?a r f)" for r f
    unfolding build_alerts_def AlertService.simps urgentWithdrawer_def
    by (auto intro!: moves_combinators [OF o] x split: prod.splits)
  ultimately have h: "moves ?R (HandleMonitorResults ?a results)" for results
    by (rule HandleMonitorResults_moves [OF o])
  show "service_moves ?R (bd_monitor b svc)"
    unfolding service_moves_def modules_move_def
  proof (intro conjI allI impI)
    fix m assume m: "Some m \<in> set (ms_Modules (bd_monitor b svc))"
    show "moves ?R (mod_ValidateConfig m)" "moves ?R (mod_Monitor m)"
      by (rule bd_monitor_module [OF m];
          simp add: moves_in_env weak quiet_override_module bd_modules_quiet)+
  qed (auto simp: o moves_in_env weak quiet_system_clock lift_InsertMonitorResult result h)
qed

lemma daemon_moves:
  assumes "dp_service (bd_Parts b) = Inr svc" "world_moves R b"
    and quiet: "\<And>w w'. quiet_step w w' \<Longrightarrow> R w w'"
    and "\<And>tx. moves R (sb_SendTransaction (dp_submitter (bd_Parts b)) tx)"
    and "\<And>a. moves R (dp_repository (bd_Parts b) a)"
    and "\<And>r t. moves R (InsertMonitorResult (sql_driver (bd_out b)) r t)"
    and updates: "\<And>off. moves R (bot_GetUpdates (bd_api b) off)"
  shows "moves (in_env (in_env R)) (bd_daemon b svc interval offset turns)"
  unfolding bd_daemon_def
proof (rule daemonLoop_moves)
  have o: "reflp R" "transp R" and message: "moves R (bot_Send (bd_api b) c t)" for c t
    using assms(2) by (simp_all add: world_moves_def)
  show "reflp (in_env (in_env R))" "transp (in_env (in_env R))"
    by (intro in_env_order o)+
  show "moves (in_env (in_env R)) (RunOnce (bd_monitor b svc))"
    by (rule monitor_moves [OF assms(1) o quiet assms(4-6) message])
  have "moves R (DryRunFullExit svc)"
    by (rule moves_weaken [OF quiet_DryRun [OF assms(1)] quiet])
  then show "moves (in_env (in_env R)) (pollRound (bd_clock b) (bd_telegram b svc)
      (lift_bot (lift_bot (bd_api b))) offset)" for offset
    by (intro moves_weaken [where R = "on_world R" and Q = "in_env (in_env R)"] pollRound_moves
        bd_telegram_moves bd_getUpdates assms(2) updates) (simp_all add: on_world_def)
qed

text \<open>The daemon opens and closes nothing.\<close>

lemma daemon_holds:
  assumes "dp_service (bd_Parts b) = Inr svc"
  shows "moves (in_env (in_env holds_step)) (bd_daemon b svc interval offset turns)"
proof (rule daemon_moves [OF assms])
  note weak = moves_weaken [where R = calm_step and Q = holds_step, OF _ calm_holds]
  show "world_moves holds_step b"
    by (rule world_moves_weaken [OF calm_world calm_holds holds_order])
  show "moves holds_step (dp_repository (bd_Parts b) a)" for a
    by (simp add: dp_repository_def weak calm_repositories)
  show "moves holds_step (InsertMonitorResult (sql_driver (bd_out b)) r t)" for r t
    by (simp add: weak calm_repositories)
  show "moves holds_step (bot_GetUpdates (bd_api b) off)" for off
    by (simp add: moves_def bd_api_def telegram_bot_def ask_def holds_step_def handles_def opened_def
        balance_def)
  show "moves holds_step (sb_SendTransaction (dp_submitter (bd_Parts b)) tx)" for tx
    by (rule movesI) (auto simp: holds_step_def handles_def opened_def balance_def dp_submitter_def
        multi_submitter_def SendTransaction_def dp_pool_def rpc_pool_def NewMultiClient_def endpoint_def
        ask_def onErr_eq ret_eq split: option.splits)
qed (simp add: quiet_step_def calm_holds)

subsection \<open>What the daemon can send\<close>

definition unspent :: "world \<Rightarrow> world \<Rightarrow> bool" where
  "unspent w w' \<longleftrightarrow> world_sent w' = world_sent w"

lemma unspent_order: "reflp unspent" "transp unspent"
  by (auto simp: reflp_def transp_def unspent_def)

lemma calm_unspent: "calm_step w w' \<Longrightarrow> unspent w w'"
  by (auto simp: calm_step_def unspent_def world_sent_def harmless_sends)

definition spends :: "'k BotDeployment \<Rightarrow> world Service \<Rightarrow> world wstate \<Rightarrow> world wstate \<Rightarrow> bool" where
  "spends b svc s s' \<longleftrightarrow> (pending_sound (svc_GasPolicy svc) (fst s) \<longrightarrow>
     pending_sound (svc_GasPolicy svc) (fst s') \<and>
     (\<exists>txs. world_sent (snd s') = world_sent (snd s) @ txs \<and>
        list_all (full_exit_tx (bd_Parts b) svc) txs \<and>
        (fst s = None \<and> fst s' \<noteq> None \<longrightarrow> txs \<noteq> [])))"

lemma spends_order: "reflp (spends b svc)" "transp (spends b svc)"
proof -
  show "reflp (spends b svc)" by (auto simp: reflp_def spends_def)
  show "transp (spends b svc)"
    unfolding transp_def
  proof (intro allI impI)
    fix s t u assume st: "spends b svc s t" and tu: "spends b svc t u"
    show "spends b svc s u"
      unfolding spends_def
    proof (intro impI)
      assume "pending_sound (svc_GasPolicy svc) (fst s)"
      with st tu obtain xs ys where "pending_sound (svc_GasPolicy svc) (fst u)"
        "world_sent (snd u) = world_sent (snd s) @ xs @ ys" "list_all (full_exit_tx (bd_Parts b) svc) (xs @ ys)"
        "fst s = None \<and> fst t \<noteq> None \<longrightarrow> xs \<noteq> []" "fst t = None \<and> fst u \<noteq> None \<longrightarrow> ys \<noteq> []"
        unfolding spends_def by fastforce
      then show "pending_sound (svc_GasPolicy svc) (fst u) \<and>
          (\<exists>txs. world_sent (snd u) = world_sent (snd s) @ txs \<and>
             list_all (full_exit_tx (bd_Parts b) svc) txs \<and> (fst s = None \<and> fst u \<noteq> None \<longrightarrow> txs \<noteq> []))"
        by (intro conjI exI [of _ "xs @ ys"]) auto
    qed
  qed
qed

lemma calm_spends: "calm m \<Longrightarrow> moves (spends b svc) (envIO m)"
  by (rule moves_envIO, rule movesI)
    (auto simp: spends_def dest!: movesD dest: calm_unspent [unfolded unspent_def])

lemma quiet_spends: "quiet m \<Longrightarrow> moves (spends b svc) (envIO m)"
  by (rule calm_spends [OF quiet_calm])

lemma execute_spends:
  assumes "dp_service (bd_Parts b) = Inr svc" "signs_only (dp_Crypto (bd_Parts b))"
    and "bump_ok (BumpBPS (svc_GasPolicy svc))"
  shows "moves (spends b svc) (ExecuteFullExit (dp_platform (bd_Parts b)) svc trigger)"
proof (rule movesI)
  fix s r s'
  assume run: "ExecuteFullExit (dp_platform (bd_Parts b)) svc trigger s = (r, s')"
  obtain p w p' w' res err where s: "s = (p, w)" "s' = (p', w')" "r = (res, err)"
    by (metis surj_pair)
  obtain txs where txs: "world_sent w' = world_sent w @ txs"
      "transactions_of (dp_platform (bd_Parts b)) svc p w txs"
    using bot.ExecuteFullExit_sent [OF dp_service_wired(1,2) [OF assms(1)] run [unfolded s]] by blast
  obtain out where "exit_step (svc_GasPolicy svc) (svc_ReplacementTimeout svc) p out p'"
    using ExecuteFullExit_step [OF run [unfolded s]] by blast
  moreover have "p = None \<and> p' \<noteq> None \<longrightarrow> txs \<noteq> []"
    using bot.ExecuteFullExit_pending [OF dp_service_wired(1,2) [OF assms(1)] run [unfolded s]] txs(1) by auto
  ultimately show "spends b svc s s'"
    using txs exit_step_sound(1) [OF _ assms(3)] exit_tx_full [OF assms(1,2)] s
    by (auto simp: spends_def transactions_of_def)
qed

lemma alerts_spend:
  assumes "dp_service (bd_Parts b) = Inr svc" "signs_only (dp_Crypto (bd_Parts b))"
    and "bump_ok (BumpBPS (svc_GasPolicy svc))"
  shows "moves (spends b svc) (HandleMonitorResults
    (build_alerts (dp_platform (bd_Parts b)) (bd_cfg b) svc (bd_api b)) results)"
proof (rule HandleMonitorResults_moves [OF spends_order])
  let ?a = "build_alerts (dp_platform (bd_Parts b)) (bd_cfg b) svc (bd_api b)"
  show "moves (spends b svc) (al_Withdrawer ?a r f)" for r f
    unfolding build_alerts_def AlertService.simps urgentWithdrawer_def
    by (auto intro!: moves_combinators [OF spends_order] execute_spends [OF assms] split: prod.splits)
  have "moves (spends b svc) (bot_Send (lift_bot (bd_api b)) c t)" for c t
    by (simp add: lift_bot_def bd_api_def calm_spends calm_send)
  then show "moves (spends b svc) (al_Notifier ?a m)" for m
    by (auto simp: build_alerts_def telegramAlertNotifier_def SendAlert_def sendText_def alert_sender_def
        Let_def intro!: moves_combinators [OF spends_order])
qed

lemma monitor_spends:
  assumes "dp_service (bd_Parts b) = Inr svc" "signs_only (dp_Crypto (bd_Parts b))"
    and "bump_ok (BumpBPS (svc_GasPolicy svc))"
  shows "moves (in_env (spends b svc)) (RunOnce (bd_monitor b svc))"
proof (rule RunOnce_moves)
  show "service_moves (spends b svc) (bd_monitor b svc)"
    unfolding service_moves_def modules_move_def
  proof (intro conjI allI impI)
    fix m assume m: "Some m \<in> set (ms_Modules (bd_monitor b svc))"
    show "moves (spends b svc) (mod_ValidateConfig m)" "moves (spends b svc) (mod_Monitor m)"
      by (rule bd_monitor_module [OF m];
          simp add: quiet_spends quiet_override_module bd_modules_quiet)+
  qed (auto simp: spends_order quiet_spends quiet_system_clock lift_InsertMonitorResult calm_spends
      calm_repositories alerts_spend [OF assms])
qed

lemma telegram_unspent:
  assumes "dp_service (bd_Parts b) = Inr svc"
  shows "moves (on_world unspent) (pollRound (bd_clock b) (bd_telegram b svc) (lift_bot (lift_bot (bd_api b))) offset)"
proof -
  have "world_moves unspent b"
    by (rule world_moves_weaken [OF calm_world calm_unspent unspent_order])
  moreover have "moves unspent (DryRunFullExit svc)"
    by (rule moves_weaken [OF quiet_calm [OF quiet_DryRun [OF assms]] calm_unspent])
  moreover have "moves unspent (bot_GetUpdates (bd_api b) offset)" for offset
    by (simp add: moves_def bd_api_def telegram_bot_def ask_def unspent_def world_sent_def)
  ultimately show ?thesis
    by (intro pollRound_moves bd_telegram_moves bd_getUpdates)
qed

lemma daemon_spends:
  assumes "dp_service (bd_Parts b) = Inr svc" "signs_only (dp_Crypto (bd_Parts b))"
    and "bump_ok (BumpBPS (svc_GasPolicy svc))"
  shows "moves (in_env (spends b svc)) (bd_daemon b svc interval offset turns)"
  unfolding bd_daemon_def
proof (rule daemonLoop_moves)
  show "moves (in_env (spends b svc)) (pollRound (bd_clock b) (bd_telegram b svc)
      (lift_bot (lift_bot (bd_api b))) offset)" for offset
    by (rule moves_weaken [OF telegram_unspent [OF assms(1)]])
      (auto simp: on_world_def unspent_def spends_def)
qed (simp_all add: in_env_order spends_order monitor_spends [OF assms])

end
