(* ===== verification/App_Start.thy ===== *)
theory App_Start
  imports App_Modes App_Daemon
begin

text \<open>
  The program from its command line on: \<open>buildRuntime\<close> and \<open>buildMonitorServices\<close>
  (\<open>internal/app/runtime.go\<close>), the modes and \<open>Run\<close> (\<open>internal/app/app.go\<close>), and \<open>main\<close>. The
  dependencies of \<open>runtimeDeps\<close> are the program's own, over the libraries of the record below.
  Log lines are left out.
\<close>

text \<open>
  The libraries: YAML, go-ethereum's cryptography, ABI codecs and addresses, the order in which
  Go ranges over the map of the modules, and the text of a float.
\<close>

record 'k Libraries =
  lb_YamlUnmarshal :: "bytes \<Rightarrow> string + Config"
  lb_YamlEncode :: "json \<Rightarrow> string + string"
  lb_Reread :: "anyval \<Rightarrow> gerror + anyval"
  lb_Crypto :: "'k Crypto"
  lb_TxHash :: "Transaction \<Rightarrow> hash"
  lb_VaultABI :: Abi
  lb_ERC20ABI :: Abi
  lb_Address :: AddressLib
  lb_Range :: "ModuleConfig gomap \<Rightarrow> (string \<times> ModuleConfig) list"
  lb_ShowFloat :: "string \<Rightarrow> string"

record ChainIDClient =
  cc_ChainID :: "(world, gerror + bigint) io"
  cc_Close :: "(world, unit) io"

text \<open>
  The runners of a runtime are the services that \<open>buildMonitorServices\<close> puts there, the only
  ones the program has.
\<close>

record Runtime =
  rt_Config :: Config
  rt_Secrets :: Secrets
  rt_Ethereum :: "ChainIDClient option"
  rt_Submitter :: "world MultiClient"
  rt_Signer :: "world Signer option"
  rt_Receiver :: address
  rt_Modules :: "world BootstrapModule list"
  rt_MonitorModules :: "world MonitorModule list"
  rt_Adapter :: "world Adapter option"
  rt_Monitor :: "world wstate MonitorService option"
  rt_Telegram :: "bstate TelegramService option"
  rt_Output :: "(string \<Rightarrow> (world, gerror option) io) option"
  rt_Close :: "(world, unit) io option"

definition start_platform :: "Outside \<Rightarrow> 'k Libraries \<Rightarrow> world Platform" where
  "start_platform out lib = \<lparr>pl_SystemClock = system_clock out, pl_TxHash = lb_TxHash lib\<rparr>"

definition bootstrapModules :: "world Clock \<Rightarrow> world MonitorModule list \<Rightarrow> world BootstrapModule list"
  where
  "bootstrapModules sys modules =
     map (\<lambda>m. \<lparr>bm_ID = mod_ID (ops_of sys m), bm_Bootstrap = mod_Bootstrap (ops_of sys m)\<rparr>) modules"

definition chain_id_client :: "world MultiClient \<Rightarrow> ChainIDClient" where
  "chain_id_client client = \<lparr>cc_ChainID = ChainID client, cc_Close = Close client\<rparr>"

definition newPrivateKeySigner :: "'k Crypto \<Rightarrow> string \<Rightarrow> gerror + 'k PrivateKeyService" where
  "newPrivateKeySigner crypto privateKeyHex = NewPrivateKeyService crypto privateKeyHex"

subsection \<open>Building the runtime\<close>

text \<open>
  What \<open>buildRuntime\<close> makes of a dialled client. The signer's address is a field of it, which
  asks for nothing and has no error.
\<close>

definition assembleRuntime :: "Outside \<Rightarrow> 'k Libraries \<Rightarrow> Config \<Rightarrow> Secrets \<Rightarrow> address \<Rightarrow> address
    \<Rightarrow> world MultiClient \<Rightarrow> gerror + Runtime" where
  "assembleRuntime out lib cfg secrets vault receiver ethClient =
     (case newPrivateKeySigner (lb_Crypto lib) (sec_PrivateKey secrets) of
        Inl err \<Rightarrow> Inl err
      | Inr signerService \<Rightarrow>
          (let signerAddress = pk_address signerService;
               adapter = morpho_adapter (start_platform out lib) (lb_VaultABI lib)
                 (buildMorphoAdapter cfg ethClient vault signerAddress receiver) in
           case BuildModules (system_clock out) (lb_Reread lib) cfg (lb_Range lib (cfg_Modules cfg))
               (vault_reader cfg ethClient vault (lb_VaultABI lib) (lb_ERC20ABI lib) (lb_Address lib))
               vault signerAddress receiver (Some (adapter_simulator adapter)) of
             Inl err \<Rightarrow> Inl err
           | Inr modules \<Rightarrow> Inr
               \<lparr>rt_Config = cfg, rt_Secrets = secrets, rt_Ethereum = Some (chain_id_client ethClient),
                rt_Submitter = ethClient,
                rt_Signer = Some (private_key_signer (lb_Crypto lib) signerService),
                rt_Receiver = receiver, rt_Modules = bootstrapModules (system_clock out) modules,
                rt_MonitorModules = modules, rt_Adapter = Some adapter, rt_Monitor = None,
                rt_Telegram = None, rt_Output = Some (os_call out WriteStdout),
                rt_Close = Some (Close ethClient)\<rparr>))"

text \<open>Every error after the dial closes the client.\<close>

definition buildRuntime :: "Outside \<Rightarrow> 'k Libraries \<Rightarrow> string \<Rightarrow> (world, gerror + Runtime) io" where
  "buildRuntime out lib configPath =
     bindE (loadConfig out (lb_YamlUnmarshal lib) configPath) (\<lambda>cfg.
     case LoadSecretsFromEnv (out_Getenv out) of
       Inl err \<Rightarrow> ret (Inl err)
     | Inr secrets \<Rightarrow>
     (case parseAddress (lb_Address lib) ''ethereum.vault_address'' (ec_VaultAddress (cfg_Ethereum cfg)) of
       Inl err \<Rightarrow> ret (Inl err)
     | Inr vault \<Rightarrow>
     (case parseAddress (lb_Address lib) ''ethereum.receiver_address''
             (ec_ReceiverAddress (cfg_Ethereum cfg)) of
       Inl err \<Rightarrow> ret (Inl err)
     | Inr receiver \<Rightarrow>
     tryE (dialMulti (world_dial out) (sec_PrimaryRPCURL secrets) (sec_FallbackRPCURLs secrets))
       (\<lambda>err. ret (Inl (the (sanitizeRuntimeError secrets (Some err))))) (\<lambda>ethClient.
     case assembleRuntime out lib cfg secrets vault receiver ethClient of
       Inl err \<Rightarrow> bindIO (Close ethClient) (\<lambda>_. ret (Inl err))
     | Inr runtime \<Rightarrow> ret (Inr runtime)))))"

definition databaseFileName :: string where
  "databaseFileName = ''withdraw-bot.sqlite''"

definition buildMonitorServices :: "Outside \<Rightarrow> 'k Libraries \<Rightarrow> Runtime
    \<Rightarrow> (world, gerror + (Runtime \<times> (world, unit) io)) io" where
  "buildMonitorServices out lib runtime =
     (let cfg = rt_Config runtime; dir = ac_DataDir (cfg_App cfg);
          path = filepath_Join dir databaseFileName; token = sec_TelegramToken (rt_Secrets runtime) in
     onErr (os_call out MkdirAll dir) (\<lambda>err. ret (Inl (Wrap ''create data dir: '' err []))) (
     bindE (setupRuntimeLogger out (cfg_Logs cfg)) (\<lambda>logCleanup.
     tryE (storage_Open out path) (\<lambda>err. bindIO logCleanup (\<lambda>_. ret (Inl err))) (\<lambda>_.
     let cleanup = bindIO logCleanup (\<lambda>_. db_Close path) in
     onErr (os_call out NewBotAPI token)
       (\<lambda>err. bindIO cleanup (\<lambda>_. ret (Inl (the (sanitizeRuntimeError (rt_Secrets runtime) (Some err)))))) (
     case buildWithdrawService cfg (system_clock out) (rt_Adapter runtime) (rt_Signer runtime)
            (multi_submitter (rt_Submitter runtime)) (InsertWithdrawalAttempt (sql_driver out)) of
       Inl err \<Rightarrow> bindIO cleanup (\<lambda>_. ret (Inl err))
     | Inr withdrawService \<Rightarrow>
         let api = telegram_bot out token;
             monitorService = fst (build_monitor out (start_platform out lib) cfg
               (rt_MonitorModules runtime) withdrawService api);
             telegramService = build_telegram out (lb_Address lib) (lb_ShowFloat lib) cfg
               withdrawService api in
         ret (Inr (runtime\<lparr>rt_Monitor := Some monitorService, rt_Telegram := Some telegramService\<rparr>,
           cleanup)))))))"

subsection \<open>The modes\<close>

text \<open>
  The two goroutines of a runtime with its services, on a schedule of their turns: they start
  with no results and no pending transaction, and the world is what they leave behind.
\<close>

definition runLoops :: "Outside \<Rightarrow> Duration \<Rightarrow> world wstate MonitorService \<Rightarrow> bstate TelegramService
    \<Rightarrow> turn list \<Rightarrow> (world, gerror option option) io" where
  "runLoops out interval monitor service turns w =
     (case daemonLoop (whole (system_clock out)) monitor interval service (the (tl_Bot service)) 0 turns
             (fmempty, None, w) of
        (r, s) \<Rightarrow> (r, bot_world s))"

definition runServices :: "Outside \<Rightarrow> Runtime \<Rightarrow> turn list \<Rightarrow> (world, gerror option option) io" where
  "runServices out runtime turns =
     (case rt_Telegram runtime of
        None \<Rightarrow> ret (Some (Some (New ''telegram service is required'')))
      | Some service \<Rightarrow>
          (case ParseDuration (ac_MonitorInterval (cfg_App (rt_Config runtime))) of
             Inl err \<Rightarrow> ret (Some (Some err))
           | Inr interval \<Rightarrow> runLoops out interval (the (rt_Monitor runtime)) service turns))"

definition runMonitor :: "Outside \<Rightarrow> 'k Libraries \<Rightarrow> Runtime \<Rightarrow> turn list
    \<Rightarrow> (world, gerror option option) io" where
  "runMonitor out lib runtime turns =
     (case rt_Monitor runtime of
        None \<Rightarrow> tryE (buildMonitorServices out lib runtime) (\<lambda>err. ret (Some (Some err)))
          (\<lambda>(runtime', cleanup). deferred cleanup (runServices out runtime' turns))
      | Some monitor \<Rightarrow> runServices out runtime turns)"

definition runBootstrap :: "Outside \<Rightarrow> 'k Libraries \<Rightarrow> Runtime \<Rightarrow> (world, gerror option) io" where
  "runBootstrap out lib runtime =
     tryE (CollectBootstrapFragments (rt_Modules runtime))
       (\<lambda>err. ret (sanitizeRuntimeError (rt_Secrets runtime) (Some err))) (\<lambda>fragments.
     case normalizeYAMLValue (fragments_json fragments) of
       Inl err \<Rightarrow> ret (Some err)
     | Inr normalized \<Rightarrow>
     (case lb_YamlEncode lib normalized of
       Inl err \<Rightarrow> ret (Some (New err))
     | Inr text \<Rightarrow>
         (case rt_Output runtime of None \<Rightarrow> os_call out WriteStdout text | Some write \<Rightarrow> write text)))"

definition chain_check :: "Runtime \<Rightarrow> (world, gerror option) io" where
  "chain_check runtime =
     (case rt_Ethereum runtime of
        None \<Rightarrow> ret (Some (New ''ethereum client is required''))
      | Some client \<Rightarrow> tryE (cc_ChainID client) (\<lambda>err. ret (Some err)) (\<lambda>chainID.
          let expected = sint (ec_ChainID (cfg_Ethereum (rt_Config runtime))) in
          if chainID \<noteq> Some expected
          then ret (Some (New (''chain ID mismatch: config='' @ dec_int expected @ '' rpc='' @
                 (case chainID of None \<Rightarrow> ''<nil>'' | Some c \<Rightarrow> dec_int c))))
          else ret None))"

definition signer_check :: "Runtime \<Rightarrow> (world, gerror option) io" where
  "signer_check runtime =
     (case rt_Signer runtime of
        None \<Rightarrow> ret (Some (New ''signer is required''))
      | Some signer \<Rightarrow> tryE (sg_Address signer) (\<lambda>err. ret (Some err)) (\<lambda>address. ret None))"

definition receiver_check :: "AddressLib \<Rightarrow> Runtime \<Rightarrow> (world, gerror option) io" where
  "receiver_check lib runtime =
     (if rt_Receiver runtime = 0 then ret (Some (New ''receiver address is required''))
      else if al_HexToAddress lib (ec_ReceiverAddress (cfg_Ethereum (rt_Config runtime)))
          \<noteq> rt_Receiver runtime
      then ret (Some (New ''receiver address mismatch''))
      else ret None)"

definition runConfigCheck :: "'k Libraries \<Rightarrow> Runtime \<Rightarrow> (world, gerror option) io" where
  "runConfigCheck lib runtime =
     RunChecks [chain_check runtime, signer_check runtime, receiver_check (lb_Address lib) runtime]"

subsection \<open>The program\<close>

definition runMode :: "Outside \<Rightarrow> 'k Libraries \<Rightarrow> string \<Rightarrow> Runtime \<Rightarrow> turn list
    \<Rightarrow> (world, gerror option option) io" where
  "runMode out lib mode runtime turns =
     bindIO (if mode = ModeMonitor then runMonitor out lib runtime turns
             else if mode = ModeBootstrap then bindIO (runBootstrap out lib runtime) (\<lambda>r. ret (Some r))
             else bindIO (runConfigCheck lib runtime) (\<lambda>r. ret (Some r)))
       (\<lambda>r. ret (map_option (sanitizeRuntimeError (rt_Secrets runtime)) r))"

definition Run :: "Outside \<Rightarrow> 'k Libraries \<Rightarrow> string \<Rightarrow> string \<Rightarrow> turn list
    \<Rightarrow> (world, gerror option option) io" where
  "Run out lib mode configPath turns =
     (if configPath = [] then ret (Some (Some (New ''config path is required'')))
      else tryE (buildRuntime out lib configPath) (\<lambda>err. ret (Some (Some err))) (\<lambda>runtime.
        deferred (case rt_Close runtime of None \<Rightarrow> ret () | Some close \<Rightarrow> close)
          (if mode \<in> {ModeMonitor, ModeBootstrap, ModeConfigCheck} then runMode out lib mode runtime turns
           else ret (Some (Some (New (''unsupported mode '' @ Quote mode)))))))"

text \<open>\<open>run\<close> of \<open>cmd/withdraw-bot/main.go\<close>: the exit code. What standard error refuses is lost.\<close>

definition complain :: "Outside \<Rightarrow> string \<Rightarrow> int \<Rightarrow> (world, int option) io" where
  "complain out message code = bindIO (os_call out WriteStderr message) (\<lambda>_. ret (Some code))"

definition main_run :: "Outside \<Rightarrow> 'k Libraries \<Rightarrow> string list \<Rightarrow> turn list \<Rightarrow> (world, int option) io" where
  "main_run out lib args turns =
     (case args of
        [] \<Rightarrow> complain out (''usage: withdraw-bot <monitor|bootstrap|config-check> --config <path>'' @
                [CHR 0x0A]) 2
      | arg # rest \<Rightarrow>
          (case ParseMode arg of
             None \<Rightarrow> complain out (''unsupported mode '' @ Quote arg @ [CHR 0x0A]) 2
           | Some mode \<Rightarrow>
               (case flag_Parse defaultConfigPath rest of
                  Inl message \<Rightarrow> complain out (message @ flag_usage mode) 2
                | Inr configPath \<Rightarrow> bindIO (Run out lib mode configPath turns) (\<lambda>r.
                    case r of
                      None \<Rightarrow> ret None
                    | Some None \<Rightarrow> ret (Some 0)
                    | Some (Some err) \<Rightarrow> complain out (error_text err @ [CHR 0x0A]) 1))))"

end
