(* ===== verification/Start_Laws.thy ===== *)
theory Start_Laws
  imports App_Start
begin

text \<open>
  What a start of the program builds: the runtime is the deployment of \<open>App_Daemon\<close> for the
  configuration and the secrets it read, and everything it opened is closed when it returns.
\<close>

subsection \<open>Dialled connections\<close>

definition dial_step :: "world \<Rightarrow> world \<Rightarrow> bool" where
  "dial_step w w' \<longleftrightarrow> (\<forall>up down. balance up down w' = balance up down w) \<and> wd_db w' = wd_db w \<and>
     world_sent w' = world_sent w"

lemma dial_order: "reflp dial_step" "transp dial_step"
  by (auto simp: reflp_def transp_def dial_step_def)

lemma dial_moves:
  "moves dial_step (world_dial out url)" "moves dial_step (rpc_Close (endpoint out i))"
  by (rule movesI; auto simp: world_dial_def endpoint_def ask_def dial_step_def balance_def world_sent_def
      split: option.splits)+

definition endpoints_of :: "Outside \<Rightarrow> nat list \<Rightarrow> world RPCClient option list" where
  "endpoints_of out ks = map (\<lambda>i. Some (endpoint out i)) ks"

lemma closeClients_endpoints:
  "closeClients (endpoints_of out ks) w = ((), w\<lparr>wd_log := wd_log w @ map RqClose ks\<rparr>)"
  by (induction ks arbitrary: w) (simp_all add: endpoints_of_def endpoint_def ask_def)

lemma dialFallbacks_endpoints:
  assumes "dialFallbacks (world_dial out) (endpoint out k) (endpoints_of out ks) urls w = (r, w')"
  shows "dial_step w w' \<and> (\<forall>m. r = Inr m \<longrightarrow>
    (\<exists>js. m = NewMultiClient (Some (endpoint out k)) (endpoints_of out js) \<and>
      length js = length ks + length urls))"
  using assms
proof (induction urls arbitrary: ks w)
  case (Cons url urls)
  obtain d w1 where d: "world_dial out url w = (d, w1)" by (metis surj_pair)
  then have s: "dial_step w w1" by (rule movesD [OF dial_moves(1)])
  show ?case
  proof (cases d)
    case (Inl err)
    with Cons.prems d show ?thesis
      using s by (auto simp: closeClients_endpoints endpoint_def ask_def dial_step_def balance_def
          world_sent_def sends_of_def comp_def)
  next
    case (Inr c)
    then have "c = endpoint out (dialled_before (wd_log w))" using d world_dial_Inr by blast
    then have e: "endpoints_of out ks @ [Some c] = endpoints_of out (ks @ [dialled_before (wd_log w)])"
      by (simp add: endpoints_of_def)
    with Cons.prems d Inr Cons.IH [of "ks @ [dialled_before (wd_log w)]" w1] show ?thesis
      using transpD [OF dial_order(2) s] by auto
  qed
qed (auto simp: reflpD [OF dial_order(1)])

lemma dialMulti_endpoints:
  assumes "dialMulti (world_dial out) url urls w = (r, w')"
  shows "dial_step w w'"
    "\<And>m. r = Inr m \<Longrightarrow> \<exists>k js. m = NewMultiClient (Some (endpoint out k)) (endpoints_of out js) \<and>
      length js = length urls"
proof -
  have "dial_step w w' \<and> (\<forall>m. r = Inr m \<longrightarrow> (\<exists>k js. m = NewMultiClient (Some (endpoint out k))
      (endpoints_of out js) \<and> length js = length urls))"
    using assms unfolding dialMulti_def
  proof (elim io_elims)
    fix c w1
    assume c: "world_dial out url w = (Inr c, w1)" and f: "dialFallbacks (world_dial out) c [] urls w1 = (r, w')"
    from world_dial_Inr(1) [OF c] dialFallbacks_endpoints [of out _ "[]" urls w1 r w'] f
      transpD [OF dial_order(2) movesD [OF dial_moves(1) c]]
    show ?thesis by (simp add: endpoints_of_def) blast
  qed (auto dest: movesD [OF dial_moves(1)])
  then show "dial_step w w'"
    "\<And>m. r = Inr m \<Longrightarrow> \<exists>k js. m = NewMultiClient (Some (endpoint out k)) (endpoints_of out js) \<and>
      length js = length urls" by blast+
qed

lemma Close_endpoints:
  assumes "Close (NewMultiClient (Some (endpoint out k)) (endpoints_of out js)) w = (u, w')"
  shows "opened w' = opened w - 1 - int (length js)" "dial_step w w'"
proof -
  have w': "w' = w\<lparr>wd_log := wd_log w @ RqClose k # map RqClose js\<rparr>"
    using assms by (simp add: Close_def NewMultiClient_def io_simps closeClients_endpoints)
      (simp add: endpoint_def ask_def)
  show "opened w' = opened w - 1 - int (length js)"
    unfolding w' by (simp add: opened_def comp_def sum_list_triv)
  show "dial_step w w'"
    unfolding w' by (auto simp: dial_step_def balance_def world_sent_def sends_of_def comp_def)
qed

interpretation endpoints: scoped handles "dialMulti (world_dial out) url urls" Close for out url urls
proof (unfold_locales, goal_cases)
  case (1 w e w')
  then show ?case
    using rpc.dialMulti_opened [OF 1] dialMulti_endpoints(1) [OF 1] by (simp add: handles_def dial_step_def)
next
  case (2 w m w1 w2 u w3)
  obtain k js where m: "m = NewMultiClient (Some (endpoint out k)) (endpoints_of out js)"
      "length js = length urls"
    using dialMulti_endpoints(2) [OF 2(1)] by blast
  from 2(2,3) rpc.dialMulti_opened [OF 2(1)] dialMulti_endpoints(1) [OF 2(1)]
    Close_endpoints [OF 2(3) [unfolded m]] m(2)
  show ?case by (simp add: handles_def dial_step_def)
qed

subsection \<open>The services\<close>

lemma storage_Open_handles:
  "storage_Open out path w = (r, w') \<Longrightarrow>
     handles w' = (case r of Inl err \<Rightarrow> handles w | Inr u \<Rightarrow> shifted SqlOpen (handles w))"
  by (auto simp: storage_Open_def db_Close_def elim!: io_elims dest!: os_call_law(1) os_done_law(1))

lemma setupRuntimeLogger_Inr:
  assumes "setupRuntimeLogger out logConfig w = (Inr cleanup, w')"
  obtains (no_file) "handles w' = handles w" "\<And>v u v'. cleanup v = (u, v') \<Longrightarrow> handles v' = handles v"
  | (log_file) "handles w' = shifted OpenLog (handles w)"
      "\<And>v u v'. cleanup v = (u, v') \<Longrightarrow> handles v' = shifted CloseLog (handles v)"
proof (cases "lc_FilePath logConfig = []")
  case True
  with assms show thesis by (intro no_file) (auto simp: setupRuntimeLogger_eq ret_eq)
next
  case False
  with assms show thesis
    by (intro log_file) (auto simp: setupRuntimeLogger_eq elim!: io_elims dest!: os_call_law(1) os_done_law(1))
qed

lemma shifted_crosswise [simp]:
  "shifted SqlClose (shifted CloseLog (shifted SqlOpen (shifted OpenLog h))) = h"
  by (cases h) simp

text \<open>A cleanup of the services: the log file first, then the database.\<close>

lemma cleanup_handles:
  assumes "setupRuntimeLogger out logConfig w = (Inr logCleanup, w1)" "storage_Open out path w1 = (Inr u, w2)"
    and "handles w3 = handles w2" "bindIO logCleanup (\<lambda>_. db_Close path) w3 = (x, w4)"
  shows "handles w4 = handles w"
  using assms(1)
proof (cases rule: setupRuntimeLogger_Inr)
  case no_file
  with storage_Open_handles [OF assms(2)] assms(3,4) show ?thesis
    by (auto simp: db_Close_def elim!: io_elims dest!: os_done_law(1))
next
  case log_file
  with storage_Open_handles [OF assms(2)] assms(3,4) show ?thesis
    by (auto simp: db_Close_def elim!: io_elims dest!: os_done_law(1))
qed

lemma buildMonitorServices_cases:
  assumes "buildMonitorServices out lib rt w = (r, w')"
  obtains (failed) err where "r = Inl err" "handles w' = handles w"
  | (built) logCleanup w1 w2 w3 svc where
      "setupRuntimeLogger out (cfg_Logs (rt_Config rt)) w1 = (Inr logCleanup, w2)" "handles w1 = handles w"
      "storage_Open out (filepath_Join (ac_DataDir (cfg_App (rt_Config rt))) databaseFileName) w2 = (Inr (), w3)"
      "handles w' = handles w3"
      "buildWithdrawService (rt_Config rt) (system_clock out) (rt_Adapter rt) (rt_Signer rt)
         (multi_submitter (rt_Submitter rt)) (InsertWithdrawalAttempt (sql_driver out)) = Inr svc"
      "r = Inr (rt\<lparr>rt_Monitor := Some (fst (build_monitor out (start_platform out lib) (rt_Config rt)
           (rt_MonitorModules rt) svc (telegram_bot out (sec_TelegramToken (rt_Secrets rt))))),
         rt_Telegram := Some (build_telegram out (lb_Address lib) (lb_ShowFloat lib) (rt_Config rt) svc
           (telegram_bot out (sec_TelegramToken (rt_Secrets rt))))\<rparr>,
         bindIO logCleanup (\<lambda>_. db_Close (filepath_Join (ac_DataDir (cfg_App (rt_Config rt))) databaseFileName)))"
proof -
  let ?path = "filepath_Join (ac_DataDir (cfg_App (rt_Config rt))) databaseFileName"
  let ?token = "sec_TelegramToken (rt_Secrets rt)"
  have giveup: thesis
    if "setupRuntimeLogger out (cfg_Logs (rt_Config rt)) w1 = (Inr lc, w2)" "handles w1 = handles w"
      and "storage_Open out ?path w2 = (Inr u, w3)" "handles w4 = handles w3"
      and "bindIO (bindIO lc (\<lambda>_. db_Close ?path)) (\<lambda>_. ret (Inl err)) w4 = (r, w')" for w1 lc w2 u w3 w4 err
    using that(5)
  proof (rule bindIO_elim)
    fix x w5
    assume "bindIO lc (\<lambda>_. db_Close ?path) w4 = (x, w5)" "ret (Inl err) w5 = (r, w')"
    with cleanup_handles [OF that(1,3,4)] that(2) show thesis by (intro failed) (auto simp: ret_eq)
  qed
  from assms show thesis
    unfolding buildMonitorServices_def Let_def
  proof (elim onErr_elim bindE_elim tryE_elim)
    fix err w1
    assume m: "os_call out MkdirAll (ac_DataDir (cfg_App (rt_Config rt))) w = (Some err, w1)"
      and e: "ret (Inl (Wrap ''create data dir: '' err [])) w1 = (r, w')"
    show thesis
      by (rule failed [of "Wrap ''create data dir: '' err []"]) (use e os_call_law(1) [OF m] in \<open>simp_all add: ret_eq\<close>)
  next
    fix w1 e
    assume m: "os_call out MkdirAll (ac_DataDir (cfg_App (rt_Config rt))) w = (None, w1)"
      and l: "setupRuntimeLogger out (cfg_Logs (rt_Config rt)) w1 = (Inl e, w')" and "r = Inl e"
    then show thesis using failed logger.fails [OF l] os_call_law(1) [OF m] by simp
  next
    fix w1 lc w2 err w3
    assume m: "os_call out MkdirAll (ac_DataDir (cfg_App (rt_Config rt))) w = (None, w1)"
      and l: "setupRuntimeLogger out (cfg_Logs (rt_Config rt)) w1 = (Inr lc, w2)"
      and d: "storage_Open out ?path w2 = (Inl err, w3)" "bindIO lc (\<lambda>_. ret (Inl err)) w3 = (r, w')"
    from d(2) obtain x where "lc w3 = (x, w')" "r = Inl err"
      by (rule bindIO_elim) (simp add: ret_eq)
    with logger.restores [OF l database.fails [OF d(1)]] os_call_law(1) [OF m] show thesis
      using failed by simp
  next
    fix w1 lc w2 u w3 err w4
    assume m: "os_call out MkdirAll (ac_DataDir (cfg_App (rt_Config rt))) w = (None, w1)"
      and l: "setupRuntimeLogger out (cfg_Logs (rt_Config rt)) w1 = (Inr lc, w2)"
      and d: "storage_Open out ?path w2 = (Inr u, w3)"
      and b: "os_call out NewBotAPI ?token w3 = (Some err, w4)"
      and e: "bindIO (bindIO lc (\<lambda>_. db_Close ?path))
        (\<lambda>_. ret (Inl (the (sanitizeRuntimeError (rt_Secrets rt) (Some err))))) w4 = (r, w')"
    show thesis
      by (rule giveup [OF l _ d _ e]) (use os_call_law(1) [OF m] os_call_law(1) [OF b] in simp_all)
  next
    fix w1 lc w2 u w3 w4
    assume m: "os_call out MkdirAll (ac_DataDir (cfg_App (rt_Config rt))) w = (None, w1)"
      and l: "setupRuntimeLogger out (cfg_Logs (rt_Config rt)) w1 = (Inr lc, w2)"
      and d: "storage_Open out ?path w2 = (Inr u, w3)"
      and b: "os_call out NewBotAPI ?token w3 = (None, w4)"
      and e: "(case buildWithdrawService (rt_Config rt) (system_clock out) (rt_Adapter rt) (rt_Signer rt)
            (multi_submitter (rt_Submitter rt)) (InsertWithdrawalAttempt (sql_driver out)) of
          Inl err \<Rightarrow> bindIO (bindIO lc (\<lambda>_. db_Close ?path)) (\<lambda>_. ret (Inl err))
        | Inr svc \<Rightarrow> ret (Inr (rt\<lparr>rt_Monitor := Some (fst (build_monitor out (start_platform out lib)
               (rt_Config rt) (rt_MonitorModules rt) svc (telegram_bot out ?token))),
             rt_Telegram := Some (build_telegram out (lb_Address lib) (lb_ShowFloat lib) (rt_Config rt) svc
               (telegram_bot out ?token))\<rparr>, bindIO lc (\<lambda>_. db_Close ?path)))) w4 = (r, w')"
    have h: "handles w1 = handles w" "handles w4 = handles w3"
      using os_call_law(1) [OF m] os_call_law(1) [OF b] by simp_all
    show thesis
    proof (cases "buildWithdrawService (rt_Config rt) (system_clock out) (rt_Adapter rt) (rt_Signer rt)
        (multi_submitter (rt_Submitter rt)) (InsertWithdrawalAttempt (sql_driver out))")
      case (Inl err)
      then show thesis using e by (intro giveup [OF l h(1) d h(2), of err]) simp
    next
      case (Inr svc)
      show thesis
        by (rule built [OF l h(1) _ _ Inr]) (use d e h Inr in \<open>auto simp: ret_eq\<close>)
    qed
  qed
qed

interpretation services: scoped handles "buildMonitorServices out lib rt" snd for out lib rt
proof (unfold_locales, goal_cases)
  case (1 w e w')
  then show ?case by (cases rule: buildMonitorServices_cases) simp_all
next
  case (2 w x w1 w2 u w3)
  from 2(1) show ?case
  proof (cases rule: buildMonitorServices_cases)
    case (built lc v1 v2 v3 svc)
    with 2(2,3) cleanup_handles [OF built(1,3), of w2 u w3] show ?thesis by simp
  qed simp
qed

subsection \<open>The runtime is a deployment\<close>

definition deployment :: "Outside \<Rightarrow> 'k Libraries \<Rightarrow> Config \<Rightarrow> Secrets \<Rightarrow> 'k PrivateKeyService
    \<Rightarrow> address \<Rightarrow> address \<Rightarrow> 'k BotDeployment" where
  "deployment out lib cfg secrets key vault receiver =
     \<lparr>bd_Parts = \<lparr>dp_Outside = out, dp_Fallbacks = length (sec_FallbackRPCURLs secrets),
        dp_VaultABI = lb_VaultABI lib, dp_Crypto = lb_Crypto lib, dp_Key = key, dp_Config = cfg,
        dp_Vault = vault, dp_Receiver = receiver, dp_TxHash = lb_TxHash lib\<rparr>,
      bd_ERC20ABI = lb_ERC20ABI lib, bd_Lib = lb_Address lib, bd_Reread = lb_Reread lib,
      bd_Entries = lb_Range lib (cfg_Modules cfg), bd_ShowFloat = lb_ShowFloat lib,
      bd_Token = sec_TelegramToken secrets\<rparr>"

definition runtime_of :: "'k BotDeployment \<Rightarrow> Secrets \<Rightarrow> Runtime" where
  "runtime_of b secrets = (let d = bd_Parts b in
     \<lparr>rt_Config = dp_Config d, rt_Secrets = secrets, rt_Ethereum = Some (chain_id_client (dp_pool d)),
      rt_Submitter = dp_pool d, rt_Signer = Some (dp_signer d), rt_Receiver = dp_Receiver d,
      rt_Modules = bootstrapModules (system_clock (dp_Outside d)) (bd_modules b),
      rt_MonitorModules = bd_modules b, rt_Adapter = Some (dp_adapter d), rt_Monitor = None,
      rt_Telegram = None, rt_Output = Some (os_call (dp_Outside d) WriteStdout),
      rt_Close = Some (Close (dp_pool d))\<rparr>)"

text \<open>The deployments that a configuration file and an environment describe.\<close>

definition configured :: "Outside \<Rightarrow> 'k Libraries \<Rightarrow> 'k BotDeployment \<Rightarrow> Secrets \<Rightarrow> bool" where
  "configured out lib b secrets \<longleftrightarrow> (\<exists>cfg key vault receiver data.
     lb_YamlUnmarshal lib data = Inr cfg \<and> Validate cfg = None \<and>
     LoadSecretsFromEnv (out_Getenv out) = Inr secrets \<and>
     parseAddress (lb_Address lib) ''ethereum.vault_address'' (ec_VaultAddress (cfg_Ethereum cfg)) = Inr vault \<and>
     parseAddress (lb_Address lib) ''ethereum.receiver_address'' (ec_ReceiverAddress (cfg_Ethereum cfg))
       = Inr receiver \<and>
     NewPrivateKeyService (lb_Crypto lib) (sec_PrivateKey secrets) = Inr key \<and>
     b = deployment out lib cfg secrets key vault receiver \<and> (\<exists>ms. bd_build b = Inr ms))"

lemma loadConfig_Inr:
  assumes "loadConfig out yaml path w = (Inr cfg, w')"
  obtains data where "yaml data = Inr cfg" "Validate cfg = None"
  using assms by (auto simp: loadConfig_def Load_def library_results split: prod.splits sum.splits option.splits)

lemma loadConfig_handles: "loadConfig out yaml path w = (r, w') \<Longrightarrow> handles w' = handles w"
  by (auto simp: loadConfig_def split: prod.splits dest!: os_call_law(1))

lemma buildRuntime_cases:
  assumes "buildRuntime out lib path w = (r, w')"
  obtains (failed) err where "r = Inl err" "handles w' = handles w"
  | (built) data cfg secrets vault receiver w1 m rt where
      "lb_YamlUnmarshal lib data = Inr cfg" "Validate cfg = None"
      "loadConfig out (lb_YamlUnmarshal lib) path w = (Inr cfg, w1)" "handles w1 = handles w"
      "LoadSecretsFromEnv (out_Getenv out) = Inr secrets"
      "parseAddress (lb_Address lib) ''ethereum.vault_address'' (ec_VaultAddress (cfg_Ethereum cfg)) = Inr vault"
      "parseAddress (lb_Address lib) ''ethereum.receiver_address'' (ec_ReceiverAddress (cfg_Ethereum cfg))
         = Inr receiver"
      "dialMulti (world_dial out) (sec_PrimaryRPCURL secrets) (sec_FallbackRPCURLs secrets) w1 = (Inr m, w')"
      "assembleRuntime out lib cfg secrets vault receiver m = Inr rt" "r = Inr rt"
proof -
  from assms show thesis
    unfolding buildRuntime_def
  proof (rule bindE_elim)
    fix e assume "loadConfig out (lb_YamlUnmarshal lib) path w = (Inl e, w')" "r = Inl e"
    then show thesis using failed loadConfig_handles by blast
  next
    fix cfg :: Config and w1
    let ?vault = "parseAddress (lb_Address lib) ''ethereum.vault_address'' (ec_VaultAddress (cfg_Ethereum cfg))"
    let ?receiver = "parseAddress (lb_Address lib) ''ethereum.receiver_address''
      (ec_ReceiverAddress (cfg_Ethereum cfg))"
    assume load: "loadConfig out (lb_YamlUnmarshal lib) path w = (Inr cfg, w1)"
      and rest: "(case LoadSecretsFromEnv (out_Getenv out) of Inl err \<Rightarrow> ret (Inl err) | Inr secrets \<Rightarrow>
        (case ?vault of Inl err \<Rightarrow> ret (Inl err) | Inr vault \<Rightarrow>
        (case ?receiver of Inl err \<Rightarrow> ret (Inl err) | Inr receiver \<Rightarrow>
        tryE (dialMulti (world_dial out) (sec_PrimaryRPCURL secrets) (sec_FallbackRPCURLs secrets))
          (\<lambda>err. ret (Inl (the (sanitizeRuntimeError secrets (Some err))))) (\<lambda>m.
        case assembleRuntime out lib cfg secrets vault receiver m of
          Inl err \<Rightarrow> bindIO (Close m) (\<lambda>_. ret (Inl err)) | Inr rt \<Rightarrow> ret (Inr rt))))) w1 = (r, w')"
    note h = loadConfig_handles [OF load]
    obtain data where data: "lb_YamlUnmarshal lib data = Inr cfg" "Validate cfg = None"
      using load by (rule loadConfig_Inr)
    have early: thesis if "ret (Inl err) w1 = (r, w')" for err
      using failed that h by (auto simp: ret_eq)
    show thesis
    proof (cases "LoadSecretsFromEnv (out_Getenv out)")
      case (Inr secrets)
      note sec = this
      show thesis
      proof (cases ?vault)
        case (Inr vault)
        note va = this
        show thesis
        proof (cases ?receiver)
          case (Inr receiver)
          from rest [unfolded sec va Inr sum.case] show thesis
          proof (rule tryE_elim)
            fix e w2
            assume "dialMulti (world_dial out) (sec_PrimaryRPCURL secrets) (sec_FallbackRPCURLs secrets) w1
                = (Inl e, w2)" "ret (Inl (the (sanitizeRuntimeError secrets (Some e)))) w2 = (r, w')"
            then show thesis using failed h endpoints.fails by (auto simp: ret_eq)
          next
            fix m w2
            assume d: "dialMulti (world_dial out) (sec_PrimaryRPCURL secrets) (sec_FallbackRPCURLs secrets) w1
                = (Inr m, w2)"
              and a: "(case assembleRuntime out lib cfg secrets vault receiver m of
                Inl err \<Rightarrow> bindIO (Close m) (\<lambda>_. ret (Inl err)) | Inr rt \<Rightarrow> ret (Inr rt)) w2 = (r, w')"
            show thesis
            proof (cases "assembleRuntime out lib cfg secrets vault receiver m")
              case (Inl err)
              with a have b: "bindIO (Close m) (\<lambda>_. ret (Inl err)) w2 = (r, w')" by simp
              then have "r = Inl err" by (auto elim!: bindIO_elim simp: ret_eq)
              with endpoints.abandon [OF d refl b] h failed show thesis by simp
            next
              case (Inr rt)
              with a have "r = Inr rt" "w2 = w'" by (auto simp: ret_eq)
              with d have "dialMulti (world_dial out) (sec_PrimaryRPCURL secrets)
                (sec_FallbackRPCURLs secrets) w1 = (Inr m, w')" by simp
              from built [OF data load h sec va \<open>?receiver = Inr receiver\<close> this Inr \<open>r = Inr rt\<close>] show thesis .
            qed
          qed
        qed (use rest sec va early in simp)
      qed (use rest sec early in simp)
    qed (use rest early in simp)
  qed
qed

interpretation runtime: scoped handles "buildRuntime out lib path"
    "\<lambda>rt. case rt_Close rt of None \<Rightarrow> ret () | Some close \<Rightarrow> close" for out lib path
proof (unfold_locales, goal_cases)
  case (1 w e w')
  then show ?case by (cases rule: buildRuntime_cases) simp_all
next
  case (2 w x w1 w2 u w3)
  from 2(1) show ?case
  proof (cases rule: buildRuntime_cases)
    case (built data cfg secrets vault receiver v1 m rt)
    then have "rt_Close x = Some (Close m)"
      by (auto simp: assembleRuntime_def Let_def split: sum.splits)
    with built(4) endpoints.restores [OF built(8) 2(2), of u w3] 2(3) show ?thesis by simp
  qed simp
qed

lemma deployment_simps [simp]:
  "dp_Outside (bd_Parts (deployment out lib cfg secrets key vault receiver)) = out"
  "dp_Config (bd_Parts (deployment out lib cfg secrets key vault receiver)) = cfg"
  "dp_Vault (bd_Parts (deployment out lib cfg secrets key vault receiver)) = vault"
  "dp_Receiver (bd_Parts (deployment out lib cfg secrets key vault receiver)) = receiver"
  "dp_Key (bd_Parts (deployment out lib cfg secrets key vault receiver)) = key"
  "dp_Crypto (bd_Parts (deployment out lib cfg secrets key vault receiver)) = lb_Crypto lib"
  "dp_VaultABI (bd_Parts (deployment out lib cfg secrets key vault receiver)) = lb_VaultABI lib"
  "dp_pool (bd_Parts (deployment out lib cfg secrets key vault receiver)) =
     rpc_pool out (length (sec_FallbackRPCURLs secrets))"
  "dp_platform (bd_Parts (deployment out lib cfg secrets key vault receiver)) = start_platform out lib"
  "bd_ERC20ABI (deployment out lib cfg secrets key vault receiver) = lb_ERC20ABI lib"
  "bd_Lib (deployment out lib cfg secrets key vault receiver) = lb_Address lib"
  "bd_Reread (deployment out lib cfg secrets key vault receiver) = lb_Reread lib"
  "bd_Entries (deployment out lib cfg secrets key vault receiver) = lb_Range lib (cfg_Modules cfg)"
  "bd_ShowFloat (deployment out lib cfg secrets key vault receiver) = lb_ShowFloat lib"
  "bd_Token (deployment out lib cfg secrets key vault receiver) = sec_TelegramToken secrets"
  by (simp_all add: deployment_def dp_pool_def dp_platform_def start_platform_def)

lemma deployment_adapter:
  "dp_adapter (bd_Parts (deployment out lib cfg secrets key vault receiver)) =
     morpho_adapter (start_platform out lib) (lb_VaultABI lib)
       (buildMorphoAdapter cfg (rpc_pool out (length (sec_FallbackRPCURLs secrets))) vault
          (pk_address key) receiver)"
  by (simp add: dp_adapter_def dp_morpho_def)

lemma assembleRuntime_eq:
  assumes "NewPrivateKeyService (lb_Crypto lib) (sec_PrivateKey secrets) = Inr key"
  shows "assembleRuntime out lib cfg secrets vault receiver (rpc_pool out (length (sec_FallbackRPCURLs secrets))) =
    map_sum id (\<lambda>ms. runtime_of (deployment out lib cfg secrets key vault receiver) secrets)
      (bd_build (deployment out lib cfg secrets key vault receiver))"
  using assms
  by (cases "bd_build (deployment out lib cfg secrets key vault receiver)")
    (simp_all add: assembleRuntime_def newPrivateKeySigner_def bd_build_def Let_def deployment_adapter
      runtime_of_def dp_signer_def bd_modules_def)

text \<open>In a fresh process.\<close>

lemma buildRuntime_Inr:
  assumes "buildRuntime out lib path w = (Inr rt, w')" "dialled_before (wd_log w) = 0"
  obtains b secrets where "rt = runtime_of b secrets" "configured out lib b secrets"
  using assms(1)
proof (cases rule: buildRuntime_cases)
  case (built data cfg secrets vault receiver w1 m rt')
  have "dialled_before (wd_log w1) = 0"
    using movesD [OF opening_moves(4) built(3)] assms(2) by (simp add: calmly_def)
  then have "m = rpc_pool out (length (sec_FallbackRPCURLs secrets))"
    using dialMulti_pool [OF built(8)] by simp
  moreover obtain key where "NewPrivateKeyService (lb_Crypto lib) (sec_PrivateKey secrets) = Inr key"
    using built(9) by (auto simp: assembleRuntime_def newPrivateKeySigner_def split: sum.splits)
  moreover from this calculation built(9) obtain ms where
    "bd_build (deployment out lib cfg secrets key vault receiver) = Inr ms"
    "rt' = runtime_of (deployment out lib cfg secrets key vault receiver) secrets"
    by (auto simp: assembleRuntime_eq map_sum_Inr_iff)
  ultimately show thesis using built(1,2,5-7,10)
    by (intro that [of "deployment out lib cfg secrets key vault receiver" secrets])
      (auto simp: configured_def)
qed simp

subsection \<open>The modes of a deployment\<close>

text \<open>Bootstrap and the configuration check open nothing and send nothing.\<close>

definition silent_step :: "world \<Rightarrow> world \<Rightarrow> bool" where
  "silent_step w w' \<longleftrightarrow> holds_step w w' \<and> unspent w w'"

lemma silent_order: "reflp silent_step" "transp silent_step"
  by (auto simp: reflp_def transp_def silent_step_def holds_step_def unspent_def)

lemma quiet_silent: "quiet m \<Longrightarrow> moves silent_step m"
  by (erule moves_weaken [OF quiet_calm]) (simp add: silent_step_def calm_holds calm_unspent)

lemma os_silent:
  assumes "call \<notin> {SqlOpen, SqlClose, OpenLog, CloseLog}"
  shows "moves silent_step (os_call out call arg)"
proof (rule movesI)
  fix w r w'
  assume "os_call out call arg w = (r, w')"
  from os_call_law [OF this] assms show "silent_step w w'"
    by (simp add: silent_step_def holds_step_def unspent_def calmly_def)
qed

lemma quiet_bootstrap:
  assumes "quiet_module mv"
  shows "quiet (mod_Bootstrap (ops_of sys mv))"
  using assms
  by (cases mv) (auto simp: ops_of_def share_price_ops_def liquidity_ops_def vault_state_ops_def
      SharePrice_Bootstrap_def WithdrawLiquidity_Bootstrap_def VaultState_Bootstrap_def bindE_def
      split: option.splits intro!: quiet_intros)

lemma quiet_fragments:
  assumes "\<And>m. m \<in> set ms \<Longrightarrow> quiet (bm_Bootstrap m)"
  shows "quiet (collectFragments ms result)"
  using assms by (induction ms result rule: collectFragments.induct) (auto intro!: quiet_intros)

lemma runBootstrap_silent: "moves silent_step (runBootstrap (bd_out b) lib (runtime_of b secrets))"
proof -
  have "quiet (bm_Bootstrap m)" if "m \<in> set (rt_Modules (runtime_of b secrets))" for m
    using that by (auto simp: runtime_of_def Let_def bootstrapModules_def quiet_bootstrap bd_modules_quiet)
  then have c: "moves silent_step (CollectBootstrapFragments (rt_Modules (runtime_of b secrets)))"
    unfolding CollectBootstrapFragments_def by (intro quiet_silent quiet_fragments)
  have o: "rt_Output (runtime_of b secrets) = Some (os_call (bd_out b) WriteStdout)"
    by (simp add: runtime_of_def Let_def)
  show ?thesis
    unfolding runBootstrap_def o option.case
    by (auto intro!: moves_combinators [OF silent_order] c os_silent)
qed

lemma runConfigCheck_silent: "moves silent_step (runConfigCheck lib (runtime_of b secrets))"
proof -
  have c: "moves silent_step (ChainID (dp_pool (bd_Parts b)))"
    by (simp add: quiet_silent dp_pool_def quiet_reads)
  have a: "moves silent_step (sg_Address (dp_signer (bd_Parts b)))"
    by (rule quiet_silent [OF dp_quiet(4)])
  have "moves silent_step (chain_check (runtime_of b secrets))"
    by (auto simp: chain_check_def runtime_of_def Let_def chain_id_client_def
        intro!: moves_combinators [OF silent_order] c)
  moreover have "moves silent_step (signer_check (runtime_of b secrets))"
    by (auto simp: signer_check_def runtime_of_def Let_def
        intro!: moves_combinators [OF silent_order] a)
  moreover have "moves silent_step (receiver_check l (runtime_of b secrets))" for l
    by (auto simp: receiver_check_def intro!: moves_combinators [OF silent_order])
  ultimately show ?thesis
    by (auto simp: runConfigCheck_def RunChecks_def intro!: moves_combinators [OF silent_order])
qed

text \<open>The monitor mode runs the daemon of the deployment, on the world that opening the files left.\<close>

lemma buildMonitorServices_Inr:
  assumes "buildMonitorServices out lib (runtime_of b secrets) w = (Inr (rt, cleanup), w')"
    and "configured out lib b secrets"
  obtains svc where "dp_service (bd_Parts b) = Inr svc"
    "rt = (runtime_of b secrets)\<lparr>rt_Monitor := Some (bd_monitor b svc), rt_Telegram := Some (bd_telegram b svc)\<rparr>"
  using assms(1)
proof (cases rule: buildMonitorServices_cases)
  case (built lc w1 w2 w3 svc)
  obtain cfg key vault receiver where b: "b = deployment out lib cfg secrets key vault receiver"
    using assms(2) by (auto simp: configured_def)
  have "dp_service (bd_Parts b) = Inr svc"
    using built(5) by (simp add: dp_service_def runtime_of_def Let_def dp_submitter_def dp_repository_def b)
  moreover have "bd_api b = telegram_bot out (sec_TelegramToken secrets)" by (simp add: bd_api_def b)
  then have "rt = (runtime_of b secrets)\<lparr>rt_Monitor := Some (bd_monitor b svc),
      rt_Telegram := Some (bd_telegram b svc)\<rparr>"
    using built(6) by (simp add: bd_monitor_def bd_telegram_def runtime_of_def Let_def b)
  ultimately show thesis by (rule that)
qed simp

lemma runLoops_daemon:
  "runLoops (bd_out b) interval (bd_monitor b svc) (bd_telegram b svc) turns w =
     (case bd_daemon b svc interval 0 turns (fmempty, None, w) of (r, s) \<Rightarrow> (r, bot_world s))"
  by (simp add: runLoops_def bd_daemon_def bd_clock_def bd_telegram_def build_telegram_def)

text \<open>What the daemon keeps on every schedule, the services of a runtime keep.\<close>

lemma runServices_daemon:
  assumes "runServices (bd_out b) ((runtime_of b secrets)\<lparr>rt_Monitor := Some (bd_monitor b svc),
      rt_Telegram := Some (bd_telegram b svc)\<rparr>) turns w = (r, w')"
  obtains "w' = w" | interval s where
    "ParseDuration (ac_MonitorInterval (cfg_App (bd_cfg b))) = Inr interval"
    "bd_daemon b svc interval 0 turns (fmempty, None, w) = (r, s)" "w' = bot_world s"
  using assms
  by (auto simp: runServices_def runLoops_daemon runtime_of_def Let_def ret_eq
      split: sum.splits prod.splits)

subsection \<open>The program closes what it opened\<close>

lemma configured_out: "configured out lib b secrets \<Longrightarrow> bd_out b = out"
  by (auto simp: configured_def)

lemma runMonitor_holds:
  assumes "configured out lib b secrets"
    and "runMonitor out lib (runtime_of b secrets) turns w = (Some r, w')"
  shows "handles w' = handles w"
proof -
  have n: "rt_Monitor (runtime_of b secrets) = None" by (simp add: runtime_of_def Let_def)
  have run: "tryE (buildMonitorServices out lib (runtime_of b secrets)) (\<lambda>e. ret (Some (Some e)))
      (\<lambda>x. deferred (snd x) (runServices out (fst x) turns)) w = (Some r, w')"
    using assms(2) by (simp add: runMonitor_def n case_prod_unfold)
  show ?thesis
  proof (rule services.scope [OF run])
    fix x w1 y w2
    assume x: "buildMonitorServices out lib (runtime_of b secrets) w = (Inr x, w1)"
      and y: "runServices out (fst x) turns w1 = (Some y, w2)"
    obtain rt cleanup where xs: "x = (rt, cleanup)" by (cases x)
    obtain svc where svc: "dp_service (bd_Parts b) = Inr svc"
      "rt = (runtime_of b secrets)\<lparr>rt_Monitor := Some (bd_monitor b svc), rt_Telegram := Some (bd_telegram b svc)\<rparr>"
      using x unfolding xs by (rule buildMonitorServices_Inr [OF _ assms(1)])
    from y [unfolded xs fst_conv svc(2) configured_out [OF assms(1), symmetric]]
    show "handles w2 = handles w1"
      by (rule runServices_daemon) (auto dest!: movesD [OF daemon_holds [OF svc(1)]] simp: holds_step_def)
  qed
qed

lemma runMode_holds:
  assumes "configured out lib b secrets"
    and "runMode out lib mode (runtime_of b secrets) turns w = (Some r, w')"
  shows "handles w' = handles w"
proof -
  note c = configured_out [OF assms(1)]
  have b: "handles v' = handles v" if "runBootstrap out lib (runtime_of b secrets) v = (x, v')" for x v v'
    using movesD [OF runBootstrap_silent that [folded c]] by (simp add: silent_step_def holds_step_def)
  have k: "handles v' = handles v" if "runConfigCheck lib (runtime_of b secrets) v = (x, v')" for x v v'
    using movesD [OF runConfigCheck_silent that] by (simp add: silent_step_def holds_step_def)
  show ?thesis
    using assms(2) unfolding runMode_def
    by (auto elim!: io_elims split: if_splits dest: b k runMonitor_holds [OF assms(1)]
        simp: eq_commute [of "Some r"])
qed

lemma Run_holds:
  assumes "Run out lib mode path turns w = (Some r, w')" "dialled_before (wd_log w) = 0"
  shows "handles w' = handles w"
proof (cases "path = []")
  case False
  let ?close = "\<lambda>rt. case rt_Close rt of None \<Rightarrow> ret () | Some close \<Rightarrow> close"
  from False assms(1) have run: "tryE (buildRuntime out lib path) (\<lambda>e. ret (Some (Some e))) (\<lambda>rt.
      deferred (?close rt) (if mode \<in> {ModeMonitor, ModeBootstrap, ModeConfigCheck}
        then runMode out lib mode rt turns
        else ret (Some (Some (New (''unsupported mode '' @ Quote mode)))))) w = (Some r, w')"
    by (simp add: Run_def)
  show ?thesis
  proof (rule runtime.scope [OF run])
    fix rt w1 y w2
    assume rt: "buildRuntime out lib path w = (Inr rt, w1)"
      and y: "(if mode \<in> {ModeMonitor, ModeBootstrap, ModeConfigCheck} then runMode out lib mode rt turns
        else ret (Some (Some (New (''unsupported mode '' @ Quote mode))))) w1 = (Some y, w2)"
    from rt assms(2) show "handles w2 = handles w1"
      by (rule buildRuntime_Inr) (use y in \<open>auto split: if_splits simp: ret_eq dest: runMode_holds\<close>)
  qed
qed (use assms in \<open>simp add: Run_def ret_eq\<close>)

text \<open>The program, from the arguments of its command line.\<close>

lemma complain_law:
  assumes "complain out message code w = (r, w')"
  shows "r = Some code" "handles w' = handles w" "calmly w w'"
  using assms unfolding complain_def
  by (auto elim!: io_elims dest: os_call_law(2)) (auto dest: os_call_law(1))

lemma main_run_cases:
  assumes "main_run out lib args turns w = (r, w')"
  obtains (rejected) "r = Some 2" "handles w' = handles w" "calmly w w'"
  | (waiting) mode path where "Run out lib mode path turns w = (None, w')" "r = None"
  | (ended) mode path e w1 where "Run out lib mode path turns w = (Some e, w1)" "handles w' = handles w1"
      "calmly w1 w'" "r = Some (if e = None then 0 else 1)"
proof (cases args)
  case Nil
  with assms show thesis by (intro rejected) (auto simp: main_run_def dest: complain_law)
next
  case (Cons arg rest)
  show thesis
  proof (cases "\<exists>mode path. ParseMode arg = Some mode \<and> flag_Parse defaultConfigPath rest = Inr path")
    case True
    then obtain mode path where m: "ParseMode arg = Some mode" "flag_Parse defaultConfigPath rest = Inr path"
      by blast
    obtain e w1 where run: "Run out lib mode path turns w = (e, w1)" by (metis surj_pair)
    show thesis
    proof (cases e)
      case None
      with assms Cons m run show thesis
        by (intro waiting [of mode path]) (auto simp: main_run_def bindIO_eq ret_eq)
    next
      case (Some f)
      show thesis
      proof (cases f)
        case None
        with assms Cons m run Some show thesis
          by (intro ended [of mode path f w1])
            (auto simp: main_run_def bindIO_eq ret_eq reflpD [OF calmly_order(1)])
      next
        case (Some err)
        with assms Cons m run \<open>e = Some f\<close>
        have "complain out (error_text err @ [CHR 0x0A]) 1 w1 = (r, w')"
          by (simp add: main_run_def bindIO_eq)
        from complain_law [OF this] run Some \<open>e = Some f\<close> show thesis
          by (intro ended [of mode path f w1]) simp_all
      qed
    qed
  next
    case False
    with assms Cons show thesis
      by (intro rejected)
        (auto simp: main_run_def split: option.splits sum.splits dest: complain_law)
  qed
qed

lemma main_holds:
  assumes "main_run out lib args turns w = (Some code, w')" "dialled_before (wd_log w) = 0"
  shows "handles w' = handles w"
  using assms(1)
proof (cases rule: main_run_cases)
  case (ended mode path e w1)
  with Run_holds [OF ended(1) assms(2)] show ?thesis by simp
qed simp_all

subsection \<open>What the program sends\<close>

lemma Validate_bump:
  assumes "Validate cfg = None" "buildWithdrawService cfg clk a s sub repo = Inr svc"
  shows "bump_ok (BumpBPS (svc_GasPolicy svc))"
  using assms(1)
  by (rule Validate_None)
    (use assms(2) in \<open>auto simp: buildWithdrawService_def bump_ok_def split: sum.splits\<close>)

lemma configured_bump:
  assumes "configured out lib b secrets" "dp_service (bd_Parts b) = Inr svc"
  shows "bump_ok (BumpBPS (svc_GasPolicy svc))"
proof -
  have "Validate (bd_cfg b) = None" using assms(1) by (auto simp: configured_def)
  then show ?thesis using assms(2) unfolding dp_service_def by (rule Validate_bump)
qed

text \<open>Full exits of a service of a deployment that was read from the file and the environment.\<close>

definition configured_exits :: "Outside \<Rightarrow> 'k Libraries \<Rightarrow> Transaction list \<Rightarrow> bool" where
  "configured_exits out lib txs \<longleftrightarrow> txs = [] \<or> (\<exists>b secrets svc. configured out lib b secrets \<and>
     dp_service (bd_Parts b) = Inr svc \<and> list_all (full_exit_tx (bd_Parts b) svc) txs)"

lemma calmly_unspent: "moves calmly m \<Longrightarrow> moves unspent m"
  by (erule moves_weaken) (simp add: calmly_def unspent_def)

lemmas start_unspent = calmly_os [THEN calmly_unspent] opening_moves [THEN calmly_unspent]

text \<open>A continuation need only keep the relation on what its call can return.\<close>

lemma moves_tryE_returned:
  assumes "transp R" "moves R m" "\<And>e. moves R (h e)" "\<And>x w w'. m w = (Inr x, w') \<Longrightarrow> moves R (k x)"
  shows "moves R (tryE m h k)"
proof (rule movesI)
  fix w r w'
  assume "tryE m h k w = (r, w')"
  then show "R w w'"
    by (rule tryE_elim) (metis assms movesD transpD)+
qed

lemma moves_bindE_returned:
  assumes "reflp R" "transp R" "moves R m" "\<And>x w w'. m w = (Inr x, w') \<Longrightarrow> moves R (k x)"
  shows "moves R (bindE m k)"
  unfolding bindE_def using assms by (intro moves_tryE_returned moves_combinators(1)) auto

lemma buildRuntime_unspent: "moves unspent (buildRuntime out lib path)"
proof -
  note comb = moves_combinators [OF unspent_order]
  have c: "moves unspent (Close m)" if dial: "dialMulti (world_dial out) url urls w = (Inr m, w')" for url urls w m w'
  proof -
    obtain k js where "m = NewMultiClient (Some (endpoint out k)) (endpoints_of out js)"
      using dialMulti_endpoints(2) [OF dial] by blast
    then show ?thesis
      by (auto intro!: movesI dest: Close_endpoints(2) simp: dial_step_def unspent_def)
  qed
  have d: "moves unspent (dialMulti (world_dial out) url urls)" for url urls
    by (auto intro!: movesI dest: dialMulti_endpoints(1) simp: dial_step_def unspent_def)
  have "moves unspent (tryE (dialMulti (world_dial out) url urls) (\<lambda>e. ret (h e)) (\<lambda>m.
      case f m of Inl err \<Rightarrow> bindIO (Close m) (\<lambda>_. ret (Inl err)) | Inr rt \<Rightarrow> ret (Inr rt)))"
    for url urls h and f :: "world MultiClient \<Rightarrow> gerror + Runtime"
    by (intro moves_tryE_returned unspent_order(2) d comb(1,2,8) c)
  then show ?thesis
    unfolding buildRuntime_def by (intro comb(1,4,8) start_unspent)
qed

lemma buildMonitorServices_unspent: "moves unspent (buildMonitorServices out lib rt)"
proof -
  note comb = moves_combinators [OF unspent_order]
  have l: "moves unspent lc" if "setupRuntimeLogger out logConfig w = (Inr lc, w')" for logConfig lc w w'
    using that by (auto simp: setupRuntimeLogger_eq ret_eq comb(1) start_unspent split: if_splits
        elim!: io_elims)
  show ?thesis
    unfolding buildMonitorServices_def Let_def
    by (intro comb moves_bindE_returned unspent_order l start_unspent)
qed

lemma runMonitor_exits:
  assumes "configured out lib b secrets" "signs_only (lb_Crypto lib)"
    and "runMonitor out lib (runtime_of b secrets) turns w = (r, w')"
  shows "\<exists>txs. world_sent w' = world_sent w @ txs \<and> configured_exits out lib txs"
proof -
  note c = configured_out [OF assms(1)]
  have n: "rt_Monitor (runtime_of b secrets) = None" by (simp add: runtime_of_def Let_def)
  have s: "signs_only (dp_Crypto (bd_Parts b))" using assms(1,2) by (auto simp: configured_def)
  from assms(3) have "tryE (buildMonitorServices out lib (runtime_of b secrets)) (\<lambda>e. ret (Some (Some e)))
      (\<lambda>x. deferred (snd x) (runServices out (fst x) turns)) w = (r, w')"
    by (simp add: runMonitor_def n case_prod_unfold)
  then show ?thesis
  proof (rule tryE_elim)
    fix e w1
    assume b: "buildMonitorServices out lib (runtime_of b secrets) w = (Inl e, w1)"
      and "ret (Some (Some e)) w1 = (r, w')"
    with movesD [OF buildMonitorServices_unspent b] show ?thesis
      by (simp add: ret_eq unspent_def configured_exits_def)
  next
    fix x w1
    assume x: "buildMonitorServices out lib (runtime_of b secrets) w = (Inr x, w1)"
      and d: "deferred (snd x) (runServices out (fst x) turns) w1 = (r, w')"
    obtain rt cleanup where xs: "x = (rt, cleanup)" by (cases x)
    obtain svc where svc: "dp_service (bd_Parts b) = Inr svc"
      "rt = (runtime_of b secrets)\<lparr>rt_Monitor := Some (bd_monitor b svc), rt_Telegram := Some (bd_telegram b svc)\<rparr>"
      using x unfolding xs by (rule buildMonitorServices_Inr [OF _ assms(1)])
    obtain y w2 where y: "runServices out rt turns w1 = (y, w2)" by (metis surj_pair)
    have "moves unspent cleanup"
      using x unfolding xs
      by (cases rule: buildMonitorServices_cases)
        (auto simp: setupRuntimeLogger_eq ret_eq split: if_splits elim!: io_elims
          intro!: moves_combinators [OF unspent_order] start_unspent)
    then have w': "world_sent w' = world_sent w2"
      using d y by (auto simp: deferred_def xs bindIO_eq ret_eq unspent_def split: option.splits prod.splits
          dest: movesD)
    have "world_sent w1 = world_sent w"
      using movesD [OF buildMonitorServices_unspent x] by (simp add: unspent_def)
    moreover have "\<exists>txs. world_sent w2 = world_sent w1 @ txs \<and> list_all (full_exit_tx (bd_Parts b) svc) txs"
      using y unfolding svc(2) c [symmetric]
    proof (rule runServices_daemon)
      fix interval s
      assume "bd_daemon b svc interval 0 turns (fmempty, None, w1) = (y, s)" "w2 = bot_world s"
      with movesD [OF daemon_spends [OF svc(1) s configured_bump [OF assms(1) svc(1)]]] show ?thesis
        by (fastforce simp: spends_def pending_sound_def)
    qed simp
    ultimately show ?thesis
      using w' assms(1) svc(1) by (auto simp: configured_exits_def)
  qed
qed

lemma Run_exits:
  assumes "signs_only (lb_Crypto lib)" "dialled_before (wd_log w) = 0"
    and "Run out lib mode path turns w = (r, w')"
  shows "\<exists>txs. world_sent w' = world_sent w @ txs \<and> configured_exits out lib txs \<and>
    (txs \<noteq> [] \<longrightarrow> mode = ModeMonitor)"
proof (cases "path = []")
  case False
  let ?close = "\<lambda>rt. case rt_Close rt of None \<Rightarrow> ret () | Some close \<Rightarrow> close"
  let ?body = "\<lambda>rt. if mode \<in> {ModeMonitor, ModeBootstrap, ModeConfigCheck}
    then runMode out lib mode rt turns else ret (Some (Some (New (''unsupported mode '' @ Quote mode))))"
  from False assms(3) have "tryE (buildRuntime out lib path) (\<lambda>e. ret (Some (Some e))) (\<lambda>rt.
      deferred (?close rt) (?body rt)) w = (r, w')"
    by (simp add: Run_def)
  then show ?thesis
  proof (rule tryE_elim)
    fix e w1
    assume e: "buildRuntime out lib path w = (Inl e, w1)" and "ret (Some (Some e)) w1 = (r, w')"
    with movesD [OF buildRuntime_unspent e] show ?thesis
      by (simp add: ret_eq unspent_def configured_exits_def)
  next
    fix rt w1
    assume rt: "buildRuntime out lib path w = (Inr rt, w1)" and d: "deferred (?close rt) (?body rt) w1 = (r, w')"
    obtain b secrets where b: "rt = runtime_of b secrets" "configured out lib b secrets"
      using rt assms(2) by (rule buildRuntime_Inr)
    note c = configured_out [OF b(2)]
    obtain y w2 where y: "?body rt w1 = (y, w2)" by (metis surj_pair)
    have "moves unspent (Close (dp_pool (bd_Parts b)))"
    proof -
      have "dp_pool (bd_Parts b) = NewMultiClient (Some (endpoint out 0))
          (endpoints_of out (map Suc [0..<dp_Fallbacks (bd_Parts b)]))"
        using c by (simp add: dp_pool_def rpc_pool_def endpoints_of_def comp_def del: map_Suc_upt)
      then show ?thesis by (auto intro!: movesI dest: Close_endpoints(2) simp: dial_step_def unspent_def)
    qed
    then have w': "world_sent w' = world_sent w2"
      using d y by (auto simp: deferred_def b(1) runtime_of_def Let_def bindIO_eq ret_eq unspent_def
          split: option.splits prod.splits dest: movesD)
    have "\<exists>txs. world_sent w2 = world_sent w1 @ txs \<and> configured_exits out lib txs \<and>
        (txs \<noteq> [] \<longrightarrow> mode = ModeMonitor)"
    proof (cases "mode = ModeMonitor")
      case True
      with y obtain x where "runMonitor out lib rt turns w1 = (x, w2)"
        by (auto simp: runMode_def elim!: io_elims)
      from runMonitor_exits [OF b(2) assms(1) this [unfolded b(1)]] True show ?thesis by blast
    next
      case False
      have "silent_step w1 w2"
        using y False
        by (auto simp: runMode_def b(1) ret_eq reflpD [OF silent_order(1)] split: if_splits elim!: io_elims
            dest: movesD [OF runConfigCheck_silent] movesD [OF runBootstrap_silent [where b = b, unfolded c]])
      then show ?thesis by (simp add: silent_step_def unspent_def configured_exits_def)
    qed
    moreover have "world_sent w1 = world_sent w"
      using movesD [OF buildRuntime_unspent rt] by (simp add: unspent_def)
    ultimately show ?thesis using w' by simp
  qed
qed (use assms in \<open>simp add: Run_def ret_eq configured_exits_def\<close>)

lemma main_exits:
  assumes "signs_only (lb_Crypto lib)" "dialled_before (wd_log w) = 0"
    and "main_run out lib args turns w = (r, w')"
  shows "\<exists>txs. world_sent w' = world_sent w @ txs \<and> configured_exits out lib txs"
  using assms(3)
proof (cases rule: main_run_cases)
  case rejected
  then show ?thesis by (simp add: calmly_def configured_exits_def)
next
  case (waiting mode path)
  then show ?thesis using Run_exits [OF assms(1,2)] by blast
next
  case (ended mode path e w1)
  then show ?thesis using Run_exits [OF assms(1,2) ended(1)] by (auto simp: calmly_def)
qed

end
