(* ===== verification/Daemon_Invariants.thy ===== *)
theory Daemon_Invariants
  imports App_Daemon
begin

text \<open>
  What the daemon keeps on every schedule: the modules run under the overrides that are stored,
  and every batch of updates is acknowledged by the requests that follow it.
\<close>

subsection \<open>Modules that keep running\<close>

abbreviation bd_decimals :: "'k BotDeployment \<Rightarrow> uint8" where
  "bd_decimals b \<equiv> ec_AssetDecimals (cfg_Ethereum (bd_cfg b))"

text \<open>The keys of the tables are intact and every module accepts itself under the stored overrides.\<close>

definition running :: "'k BotDeployment \<Rightarrow> Database \<Rightarrow> bool" where
  "running b db \<longleftrightarrow> db_ok db \<and>
     (\<forall>mv \<in> set (bd_modules b). runs_under (stored_overrides db) (bd_decimals b) mv)"

definition keeps_running :: "'k BotDeployment \<Rightarrow> world \<Rightarrow> world \<Rightarrow> bool" where
  "keeps_running b w w' \<longleftrightarrow> (running b (wd_db w) \<longrightarrow> running b (wd_db w'))"

definition keeps_overrides :: "world \<Rightarrow> world \<Rightarrow> bool" where
  "keeps_overrides w w' \<longleftrightarrow> db_overrides (wd_db w') = db_overrides (wd_db w) \<and>
     (db_ok (wd_db w) \<longrightarrow> db_ok (wd_db w'))"

lemma keeps_order: "reflp (keeps_running b)" "transp (keeps_running b)"
  "reflp keeps_overrides" "transp keeps_overrides"
  by (auto simp: reflp_def transp_def keeps_running_def keeps_overrides_def)

lemma keeps_overrides_running: "keeps_overrides w w' \<Longrightarrow> keeps_running b w w'"
  using stored_overrides_cong [of "wd_db w'" "wd_db w"]
  by (simp add: keeps_overrides_def keeps_running_def running_def)

lemma quiet_keeps: "quiet_step w w' \<Longrightarrow> keeps_overrides w w'"
  by (simp add: quiet_step_def keeps_overrides_def)

lemma exec_keeps:
  assumes "\<And>db db'. f db = Inr db' \<Longrightarrow> db_overrides db' = db_overrides db \<and> (db_ok db \<longrightarrow> db_ok db')"
  shows "moves keeps_overrides (exec_stmt (sql_driver out) name f)"
proof (rule movesI)
  fix w r w'
  assume "exec_stmt (sql_driver out) name f w = (r, w')"
  then show "keeps_overrides w w'"
    by (cases rule: sql.exec_stmt_cases) (auto simp: keeps_overrides_def dest: assms)
qed

lemmas keeps_combinators = moves_combinators [OF keeps_order(3,4)]

lemma repositories_keep:
  "moves keeps_overrides (InsertMonitorResult (sql_driver out) r t)"
  "moves keeps_overrides (Repositories_Record (sql_driver out) ty m flds t)"
  "moves keeps_overrides (InsertWithdrawalAttempt (sql_driver out) a)"
  unfolding InsertMonitorResult_def Repositories_Record_def InsertEvent_def InsertWithdrawalAttempt_def
  by (intro keeps_combinators exec_keeps conjI impI;
      (auto intro: stmt_ok insert_event_ok)?;
      auto simp: insert_snapshot_def insert_event_def insert_attempt_row_def split: if_splits)+

lemma providers_keep:
  "moves (keeps_running b) (BuildSetConfirmation (system_clock (bd_out b))
     (runtime_thresholds (bd_out b) (bd_Lib b) (bd_cfg b)) u m k v)"
  "moves (keeps_running b) (Confirm (system_clock (bd_out b))
     (runtime_thresholds (bd_out b) (bd_Lib b) (bd_cfg b)) u i)"
proof -
  let ?sys = "system_clock (bd_out b)" and ?p = "runtime_thresholds (bd_out b) (bd_Lib b) (bd_cfg b)"
  have c: "tp_config ?p = bd_cfg b" "tp_assetDecimals ?p = bd_decimals b"
    by (simp_all add: runtime_thresholds_def)
  show "moves (keeps_running b) (BuildSetConfirmation ?sys ?p u m k v)"
  proof (rule movesI)
    fix w r w'
    assume run: "BuildSetConfirmation ?sys ?p u m k v w = (r, w')"
    with thresholds.BuildSetConfirmation_overrides [OF run]
      preservesD [OF thresholds.BuildSetConfirmation_ok run]
    show "keeps_running b w w'" by (intro keeps_overrides_running) (simp add: keeps_overrides_def)
  qed
  show "moves (keeps_running b) (Confirm ?sys ?p u i)"
  proof (rule movesI)
    fix w r w'
    assume run: "Confirm ?sys ?p u i w = (r, w')"
    show "keeps_running b w w'"
      unfolding keeps_running_def running_def
    proof (intro impI conjI ballI; elim conjE)
      assume ok: "db_ok (wd_db w)"
      then show "db_ok (wd_db w')" using preservesD [OF thresholds.Confirm_ok run] by simp
      fix mv
      assume mv: "mv \<in> set (bd_modules b)"
        and "\<forall>mv \<in> set (bd_modules b). runs_under (stored_overrides (wd_db w)) (bd_decimals b) mv"
      then show "runs_under (stored_overrides (wd_db w')) (bd_decimals b) mv"
        using thresholds.Confirm_keeps_running [OF run, unfolded c,
          OF _ bd_modules_built [OF mv, unfolded bd_build_def Let_def] mv refl] ok by simp
    qed
  qed
qed

lemma quiet_listings:
  "quiet (Recent (runtime_logs out) includeInfo)"
  "quiet (List_Thresholds showFloat (runtime_thresholds out lib cfg))"
proof -
  note comb = moves_combinators [OF quiet_order]
  show "quiet (Recent (runtime_logs out) includeInfo)"
    unfolding Recent_def ListRecentEvents_def runtime_logs_def Let_def
    by (auto intro!: comb quiet_query quiet_fault)
  show "quiet (List_Thresholds showFloat (runtime_thresholds out lib cfg))"
    unfolding List_Thresholds_def runtime_thresholds_def Let_def
    by (auto intro!: comb quiet_overrides)
qed

lemma quiet_keeps_running: "quiet m \<Longrightarrow> moves (keeps_running b) m"
  by (erule moves_weaken) (intro keeps_overrides_running quiet_keeps)

lemma overrides_keep_running: "moves keeps_overrides m \<Longrightarrow> moves (keeps_running b) m"
  by (erule moves_weaken) (rule keeps_overrides_running)

lemma send_keeps:
  "moves keeps_overrides (bot_Send (bd_api b) c t)" "moves keeps_overrides (bot_GetUpdates (bd_api b) off)"
  "moves keeps_overrides (sb_SendTransaction (dp_submitter d) tx)"
  by (auto simp: bd_api_def telegram_bot_def keeps_overrides_def ask_def intro!: movesI dest: dp_send)

lemma world_keeps_running: "world_moves (keeps_running b) b"
  unfolding world_moves_def
  by (simp add: keeps_order quiet_keeps_running quiet_system_clock quiet_listings providers_keep
      overrides_keep_running send_keeps repositories_keep)

lemma daemon_keeps_running:
  assumes "dp_service (bd_Parts b) = Inr svc"
  shows "moves (in_env (in_env (keeps_running b))) (bd_daemon b svc interval offset turns)"
  by (rule daemon_moves [OF assms world_keeps_running])
    (auto simp: overrides_keep_running send_keeps repositories_keep dp_repository_def
      intro: keeps_overrides_running quiet_keeps)

subsection \<open>Updates are acknowledged\<close>

definition no_fetch :: "world \<Rightarrow> world \<Rightarrow> bool" where
  "no_fetch w w' \<longleftrightarrow> (\<exists>l. wd_log w' = wd_log w @ l \<and> (\<forall>off. RqUpdates off \<notin> set l))"

lemma no_fetch_order: "reflp no_fetch" "transp no_fetch"
  unfolding reflp_def transp_def no_fetch_def by auto

lemma calm_no_fetch: "calm_step w w' \<Longrightarrow> no_fetch w w'"
  by (force simp: calm_step_def no_fetch_def list_all_iff)

text \<open>
  Every batch in the log is below an offset: asking from it acknowledges them. The log is
  acknowledged when every request asks from an offset above the batches before it.
\<close>

definition batch_below :: "string + Update list \<Rightarrow> int64 \<Rightarrow> bool" where
  "batch_below answer offset \<longleftrightarrow>
     (case answer of Inl err \<Rightarrow> True | Inr us \<Rightarrow> \<forall>u \<in> set us. sint (up_UpdateID u) < sint offset)"

definition below :: "Outside \<Rightarrow> log \<Rightarrow> int64 \<Rightarrow> bool" where
  "below out l offset \<longleftrightarrow> (\<forall>i off. i < length l \<longrightarrow> l ! i = RqUpdates off \<longrightarrow>
     batch_below (out_Updates out (take i l) off) offset)"

definition acknowledged :: "Outside \<Rightarrow> log \<Rightarrow> bool" where
  "acknowledged out l \<longleftrightarrow> (\<forall>i off. i < length l \<longrightarrow> l ! i = RqUpdates off \<longrightarrow> below out (take i l) off)"

text \<open>Telegram's identifiers are far below the largest 64-bit integer, where the next one wraps.\<close>

definition small_ids :: "Outside \<Rightarrow> bool" where
  "small_ids out \<longleftrightarrow> (\<forall>l off us u. out_Updates out l off = Inr us \<longrightarrow> u \<in> set us \<longrightarrow>
     sint (up_UpdateID u) < 2 ^ 63 - 1)"

lemma below_append:
  assumes "\<forall>off. RqUpdates off \<notin> set m"
  shows "below out (l @ m) offset \<longleftrightarrow> below out l offset"
    "acknowledged out (l @ m) \<longleftrightarrow> acknowledged out l"
proof -
  have later: "i < length (l @ m) \<and> (l @ m) ! i = RqUpdates off \<longleftrightarrow> i < length l \<and> l ! i = RqUpdates off"
    for i off
  proof (cases "i < length l")
    case False
    have "m ! (i - length l) \<noteq> RqUpdates off" if "i < length (l @ m)"
    proof
      assume "m ! (i - length l) = RqUpdates off"
      moreover have "i - length l < length m" using that False by simp
      ultimately have "RqUpdates off \<in> set m" using nth_mem by metis
      with assms show False by blast
    qed
    with False show ?thesis by (auto simp: nth_append)
  qed (simp add: nth_append)
  show "below out (l @ m) offset \<longleftrightarrow> below out l offset"
    unfolding below_def imp_conjL [symmetric] later by (simp cong: imp_cong conj_cong)
  show "acknowledged out (l @ m) \<longleftrightarrow> acknowledged out l"
    unfolding acknowledged_def imp_conjL [symmetric] later by (simp cong: imp_cong conj_cong)
qed

lemma below_fetch:
  "below out (l @ [RqUpdates off]) offset \<longleftrightarrow>
     below out l offset \<and> batch_below (out_Updates out l off) offset"
  unfolding below_def by (auto simp: nth_append less_Suc_eq)

lemma acknowledged_fetch:
  "acknowledged out (l @ [RqUpdates off]) \<longleftrightarrow> acknowledged out l \<and> below out l off"
  unfolding acknowledged_def by (auto simp: nth_append less_Suc_eq)

lemma below_mono: "below out l off \<Longrightarrow> sint off \<le> sint off' \<Longrightarrow> below out l off'"
  by (auto simp: below_def batch_below_def split: sum.splits) fastforce

lemma sint_next:
  assumes "sint (i :: int64) < 2 ^ 63 - 1"
  shows "sint (i + 1) = sint i + 1"
proof -
  have "sint (i + 1) = signed_take_bit 63 (sint i + 1)"
    using sint_word_ariths(1) [of i 1] by simp
  also have "\<dots> = sint i + 1"
    using assms sint_greater_eq [of i] by (intro signed_take_bit_int_eq_self) simp_all
  finally show ?thesis .
qed

lemma next_offset_above:
  assumes "sint (up_UpdateID u) < 2 ^ 63 - 1"
  shows "sint offset \<le> sint (next_offset offset u)" "sint (up_UpdateID u) < sint (next_offset offset u)"
  using sint_next [OF assms] by (auto simp: next_offset_def)

lemma handleBatch_above:
  assumes "handleBatch sys service offset us w = ((offset', None), w')"
    and "\<forall>u \<in> set us. sint (up_UpdateID u) < 2 ^ 63 - 1"
  shows "sint offset \<le> sint offset' \<and> (\<forall>u \<in> set us. sint (up_UpdateID u) < sint offset')"
  using assms
proof (induction us arbitrary: offset w)
  case (Cons u us)
  obtain w1 where "handleBatch sys service (next_offset offset u) us w1 = ((offset', None), w')"
    using Cons.prems(1) by (auto simp: Let_def elim!: io_elims)
  with Cons.IH [of "next_offset offset u" w1] Cons.prems(2) next_offset_above [of u offset]
  show ?case by force
qed (simp add: ret_eq)

lemma world_no_fetch: "world_moves no_fetch b"
  by (rule world_moves_weaken [OF calm_world calm_no_fetch no_fetch_order])

lemma monitor_no_fetch:
  assumes "dp_service (bd_Parts b) = Inr svc"
  shows "moves (in_env (in_env no_fetch)) (RunOnce (bd_monitor b svc))"
proof -
  note weak = moves_weaken [where R = calm_step and Q = no_fetch, OF _ calm_no_fetch]
  have "moves no_fetch (sb_SendTransaction (dp_submitter (bd_Parts b)) tx)" for tx
    by (rule movesI) (auto simp: no_fetch_def dp_submitter_def multi_submitter_def SendTransaction_def
        dp_pool_def rpc_pool_def NewMultiClient_def endpoint_def ask_def onErr_eq ret_eq split: option.splits)
  then show ?thesis
    by (intro monitor_moves [OF assms no_fetch_order])
      (simp_all add: weak calm_repositories dp_repository_def calm_no_fetch quiet_step_def bd_api_def calm_send)
qed

abbreviation bot_log :: "bstate \<Rightarrow> log" where "bot_log s \<equiv> wd_log (bot_world s)"

lemma get_updates_log:
  assumes "bot_GetUpdates (lift_bot (lift_bot (bd_api b))) offset s = (r, s')"
  shows "r = library (out_Updates (bd_out b) (bot_log s) offset)" "bot_log s' = bot_log s @ [RqUpdates offset]"
  using assms
  by (auto simp: lift_bot_def bd_api_def telegram_bot_def ask_def elim!: envIO_elim)

lemma pollRound_acknowledges:
  assumes run: "pollRound (bd_clock b) (bd_telegram b svc) (lift_bot (lift_bot (bd_api b))) offset s
      = ((offset', err), s')"
    and svc: "dp_service (bd_Parts b) = Inr svc" and ids: "small_ids (bd_out b)"
    and log: "acknowledged (bd_out b) (bot_log s)" "below (bd_out b) (bot_log s) offset"
  shows "acknowledged (bd_out b) (bot_log s') \<and> (err = None \<longrightarrow> below (bd_out b) (bot_log s') offset')"
  using run unfolding pollRound_def
proof (rule tryE_elim)
  fix e s1
  assume g: "bot_GetUpdates (lift_bot (lift_bot (bd_api b))) offset s = (Inl e, s1)"
    and "ret (offset, sanitizeTelegramError ''get telegram updates''
      (bot_Token (lift_bot (lift_bot (bd_api b)))) (Some e)) s1 = ((offset', err), s')"
  with get_updates_log [OF g] log show ?thesis
    by (auto simp: ret_eq acknowledged_fetch sanitizeTelegramError_def Let_def)
next
  fix us s1
  assume g: "bot_GetUpdates (lift_bot (lift_bot (bd_api b))) offset s = (Inr us, s1)"
    and h: "handleBatch (bd_clock b) (bd_telegram b svc) offset us s1 = ((offset', err), s')"
  have us: "out_Updates (bd_out b) (bot_log s) offset = Inr us" and l1: "bot_log s1 = bot_log s @ [RqUpdates offset]"
    using get_updates_log [OF g] by (simp_all add: library_results eq_commute [of "Inr us"])
  have "moves (on_world no_fetch) (handleBatch (bd_clock b) (bd_telegram b svc) offset us)"
    using svc by (intro handleBatch_moves bd_telegram_moves world_no_fetch)
      (rule moves_weaken [OF quiet_calm [OF quiet_DryRun] calm_no_fetch])
  from movesD [OF this h] obtain m where m: "bot_log s' = bot_log s1 @ m" "\<forall>off. RqUpdates off \<notin> set m"
    by (auto simp: on_world_def no_fetch_def)
  have "acknowledged (bd_out b) (bot_log s')"
    unfolding m(1) below_append(2) [OF m(2)] l1 acknowledged_fetch using log by simp
  moreover have "below (bd_out b) (bot_log s') offset'" if "err = None"
  proof -
    have "sint offset \<le> sint offset' \<and> (\<forall>u \<in> set us. sint (up_UpdateID u) < sint offset')"
      by (rule handleBatch_above [OF h [unfolded that]]) (use ids us in \<open>auto simp: small_ids_def\<close>)
    with below_mono [OF log(2)] us show ?thesis
      unfolding m(1) below_append(1) [OF m(2)] l1 below_fetch by (simp add: batch_below_def)
  qed
  ultimately show ?thesis by simp
qed

lemma daemon_acknowledges:
  assumes "dp_service (bd_Parts b) = Inr svc" "small_ids (bd_out b)"
    and "bd_daemon b svc interval offset turns s = (r, s')"
    and "acknowledged (bd_out b) (bot_log s)" "below (bd_out b) (bot_log s) offset"
  shows "acknowledged (bd_out b) (bot_log s')"
  using assms(3-5) unfolding bd_daemon_def
proof (induction turns arbitrary: offset s)
  case (Cons t turns)
  show ?case
  proof (cases t)
    case (MonitorTurn event)
    show ?thesis
    proof (cases event)
      case Tick
      with Cons.prems(1) MonitorTurn consider "s' = s"
        | results err s1 where "RunOnce (bd_monitor b svc) s = ((results, err), s1)"
          "s' = s1 \<or> daemonLoop (bd_clock b) (bd_monitor b svc) interval (bd_telegram b svc)
             (lift_bot (lift_bot (bd_api b))) offset turns s1 = (r, s')"
        by (auto split: if_splits elim!: io_elims)
      then show ?thesis
      proof cases
        case 2
        from movesD [OF monitor_no_fetch [OF assms(1)] 2(1)]
        obtain m where m: "bot_log s1 = bot_log s @ m" "\<forall>off. RqUpdates off \<notin> set m"
          by (auto simp: no_fetch_def)
        then have "acknowledged (bd_out b) (bot_log s1)" "below (bd_out b) (bot_log s1) offset"
          using Cons.prems(2,3) by (simp_all add: below_append)
        with 2(2) Cons.IH show ?thesis by blast
      qed (use Cons.prems in simp)
    qed (use Cons.prems MonitorTurn in \<open>auto split: if_splits simp: ret_eq\<close>)
  next
    case (TelegramTurn d)
    show ?thesis
    proof (cases d)
      case None
      with Cons.prems(1) TelegramTurn obtain offset' err s1 where p:
        "pollRound (bd_clock b) (bd_telegram b svc) (lift_bot (lift_bot (bd_api b))) offset s
          = ((offset', err), s1)"
        and rest: "case err of Some e \<Rightarrow> s' = s1
          | None \<Rightarrow> daemonLoop (bd_clock b) (bd_monitor b svc) interval (bd_telegram b svc)
             (lift_bot (lift_bot (bd_api b))) offset' turns s1 = (r, s')"
        by (auto elim!: io_elims split: option.splits)
      from pollRound_acknowledges [OF p assms(1,2) Cons.prems(2,3)] rest Cons.IH show ?thesis
        by (auto split: option.splits)
    qed (use Cons.prems TelegramTurn in \<open>auto simp: ret_eq\<close>)
  qed
qed (simp add: ret_eq)

end
