(* ===== verification/Example_Bot.thy ===== *)
theory Example_Bot
  imports Example Start_Laws Daemon_Invariants
begin

text \<open>
  A whole program: the deployment of \<open>Example\<close> with a share price module, started from a
  configuration file and an environment that describe it.
\<close>

definition demo_block :: ModuleConfig where
  "demo_block = Some (fmap_of_list
     [(''enabled'', AnyBool True), (''baseline_share_price_asset_units'', AnyString ''2000000''),
      (''loss_warn_bps'', AnyInt 50), (''loss_urgent_bps'', AnyInt 100)])"

definition bot_config :: Config where
  "bot_config = demo_config\<lparr>cfg_Modules := Some (fmap_of_list [(ModuleSharePriceLoss, demo_block)])\<rparr>"

definition demo_libraries :: "unit Libraries" where
  "demo_libraries = \<lparr>
     lb_YamlUnmarshal = (\<lambda>data. Inr bot_config), lb_YamlEncode = (\<lambda>j. Inr (json_encode j)),
     lb_Reread = Inr, lb_Crypto = dp_Crypto demo_deployment, lb_TxHash = dp_TxHash demo_deployment,
     lb_VaultABI = dp_VaultABI demo_deployment, lb_ERC20ABI = demo_codec erc20ABIJSON,
     lb_Address = \<lparr>al_IsHexAddress = (\<lambda>s. True),
       al_HexToAddress = (\<lambda>s. if s = ''0x10'' then 16 else 32), al_Hex = (\<lambda>a. []),
       al_HexEncode = (\<lambda>b. [])\<rparr>,
     lb_Range = (\<lambda>m. [(ModuleSharePriceLoss, demo_block)]), lb_ShowFloat = id\<rparr>"

definition demo_secrets :: Secrets where
  "demo_secrets = \<lparr>sec_PrivateKey = ''x'', sec_TelegramToken = ''x'', sec_PrimaryRPCURL = ''x'',
     sec_FallbackRPCURLs = [''x'']\<rparr>"

definition demo_bot :: "unit BotDeployment" where
  "demo_bot = deployment demo_outside demo_libraries bot_config demo_secrets
     \<lparr>pk_key = (), pk_address = 48\<rparr> 16 32"

definition demo_reader_of_bot :: "world VaultReader" where
  "demo_reader_of_bot = vault_reader bot_config (dp_pool (bd_Parts demo_bot)) 16
     (dp_VaultABI demo_deployment) (demo_codec erc20ABIJSON) (lb_Address demo_libraries)"

definition demo_share_module :: "world SharePriceModule" where
  "demo_share_module =
     \<lparr>sp_BaselineSharePrice = Some 2000000, sp_PreviousSharePrice = None, sp_WarnBPS = 50,
      sp_UrgentBPS = 100, sp_Reader = Some (CurrentSharePrice demo_reader_of_bot),
      sp_Clock = Some (system_clock demo_outside)\<rparr>"

lemma demo_bot_parts:
  "bd_Parts demo_bot = demo_deployment\<lparr>dp_Config := bot_config\<rparr>"
  by (simp add: demo_bot_def deployment_def demo_libraries_def demo_secrets_def demo_deployment_def)

lemma demo_cfg [simp]:
  "cfg_App bot_config = cfg_App demo_config" "cfg_Ethereum bot_config = cfg_Ethereum demo_config"
  "cfg_Telegram bot_config = cfg_Telegram demo_config" "cfg_Gas bot_config = cfg_Gas demo_config"
  "cfg_Logs bot_config = cfg_Logs demo_config"
  by (simp_all add: bot_config_def)

lemma bot_config_valid: "Validate bot_config = None"
  using demo_config_valid by (simp add: Validate_def)

lemma demo_module: "cfg_module bot_config k = (if k = ModuleSharePriceLoss then Some demo_block else None)"
  by (simp add: bot_config_def cfg_module_def fmlookup_of_list)

lemma demo_bot_build: "bd_build demo_bot = Inr [SharePriceValue demo_share_module]"
  by (simp add: bd_build_def Let_def demo_bot_def BuildModules_def demo_libraries_def ModuleEnabled_def
      demo_block_def config_lookup_def fmlookup_of_list knownModuleIDs_def append_enabled_def
      EnabledModuleConfig_def demo_module [unfolded demo_block_def] buildSharePriceModule_def
      ModuleBigInt_def ModuleString_def ModuleInt64_def big_SetString_def is_digit_def digit_val_def
      demo_share_module_def demo_reader_of_bot_def)

lemma demo_bot_modules: "bd_modules demo_bot = [SharePriceValue demo_share_module]"
  by (simp add: bd_modules_def demo_bot_build)

lemma demo_environment: "LoadSecretsFromEnv (out_Getenv demo_outside) = Inr demo_secrets"
  by (simp add: LoadSecretsFromEnv_def demo_outside_def fallbackURLs_def demo_secrets_def trim_eval Split_def)

lemma demo_configured: "configured demo_outside demo_libraries demo_bot demo_secrets"
proof -
  have "parseAddress (lb_Address demo_libraries) name ''0x10'' = Inr 16"
    "parseAddress (lb_Address demo_libraries) name ''0x20'' = Inr 32" for name
    by (simp_all add: parseAddress_def demo_libraries_def)
  moreover have "ec_VaultAddress (cfg_Ethereum demo_config) = ''0x10''"
    "ec_ReceiverAddress (cfg_Ethereum demo_config) = ''0x20''"
    by (simp_all add: demo_config_def)
  moreover have "NewPrivateKeyService (lb_Crypto demo_libraries) (sec_PrivateKey demo_secrets) =
      Inr \<lparr>pk_key = (), pk_address = 48\<rparr>"
    by (simp add: NewPrivateKeyService_def demo_libraries_def demo_deployment_def)
  moreover have "lb_YamlUnmarshal demo_libraries [] = Inr bot_config" by (simp add: demo_libraries_def)
  ultimately show ?thesis
    unfolding configured_def using bot_config_valid demo_environment demo_bot_def demo_bot_build
    by fastforce
qed

lemma demo_bot_service: "\<exists>svc. dp_service (bd_Parts demo_bot) = Inr svc"
  by (simp add: dp_service_def buildWithdrawService_def demo_bot_parts demo_config_def demo_timeout demo_gwei)

definition bot_service :: "world Service" where
  "bot_service = (case dp_service (bd_Parts demo_bot) of Inr s \<Rightarrow> s)"

lemma bot_service_eq: "dp_service (bd_Parts demo_bot) = Inr bot_service"
  using demo_bot_service by (auto simp: bot_service_def)

lemma demo_running: "running demo_bot emptyDatabase"
proof -
  have "accepts_itself (SharePriceValue demo_share_module)"
    by (simp add: SharePrice_ValidateConfig_def demo_share_module_def)
  then show ?thesis
    by (simp add: running_def demo_bot_modules runs_under_def applySharePriceOverrides_def
        overridesForModule_def stored_overrides_def select_overrides_def toThresholdOverrides_def
        emptyDatabase_def db_ok_def sort_by_def)
qed

subsection \<open>It starts\<close>

abbreviation fresh_process :: "Database \<Rightarrow> world" where
  "fresh_process db \<equiv> \<lparr>wd_log = [], wd_db = db\<rparr>"

lemma demo_dials: "world_dial demo_outside url w = (Inr (endpoint demo_outside (dialled_before (wd_log w))),
    w\<lparr>wd_log := wd_log w @ [RqDial url]\<rparr>)"
  by (simp add: world_dial_def demo_outside_def)

lemma demo_buildRuntime:
  "\<exists>w1. buildRuntime demo_outside demo_libraries ''c'' (fresh_process db) =
     (Inr (runtime_of demo_bot demo_secrets), w1)"
proof -
  let ?w1 = "\<lparr>wd_log = [RqSystem ReadFile ''c''], wd_db = db\<rparr>"
  have load: "loadConfig demo_outside (lb_YamlUnmarshal demo_libraries) ''c'' (fresh_process db) = (Inr bot_config, ?w1)"
    by (simp add: loadConfig_def os_call_def demo_outside_def Load_def demo_libraries_def bot_config_valid)
  have addresses: "parseAddress (lb_Address demo_libraries) name (ec_VaultAddress (cfg_Ethereum demo_config)) = Inr 16"
    "parseAddress (lb_Address demo_libraries) name (ec_ReceiverAddress (cfg_Ethereum demo_config)) = Inr 32" for name
    by (simp_all add: parseAddress_def demo_libraries_def demo_config_def)
  obtain m w2 where dial: "dialMulti (world_dial demo_outside) ''x'' [''x''] ?w1 = (Inr m, w2)"
    by (simp add: dialMulti_def tryE_eq demo_dials)
  then have "m = rpc_pool demo_outside 1"
    using dialMulti_pool [OF dial] by (simp add: dialled_before_def)
  then have "assembleRuntime demo_outside demo_libraries bot_config demo_secrets 16 32 m =
      Inr (runtime_of demo_bot demo_secrets)"
    using assembleRuntime_eq [of demo_libraries demo_secrets "\<lparr>pk_key = (), pk_address = 48\<rparr>"]
      demo_bot_build
    by (simp add: demo_secrets_def NewPrivateKeyService_def demo_bot_def)
      (simp add: demo_libraries_def demo_deployment_def)
  then show ?thesis
    using dial by (simp add: buildRuntime_def bindE_eq load demo_environment addresses tryE_eq ret_eq demo_secrets_def)
qed

text \<open>An error of the monitor mode: its context is done at once.\<close>

lemma demo_Run:
  "\<exists>err w'. Run demo_outside demo_libraries ModeMonitor ''c'' [TelegramTurn (Some (New ''x''))]
     (fresh_process emptyDatabase) = (Some (Some err), w')"
proof -
  let ?rt = "runtime_of demo_bot demo_secrets" and ?turns = "[TelegramTurn (Some (New ''x''))]"
  obtain w1 where rt: "buildRuntime demo_outside demo_libraries ''c'' (fresh_process emptyDatabase) = (Inr ?rt, w1)"
    using demo_buildRuntime by blast
  have n: "rt_Monitor ?rt = None" by (simp add: runtime_of_def Let_def)
  have s: "\<exists>e w'. deferred cleanup (runServices demo_outside x ?turns) w = (Some (Some e), w')"
    for cleanup x w
    by (auto simp: deferred_def runServices_def runLoops_def io_simps split: option.splits sum.splits prod.splits)
  have "\<exists>e w'. runMonitor demo_outside demo_libraries ?rt ?turns w = (Some (Some e), w')" for w
    using s by (auto simp: runMonitor_def n tryE_eq ret_eq split: prod.splits sum.splits)
  then obtain e w2 where "runMonitor demo_outside demo_libraries ?rt ?turns w1 = (Some (Some e), w2)" by blast
  then obtain e2 where "runMode demo_outside demo_libraries ModeMonitor ?rt ?turns w1 = (Some (Some e2), w2)"
    by (simp add: runMode_def bindIO_eq ret_eq sanitizeRuntimeError_def Let_def)
  then show ?thesis
    using rt by (simp add: Run_def tryE_eq deferred_def bindIO_eq ret_eq split: prod.splits option.splits)
qed

end
