(* ===== verification/Bot_Liveness.thy ===== *)
theory Bot_Liveness
  imports App_Daemon Vault_Reads
begin

text \<open>
  When the outside answers: the conditions under which the deployed withdrawal service is
  \<open>willing\<close> (theory \<open>Withdraw_Machine\<close>), so that an urgent finding ends with a transaction that is
  pending. The endpoints may fail in turn, as long as one of them answers each kind of request.
\<close>

subsection \<open>A pool of endpoints that answers\<close>

text \<open>One endpoint always answers, and whatever an endpoint answers has the property.\<close>

definition pool_answers :: "(nat \<Rightarrow> log \<Rightarrow> string + 'a) \<Rightarrow> nat \<Rightarrow> ('a \<Rightarrow> bool) \<Rightarrow> bool" where
  "pool_answers answer n P \<longleftrightarrow> (\<exists>i\<le>n. \<forall>l. \<exists>x. answer i l = Inr x) \<and>
     (\<forall>i\<le>n. \<forall>l x. answer i l = Inr x \<longrightarrow> P x)"

lemma firstAnswer_yields:
  assumes "op \<in> set ops" "\<And>w. \<exists>x w'. op w = (Inr x, w')"
    and "\<And>op w x w'. op \<in> set ops \<Longrightarrow> op w = (Inr x, w') \<Longrightarrow> P x"
  shows "\<exists>x w'. firstAnswer what le ops w = (Inr x, w') \<and> P x"
  using assms
proof (induction what le ops w rule: firstAnswer.induct)
  case (2 what le first ops w)
  obtain a w1 where a: "first w = (a, w1)" by (metis surj_pair)
  show ?case
  proof (cases a)
    case (Inl e)
    with a 2(3) have "op \<noteq> first" by (metis Inl_Inr_False fst_conv)
    then have "op \<in> set ops" using 2(2) by simp
    moreover have "P x" if "g \<in> set ops" "g v = (Inr x, v')" for g v x v'
      using 2(4) that by (meson list.set_intros(2))
    ultimately show ?thesis using 2(1) [OF a [symmetric] Inl _ 2(3)] a Inl by simp
  next
    case (Inr x)
    then show ?thesis using a 2(4) [of first w x w1] by simp
  qed
qed simp

lemma library_Inr [simp]: "library r = Inr x \<longleftrightarrow> r = Inr x"
  by (cases r) (simp_all add: library_def)

lemma pool_yields:
  assumes "pool_answers answer n P"
    and "\<And>i. op (endpoint out i) = ask (rq i) (\<lambda>l. library (answer i l))"
  shows "yields (readAll what op (rpc_pool out n)) P"
proof (rule yieldsI)
  fix w
  let ?ops = "map (\<lambda>i. op (endpoint out i)) [0..<Suc n]"
  have ops: "readAll what op (rpc_pool out n) = firstAnswer what None ?ops"
    by (simp add: readAll_def rpc_pool_def NewMultiClient_def rpcClients_def comp_def upt_conv_Cons
        map_Suc_upt [symmetric] del: upt_Suc map_Suc_upt)
  obtain i where i: "i \<le> n" "\<And>l. \<exists>x. answer i l = Inr x" using assms(1) by (auto simp: pool_answers_def)
  have "\<exists>x w'. firstAnswer what None ?ops w = (Inr x, w') \<and> P x"
  proof (rule firstAnswer_yields)
    show "op (endpoint out i) \<in> set ?ops" using i(1) by (simp only: set_map set_upt) (rule imageI, simp)
    show "\<exists>x w'. op (endpoint out i) v = (Inr x, w')" for v
      using i(2) [of "wd_log v"] by (auto simp: assms(2) ask_def)
    show "P x" if g: "g \<in> set ?ops" "g v = (Inr x, w')" for g v x w'
    proof -
      obtain j where "j \<le> n" "g = op (endpoint out j)" using g(1) by (auto simp: less_Suc_eq_le simp del: upt_Suc)
      with g(2) have "answer j (wd_log v) = Inr x" by (simp add: assms(2) ask_def)
      with assms(1) \<open>j \<le> n\<close> show "P x" by (auto simp: pool_answers_def)
    qed
  qed
  then show "\<exists>x w'. readAll what op (rpc_pool out n) w = (Inr x, w') \<and> P x" by (simp add: ops)
qed

lemma pool_reads:
  "pool_answers (out_GasPrice out) n P \<Longrightarrow> yields (SuggestGasPrice (rpc_pool out n)) P"
  "pool_answers (out_GasTipCap out) n P \<Longrightarrow> yields (SuggestGasTipCap (rpc_pool out n)) P"
  "pool_answers (\<lambda>i l. out_PendingNonce out i l a) n Q \<Longrightarrow> yields (PendingNonceAt (rpc_pool out n) a) Q"
  "pool_answers (\<lambda>i l. out_EstimateGas out i l msg) n Q \<Longrightarrow> yields (EstimateGas (rpc_pool out n) msg) Q"
  unfolding SuggestGasPrice_def SuggestGasTipCap_def PendingNonceAt_def EstimateGas_def
  by (erule pool_yields, simp add: endpoint_def)+

subsection \<open>A responsive deployment\<close>

text \<open>
  The vault answers and reports shares of the signer, some endpoint answers each read with
  positive prices and an estimate, the primary endpoint accepts transactions, the key signs and
  Telegram takes messages. The database is not mentioned: it may refuse to record the attempt.
\<close>

definition responsive :: "'k BotDeployment \<Rightarrow> bool" where
  "responsive b \<longleftrightarrow>
     (let d = bd_Parts b; out = dp_Outside d; n = dp_Fallbacks d; positive = (\<lambda>v. \<exists>x>0. v = Some x) in
      answering_client (dp_VaultABI d) (ma_VaultClient (dp_morpho d)) \<and>
      yields (BalanceOf (dp_VaultABI d) (ma_VaultClient (dp_morpho d)) (pk_address (dp_Key d))) (\<lambda>s. 0 < s) \<and>
      pk_address (dp_Key d) \<noteq> 0 \<and>
      (\<forall>msg. pool_answers (\<lambda>i l. out_EstimateGas out i l msg) n (\<lambda>gas. True)) \<and>
      (\<forall>a. pool_answers (\<lambda>i l. out_PendingNonce out i l a) n (\<lambda>nonce. True)) \<and>
      pool_answers (out_GasPrice out) n positive \<and> pool_answers (out_GasTipCap out) n positive \<and>
      (\<forall>l tx. out_Send out 0 l tx = None) \<and>
      (\<forall>tx c. \<exists>t. cr_SignTx (dp_Crypto d) tx c (pk_key (dp_Key d)) = Inr t) \<and>
      (\<forall>l chat text. out_Message out l chat text = None))"

lemma yieldsD: "yields m P \<Longrightarrow> m w = (Inr x, w') \<Longrightarrow> P x"
  by (metis Inr_inject Pair_inject yieldsE)

lemma yields_answers: "yields m P \<Longrightarrow> (\<And>x. P x \<Longrightarrow> Q (Inr x)) \<Longrightarrow> answers m Q"
  unfolding answers_def by (metis fst_conv yieldsE)

text \<open>The requests that the deployment makes of its own position.\<close>

definition own_request :: "'k Deployment \<Rightarrow> FullExitRequest \<Rightarrow> bool" where
  "own_request d rq \<longleftrightarrow> (\<exists>n. 0 < n \<and> n < 2 ^ 256 \<and> rq = \<lparr>rq_Vault = dp_Vault d,
     rq_Owner = pk_address (dp_Key d), rq_Receiver = dp_Receiver d, rq_Shares = Some n\<rparr>)"

lemma own_request_simulates:
  assumes "answering_client (dp_VaultABI d) (ma_VaultClient (dp_morpho d))"
    and "\<And>msg. pool_answers (\<lambda>i l. out_EstimateGas (dp_Outside d) i l msg) (dp_Fallbacks d) (\<lambda>gas. True)"
    and "dp_Vault d \<noteq> 0" "dp_Receiver d \<noteq> 0" "pk_address (dp_Key d) \<noteq> 0" "own_request d rq"
  shows "answers (ad_BuildFullExit (dp_adapter d) rq) (\<lambda>r. \<exists>c. r = Inr c)"
    "answers (ad_SimulateFullExit (dp_adapter d) rq) (\<lambda>r. \<exists>sim. r = (sim, None) \<and> sim_Success sim)"
proof -
  obtain n where n: "0 < n" "n < 2 ^ 256" and rq: "rq = \<lparr>rq_Vault = dp_Vault d,
      rq_Owner = pk_address (dp_Key d), rq_Receiver = dp_Receiver d, rq_Shares = Some n\<rparr>"
    using assms(6) by (auto simp: own_request_def)
  have v: "validateFullExitRequest (dp_morpho d) rq = None"
    using assms(3-5) n(1) by (simp add: validateFullExitRequest_def validateVaultClient_def rq)
  obtain data where data: "PackRedeem (dp_VaultABI d) n (dp_Receiver d) (pk_address (dp_Key d)) = Inr data"
    using PackRedeem_packs [of "dp_VaultABI d" n] assms(1) n by (auto simp: answering_client_def)
  have build: "BuildFullExit (dp_VaultABI d) (dp_morpho d) rq w =
      (Inr \<lparr>tc_To = dp_Vault d, tc_Data = Some data, tc_Value = Some 0\<rparr>, w)" for w :: world
    using v data by (simp add: BuildFullExit_def) (simp add: rq ret_eq)
  then show "answers (ad_BuildFullExit (dp_adapter d) rq) (\<lambda>r. \<exists>c. r = Inr c)"
    by (simp add: answers_def dp_adapter_def morpho_adapter_def)
  show "answers (ad_SimulateFullExit (dp_adapter d) rq) (\<lambda>r. \<exists>sim. r = (sim, None) \<and> sim_Success sim)"
    unfolding answers_def
  proof
    fix w
    obtain expected w1 where p: "PreviewRedeem (dp_VaultABI d) (ma_VaultClient (dp_morpho d)) n w = (Inr expected, w1)"
      using PreviewRedeem_yields [OF assms(1)] n by (metis less_imp_le yieldsE)
    have "yields (EstimateGas (rpc_pool (dp_Outside d) (dp_Fallbacks d)) msg) (\<lambda>gas. True)" for msg
      by (rule pool_reads) (rule assms(2))
    then obtain gas w2 where "EstimateGas (rpc_pool (dp_Outside d) (dp_Fallbacks d))
        \<lparr>cm_From = pk_address (dp_Key d), cm_To = Some (dp_Vault d), cm_Value = Some 0, cm_Data = Some data\<rparr> w1
        = (Inr gas, w2)"
      by (rule yieldsE)
    with p v build show "\<exists>sim. fst (ad_SimulateFullExit (dp_adapter d) rq w) = (sim, None) \<and> sim_Success sim"
      by (simp add: dp_adapter_def morpho_adapter_def SimulateFullExit_def Let_def tryE_eq)
        (simp add: rq tryE_eq ret_eq)
  qed
qed

lemma service_parts:
  assumes "dp_service d = Inr svc"
  shows "the (svc_Adapter svc) = dp_adapter d" "the (svc_Signer svc) = dp_signer d"
    "the (svc_Submitter svc) = dp_submitter d" "validateExecuteConfig svc = None"
  using dp_service_wired(1,3) [OF assms] by (simp_all add: wired_def validateExecuteConfig_def)

lemma responsive_willing:
  assumes "responsive b" "dp_service (bd_Parts b) = Inr svc"
    and "dp_Vault (bd_Parts b) \<noteq> 0" "dp_Receiver (bd_Parts b) \<noteq> 0"
  shows "willing svc (own_request (bd_Parts b))"
proof -
  let ?d = "bd_Parts b"
  note r = assms(1) [unfolded responsive_def Let_def]
  note parts = service_parts [OF assms(2)]
  have position: "answers (ad_Position (dp_adapter ?d)) (\<lambda>r. \<exists>p s. r = Inr p \<and> ps_Owner p = pk_address (dp_Key ?d) \<and>
      ps_ShareBalance p = Some s \<and> 0 < s \<and> own_request ?d (fullExitRequest p))"
    unfolding answers_def
  proof
    fix w
    let ?read = "BalanceOf (dp_VaultABI ?d) (ma_VaultClient (dp_morpho ?d)) (pk_address (dp_Key ?d))"
    obtain s w1 where s: "?read w = (Inr s, w1)" "0 < s" using r by (blast elim: yieldsE)
    moreover have "s < 2 ^ 256"
      using yieldsD [OF BalanceOf_yields s(1)] r by blast
    ultimately have own: "own_request ?d \<lparr>rq_Vault = dp_Vault ?d, rq_Owner = pk_address (dp_Key ?d),
        rq_Receiver = dp_Receiver ?d, rq_Shares = Some s\<rparr>" "0 < s" "?read w = (Inr s, w1)"
      by (auto simp: own_request_def)
    obtain now w2 where "clock_now (pl_SystemClock (dp_platform ?d)) (ma_Clock (dp_morpho ?d)) w1 = (now, w2)"
      by (metis surj_pair)
    then have "fst (ad_Position (dp_adapter ?d) w) = Inr \<lparr>ps_Vault = dp_Vault ?d, ps_Owner = pk_address (dp_Key ?d),
        ps_Receiver = dp_Receiver ?d, ps_ShareBalance = Some s, ps_AssetSymbol = ma_AssetSymbol (dp_morpho ?d),
        ps_AssetDecimals = ma_AssetDecimals (dp_morpho ?d), ps_ObservedAt = now\<rparr>"
      using assms(3) own(3)
      by (simp add: dp_adapter_def morpho_adapter_def Position_def validateVaultClient_def bindE_eq bindIO_eq ret_eq)
    with own show "\<exists>p s. fst (ad_Position (dp_adapter ?d) w) = Inr p \<and> ps_Owner p = pk_address (dp_Key ?d) \<and>
        ps_ShareBalance p = Some s \<and> 0 < s \<and> own_request ?d (fullExitRequest p)"
      by (auto simp: fullExitRequest_def)
  qed
  have "yields (SuggestGasPrice (dp_pool ?d)) (\<lambda>v. \<exists>x>0. v = Some x)"
    "yields (SuggestGasTipCap (dp_pool ?d)) (\<lambda>v. \<exists>x>0. v = Some x)"
    unfolding dp_pool_def by (rule pool_reads, use r in blast)+
  then have prices: "answers (sb_SuggestGasPrice (dp_submitter ?d)) (\<lambda>r. \<exists>v. r = Inr (Some v) \<and> 0 < v)"
    "answers (sb_SuggestGasTipCap (dp_submitter ?d)) (\<lambda>r. \<exists>v. r = Inr (Some v) \<and> 0 < v)"
    by (auto simp: dp_submitter_def multi_submitter_def intro: yields_answers)
  have "yields (PendingNonceAt (dp_pool ?d) a) (\<lambda>n. True)" for a
    unfolding dp_pool_def by (rule pool_reads) (use r in blast)
  then have nonce: "answers (sb_PendingNonceAt (dp_submitter ?d) a) (\<lambda>r. \<exists>n. r = Inr n)" for a
    by (auto simp: dp_submitter_def multi_submitter_def intro: yields_answers)
  have send: "answers (sb_SendTransaction (dp_submitter ?d) tx) (\<lambda>r. r = None)" for tx
    using r by (auto simp: answers_def dp_submitter_def multi_submitter_def SendTransaction_def dp_pool_def rpc_pool_def
        NewMultiClient_def endpoint_def ask_def onErr_eq ret_eq)
  have sign: "answers (sg_SignTransaction (dp_signer ?d) tx c) (\<lambda>r. \<exists>t. r = Inr t)" for tx c
  proof -
    obtain t where "cr_SignTx (dp_Crypto ?d) tx c (pk_key (dp_Key ?d)) = Inr t" using r by blast
    then show ?thesis by (simp add: answers_def dp_signer_def private_key_signer_def SignTransaction_def ret_eq)
  qed
  have owner: "answers (sg_Address (dp_signer ?d)) (\<lambda>r. r = Inr (pk_address (dp_Key ?d)))"
    by (simp add: answers_def dp_signer_def private_key_signer_def Signer_Address_def ret_eq)
  have exit: "answers (ad_BuildFullExit (dp_adapter ?d) rq) (\<lambda>r. \<exists>c. r = Inr c)"
    "answers (ad_SimulateFullExit (dp_adapter ?d) rq) (\<lambda>r. \<exists>sim. r = (sim, None) \<and> sim_Success sim)"
    if "own_request ?d rq" for rq
    using own_request_simulates [OF _ _ assms(3,4) _ that] r by blast+
  show ?thesis
    unfolding willing_def Let_def parts
    by (intro conjI allI impI exI) (rule refl position prices nonce send sign owner | erule exit)+
qed

subsection \<open>What an urgent finding leads to\<close>

lemma alert_is_taken:
  assumes "\<And>l chat text. out_Message (bd_out b) l chat text = None"
  shows "\<exists>w1. SendAlert (alert_sender cfg (lift_bot (bd_api b))) msg (p, w) = (None, (p, w1))"
  by (simp add: SendAlert_def sendText_def Let_def alert_sender_def lift_bot_def bd_api_def telegram_bot_def
      envIO_def ask_def assms sanitizeTelegramError_def libraryE_def bindIO_eq ret_eq)

text \<open>Once something is pending, alerts and executions keep it; the first execution makes it so.\<close>

lemma alert_each_pending:
  assumes "responsive b" "willing svc valid" "caps_consistent (svc_GasPolicy svc)" "bump_ok (BumpBPS (svc_GasPolicy svc))"
    and "dp_service (bd_Parts b) = Inr svc" "signs_only (dp_Crypto (bd_Parts b))"
    and "alert_each (build_alerts (dp_platform (bd_Parts b)) (bd_cfg b) svc (bd_api b)) xs (p, w) = (e, (p', w'))"
    and "pending_sound (svc_GasPolicy svc) p" "xs \<noteq> [] \<or> p \<noteq> None"
  shows "p' \<noteq> None"
  using assms(7-9)
proof (induction xs arbitrary: p w)
  case (Cons x xs)
  obtain result finding where x: "x = (result, finding)" by (cases x)
  have "out_Message (bd_out b) l chat message = None" for l chat message
    using assms(1) by (simp add: responsive_def Let_def)
  then obtain w1 where alert: "SendAlert (alert_sender (bd_cfg b) (lift_bot (bd_api b)))
      \<lparr>am_Text = f_Message finding\<rparr> (p, w) = (None, (p, w1))"
    using alert_is_taken [of b "bd_cfg b" "\<lparr>am_Text = f_Message finding\<rparr>" p w] by blast
  obtain res err q w2 where run: "ExecuteFullExit (dp_platform (bd_Parts b)) svc
      \<lparr>tr_Kind = TriggerKindUrgent, tr_ModuleID = mr_ModuleID result, tr_FindingKey = f_Key finding\<rparr> (p, w1) =
      ((res, err), (Some q, w2))"
    using ExecuteFullExit_answers [OF assms(2-4) Cons.prems(2)] by blast
  then have sound: "pending_sound (svc_GasPolicy svc) (Some q)"
    using movesD [OF execute_spends [OF assms(5,6,4)] run] Cons.prems(2) by (simp add: spends_def)
  show ?case
  proof (cases err)
    case None
    have "alert_each (build_alerts (dp_platform (bd_Parts b)) (bd_cfg b) svc (bd_api b)) xs (Some q, w2) = (e, (p', w'))"
      using Cons.prems(1) alert run None
      by (simp add: x build_alerts_def telegramAlertNotifier_def urgentWithdrawer_def bindIO_eq ret_eq)
    then show ?thesis by (rule Cons.IH) (use sound in simp_all)
  next
    case (Some e1)
    with Cons.prems(1) alert run show ?thesis
      by (auto simp: x build_alerts_def telegramAlertNotifier_def urgentWithdrawer_def bindIO_eq ret_eq)
  qed
qed simp

text \<open>
  The modules, the clock and the results' rows know nothing of what is pending: only the result
  handler changes it, and it runs from where the modules left the world.
\<close>

lemma envIO_keeps_pending: "moves (\<lambda>s s'. fst s' = fst s) (envIO m)"
  by (rule movesI) (auto elim: envIO_elim)

lemma runModules_pending:
  "fst (snd (snd (runModules (bd_monitor b svc) (ms_Modules (bd_monitor b svc)) [] None s))) = fst (snd s)"
proof -
  have "modules_move (\<lambda>s s'. fst s' = fst s) (bd_monitor b svc)"
    unfolding modules_move_def
    by (auto simp: reflp_def transp_def envIO_keeps_pending lift_InsertMonitorResult lift_module_def)
  from runModules_moves [OF this order_refl, of "[]" None] show ?thesis
    unfolding moves_def by (rule spec)
qed

lemma RunOnce_alerts:
  assumes "RunOnce (bd_monitor b svc) (latest, pending, w) = ((results, err), (latest', pending', w'))"
    and "\<not> error_is err ErrInvalidMonitorModule" "\<not> error_is err ErrMonitorStorage"
  obtains w1 e where
    "map mr_ModuleID results = map (\<lambda>mv. mod_ID (ops_of (system_clock (bd_out b)) mv)) (bd_modules b)"
    "map (\<lambda>r. (sr_module_id r, sr_status r)) (db_snapshots (wd_db w1)) =
       map (\<lambda>r. (sr_module_id r, sr_status r)) (db_snapshots (wd_db w)) @
       map (\<lambda>r. (mr_ModuleID r, mr_Status r)) results"
    "alert_each (build_alerts (dp_platform (bd_Parts b)) (bd_cfg b) svc (bd_api b))
       (urgent_findings results) (pending, w1) = (e, (pending', w'))"
proof (rule monitor.RunOnce_cases [OF assms(1) bd_monitor_simps(3)], goal_cases)
  case 1
  then show ?case using assms(2,3) by blast
next
  case (2 v1 herr)
  have "map mr_ModuleID results = map (\<lambda>mv. mod_ID (ops_of (system_clock (bd_out b)) mv)) (bd_modules b)"
    using 2(3) by (simp add: lift_module_def thresholdOverrideModule_def comp_def)
  moreover obtain w1 where "v1 = (pending, w1)"
    using 2(6) runModules_pending [of b svc "(latest, pending, w)"] by (metis fst_conv prod.collapse snd_conv)
  ultimately show ?case
    using 2(1,2,4)
    by (auto simp: monitor.rows_def monitor.row_of_def [abs_def] HandleMonitorResults_alert_each)
qed

end
