(* ===== verification/Daemon_Properties.thy ===== *)
theory Daemon_Properties
  imports Example_Bot Bot_Liveness
begin

text \<open>
  The properties of the program as a whole: of \<open>main\<close> from the arguments on, and of the daemon
  that the monitor mode runs, on every schedule of its two loops.
\<close>

subsection \<open>The program\<close>

text \<open>C1: Whatever its arguments, its files, its environment and the outside do, the program sends
  nothing but full exits: every transaction of a process, on every schedule, redeems the whole
  share balance that the vault of a valid configuration reported for the signer, to the receiver
  of that configuration, without value and with usable fees within its ceilings.\<close>

theorem program_sends_only_full_exits:
  assumes "signs_only (lb_Crypto lib)"
  shows "case main_run out lib args turns (fresh_process db) of (code, w') \<Rightarrow>
    world_sent w' = [] \<or> (\<exists>b secrets svc. configured out lib b secrets \<and>
      dp_service (bd_Parts b) = Inr svc \<and> list_all (full_exit_tx (bd_Parts b) svc) (world_sent w'))"
proof -
  obtain code w' where run: "main_run out lib args turns (fresh_process db) = (code, w')" by (metis surj_pair)
  have "dialled_before (wd_log (fresh_process db)) = 0" by (simp add: dialled_before_def)
  from main_exits [OF assms this run] show ?thesis
    by (simp add: run configured_exits_def world_sent_def)
qed

theorem program_sends_only_full_exits_witness:
  "case main_run demo_outside demo_libraries [''monitor''] [MonitorTurn Tick, TelegramTurn None]
      (fresh_process emptyDatabase) of (code, w') \<Rightarrow>
    world_sent w' = [] \<or> (\<exists>b secrets svc. configured demo_outside demo_libraries b secrets \<and>
      dp_service (bd_Parts b) = Inr svc \<and> list_all (full_exit_tx (bd_Parts b) svc) (world_sent w'))"
  by (rule program_sends_only_full_exits) (use demo_signs_only in \<open>simp add: demo_libraries_def\<close>)


lemma daemonLoop_ends:
  assumes "(\<exists>err. MonitorTurn (ContextDone err) \<in> set turns) \<or> (\<exists>err. TelegramTurn (Some err) \<in> set turns)"
  shows "fst (daemonLoop sys monitor interval service api offset turns s) \<noteq> None"
  using assms
proof (induction sys monitor interval service api offset turns arbitrary: s rule: daemonLoop.induct)
  case (2 sys monitor interval service api offset event rest)
  then show ?case
    by (cases event) (auto simp: bindIO_eq ret_eq split: prod.splits)
next
  case (3 sys monitor interval service api offset d rest)
  then show ?case
    by (cases d) (auto simp: bindIO_eq ret_eq split: prod.splits option.splits)
qed simp

definition context_done :: "turn list \<Rightarrow> bool" where
  "context_done turns \<longleftrightarrow> (\<exists>err. MonitorTurn (ContextDone err) \<in> set turns \<or> TelegramTurn (Some err) \<in> set turns)"

definition ends :: "('w, 'a option) io \<Rightarrow> bool" where
  "ends m \<longleftrightarrow> (\<forall>w. fst (m w) \<noteq> None)"

lemma ends_intros:
  "ends (ret (Some x))"
  "ends body \<Longrightarrow> ends (deferred release body)"
  "(\<And>e. ends (h e)) \<Longrightarrow> (\<And>x. ends (k x)) \<Longrightarrow> ends (tryE m h k)"
  "ends n \<Longrightarrow> ends (bindIO n (\<lambda>r. ret (map_option f r)))"
  "ends (bindIO q (\<lambda>r. ret (Some (g r))))"
  by (auto simp: ends_def deferred_def io_simps split: prod.splits option.splits sum.splits)
    (metis fst_conv option.distinct(1))+

lemma runServices_ends:
  assumes "context_done turns"
  shows "ends (runServices out rt turns)"
proof -
  have "ends (runLoops out interval m service turns)" for interval m service
    unfolding ends_def
  proof
    fix w
    have "fst (daemonLoop (whole (system_clock out)) m interval service (the (tl_Bot service)) 0 turns
        (fmempty, None, w)) \<noteq> None"
      using assms by (intro daemonLoop_ends) (auto simp: context_done_def)
    then show "fst (runLoops out interval m service turns w) \<noteq> None"
      by (simp add: runLoops_def case_prod_unfold)
  qed
  then show ?thesis
    by (auto simp: runServices_def intro: ends_intros split: option.splits sum.splits)
qed

lemma Run_ends:
  assumes "context_done turns"
  shows "ends (Run out lib mode path turns)"
proof -
  have "ends (runMonitor out lib rt turns)" for rt
    unfolding runMonitor_def
    by (auto intro!: ends_intros runServices_ends [OF assms] split: option.splits prod.splits)
  then show ?thesis
    unfolding Run_def runMode_def by (auto intro!: ends_intros)
qed



text \<open>C16: Once the runtime is built, an error with which the program ends shows no secret: neither
  the private key, nor the Telegram token, nor an endpoint URL of the environment is part of the
  text that goes to standard error, for secrets that the redaction cannot confuse with its mark.\<close>

theorem program_errors_show_no_secret:
  assumes "Run out lib mode path turns w = (Some (Some err), w')" "mode \<in> {ModeMonitor, ModeBootstrap, ModeConfigCheck}"
    and "path \<noteq> []" "buildRuntime out lib path w = (Inr rt, w1)" "redactable secret"
    and "secret \<in> set (sec_PrivateKey (rt_Secrets rt) # sec_TelegramToken (rt_Secrets rt)
           # sec_PrimaryRPCURL (rt_Secrets rt) # sec_FallbackRPCURLs (rt_Secrets rt))"
  shows "\<not> sublist secret (error_text err)"
proof -
  from assms(1-4) obtain w2 where "runMode out lib mode rt turns w1 = (Some (Some err), w2)"
    by (auto simp: Run_def tryE_eq deferred_def bindIO_eq ret_eq split: prod.splits option.splits)
  then obtain r where "sanitizeRuntimeError (rt_Secrets rt) r = Some err"
    unfolding runMode_def by (rule bindIO_elim) (auto simp: ret_eq eq_commute [of "Some _"])
  moreover from this obtain e where "r = Some e"
    by (cases r) (simp_all add: sanitizeRuntimeError_def)
  ultimately show ?thesis
    using sanitizeRuntimeError_absent [OF assms(5,6)] by simp
qed

theorem program_errors_show_no_secret_witness:
  "\<exists>err w'. Run demo_outside demo_libraries ModeMonitor ''c'' [TelegramTurn (Some (New ''x''))]
     (fresh_process emptyDatabase) = (Some (Some err), w') \<and> \<not> sublist ''x'' (error_text err)"
proof -
  obtain err w' where run: "Run demo_outside demo_libraries ModeMonitor ''c'' [TelegramTurn (Some (New ''x''))]
      (fresh_process emptyDatabase) = (Some (Some err), w')"
    using demo_Run by blast
  obtain w1 where rt: "buildRuntime demo_outside demo_libraries ''c'' (fresh_process emptyDatabase) =
      (Inr (runtime_of demo_bot demo_secrets), w1)"
    using demo_buildRuntime by blast
  have "redactable ''x''" by (auto simp: redactable_def sublist_code)
  with program_errors_show_no_secret [OF run _ _ rt, of "''x''"] run show ?thesis
    by (simp add: runtime_of_def Let_def demo_secrets_def)
qed

lemma deployment_checks:
  assumes "configured out lib b secrets"
  shows "signer_check (runtime_of b secrets) w = (None, w)"
    and "receiver_check (lb_Address lib) (runtime_of b secrets) w = (None, w)"
proof -
  show "signer_check (runtime_of b secrets) w = (None, w)"
    by (simp add: signer_check_def runtime_of_def Let_def dp_signer_def private_key_signer_def
        Signer_Address_def tryE_eq ret_eq)
  show "receiver_check (lb_Address lib) (runtime_of b secrets) w = (None, w)"
    using assms by (auto simp: configured_def deployment_def receiver_check_def runtime_of_def Let_def
        parseAddress_def ret_eq split: if_splits)
qed

lemma chain_check_passes:
  "fst (chain_check (runtime_of b secrets) w) = None \<longleftrightarrow>
     fst (ChainID (dp_pool (bd_Parts b)) w) = Inr (Some (sint (ec_ChainID (cfg_Ethereum (bd_cfg b)))))"
  by (auto simp: chain_check_def runtime_of_def Let_def chain_id_client_def tryE_eq ret_eq
      split: prod.splits sum.splits)

lemma config_check_of_deployment:
  assumes "configured out lib b secrets"
  shows "fst (runConfigCheck lib (runtime_of b secrets) w) = None \<longleftrightarrow>
    fst (ChainID (dp_pool (bd_Parts b)) w) = Inr (Some (sint (ec_ChainID (cfg_Ethereum (bd_cfg b)))))"
  unfolding chain_check_passes [of b secrets, symmetric]
  by (auto simp: runConfigCheck_def RunChecks_def onErr_eq ret_eq deployment_checks [OF assms]
      split: prod.splits option.splits)

text \<open>C17: The configuration check passes exactly when a runtime can be built (its file, its secrets,
  its addresses, its key and its modules are in order) and the endpoints report the chain of the
  configuration: the checks of the signer and the receiver never fail once the runtime is there.\<close>

theorem config_check_passes_exactly:
  "fst (Run out lib ModeConfigCheck path turns (fresh_process db)) = Some None \<longleftrightarrow>
     path \<noteq> [] \<and> (\<exists>b secrets w1. configured out lib b secrets \<and>
       buildRuntime out lib path (fresh_process db) = (Inr (runtime_of b secrets), w1) \<and>
       fst (ChainID (dp_pool (bd_Parts b)) w1) = Inr (Some (sint (ec_ChainID (cfg_Ethereum (bd_cfg b))))))"
  (is "?passes \<longleftrightarrow> _")
proof (cases "path = []")
  case False
  obtain r w1 where build: "buildRuntime out lib path (fresh_process db) = (r, w1)" by (metis surj_pair)
  show ?thesis
  proof (cases r)
    case (Inl e)
    with build False show ?thesis by (simp add: Run_def tryE_eq ret_eq)
  next
    case (Inr rt)
    then obtain b secrets where b: "rt = runtime_of b secrets" "configured out lib b secrets"
      using buildRuntime_Inr [of out lib path "fresh_process db" rt w1] build
      by (auto simp: dialled_before_def)
    have "?passes \<longleftrightarrow> fst (runConfigCheck lib rt w1) = None"
      using build Inr False
      by (auto simp: Run_def tryE_eq deferred_def bindIO_eq ret_eq runMode_def name_defs sanitizeRuntimeError_def
          Let_def split: prod.splits option.splits)
    also have "\<dots> \<longleftrightarrow> fst (ChainID (dp_pool (bd_Parts b)) w1) =
        Inr (Some (sint (ec_ChainID (cfg_Ethereum (bd_cfg b)))))"
      unfolding b(1) by (rule config_check_of_deployment [OF b(2)])
    finally have passes: "?passes \<longleftrightarrow> fst (ChainID (dp_pool (bd_Parts b)) w1) =
        Inr (Some (sint (ec_ChainID (cfg_Ethereum (bd_cfg b)))))" .
    have "dp_pool (bd_Parts b') = dp_pool (bd_Parts b) \<and> bd_cfg b' = bd_cfg b"
      if "runtime_of b' secrets' = rt" for b' and secrets' :: Secrets
      using arg_cong [OF that, of rt_Submitter] arg_cong [OF that, of rt_Config] b(1)
      by (simp add: runtime_of_def Let_def)
    with passes show ?thesis
      using build Inr b False by fastforce
  qed
qed (simp add: Run_def ret_eq)

subsection \<open>The daemon\<close>

text \<open>C18: Modules that run keep running: when every module of the daemon accepts its own
  configuration under the stored overrides, it still does after any schedule of monitor runs and
  commands, whatever thresholds were proposed and confirmed and whatever statements failed; so
  no confirmed change can make a module invalid, which would end the monitor.\<close>

theorem modules_keep_running:
  assumes "dp_service (bd_Parts b) = Inr svc" "running b (wd_db w)"
  shows "case bd_daemon b svc interval offset turns (latest, pending, w) of
    (r, (latest', pending', w')) \<Rightarrow> running b (wd_db w')"
proof -
  obtain r latest' pending' w' where
    run: "bd_daemon b svc interval offset turns (latest, pending, w) = (r, (latest', pending', w'))"
    by (metis surj_pair)
  from movesD [OF daemon_keeps_running [OF assms(1)] run] assms(2) show ?thesis
    by (simp add: run keeps_running_def)
qed

theorem modules_keep_running_witness:
  "case bd_daemon demo_bot bot_service 60 0 [MonitorTurn Tick, TelegramTurn None, MonitorTurn Tick]
      (fmempty, None, fresh_process emptyDatabase) of
    (r, (latest', pending', w')) \<Rightarrow> running demo_bot (wd_db w')"
  by (rule modules_keep_running [OF bot_service_eq]) (simp add: demo_running)

text \<open>C19: An update is fetched until it is acknowledged and not after: whenever a batch was fetched,
  every later request of the daemon asks from an offset above all its identifiers, on every
  schedule (for identifiers below the largest 64-bit integer).\<close>

theorem updates_are_acknowledged:
  assumes "dp_service (bd_Parts b) = Inr svc" "small_ids (bd_out b)" "\<forall>off. RqUpdates off \<notin> set (wd_log w)"
    and "bd_daemon b svc interval 0 turns (latest, pending, w) = (r, (latest', pending', w'))"
    and "i < j" "j < length (wd_log w')" "wd_log w' ! i = RqUpdates first" "wd_log w' ! j = RqUpdates later"
    and "out_Updates (bd_out b) (take i (wd_log w')) first = Inr batch" "u \<in> set batch"
  shows "sint (up_UpdateID u) < sint later"
proof -
  have start: "acknowledged (bd_out b) (wd_log w)" "below (bd_out b) (wd_log w) 0"
    using assms(3) below_append [of "wd_log w" "bd_out b" "[]"] by (auto simp: acknowledged_def below_def)
  from daemon_acknowledges [OF assms(1,2,4)] start have "acknowledged (bd_out b) (wd_log w')" by simp
  with assms(6,8) have "below (bd_out b) (take j (wd_log w')) later" by (auto simp: acknowledged_def)
  with assms(5-7,9,10) show ?thesis
    unfolding below_def batch_below_def by (auto dest!: spec [of _ i] simp: min_def split: sum.splits)
qed

lemma Record_eq:
  "Repositories_Record (sql_driver out) ty m flds at w =
     (case out_Sql out (wd_log w) ''insert event_records'' of
        Some err \<Rightarrow> (Some (Wrap ''insert event record: '' (New err) []),
          w\<lparr>wd_log := wd_log w @ [RqSql ''insert event_records'']\<rparr>)
      | None \<Rightarrow> (None, \<lparr>wd_log = wd_log w @ [RqSql ''insert event_records''],
          wd_db = (wd_db w)\<lparr>
            db_events := db_events (wd_db w) @
              [\<lparr>er_id = db_event_seq (wd_db w) + 1, er_event_type = ty, er_message = m,
                er_fields_json = json_encode (json_string_map flds), er_created_at = stored_time at\<rparr>],
            db_event_seq := db_event_seq (wd_db w) + 1\<rparr>\<rparr>))"
  by (simp add: Repositories_Record_def InsertEvent_def exec_stmt_def sql_driver_def insert_event_def io_simps
      ask_def split: option.splits)

lemma reject_eq:
  "recordSecurityReject (bd_clock b) (bd_telegram b svc) command chat user (latest, pending, w) =
     (let l = wd_log w @ [RqClock] in
      case Repositories_Record (sql_driver (bd_out b)) EventSecurity ''telegram command rejected''
          (reject_fields command chat user) (out_Clock (bd_out b) (wd_log w)) (w\<lparr>wd_log := l\<rparr>) of
        (None, w') \<Rightarrow> (None, (latest, pending, w'))
      | (Some err, w') \<Rightarrow> (Some (Wrap ''record telegram security reject: '' err []), (latest, pending, w')))"
  by (simp add: recordSecurityReject_def bd_telegram_def build_telegram_def telegram_now_def clock_now_def
      bd_clock_def whole_def envIO_def system_clock_def ask_def io_simps Let_def split: prod.splits option.splits)



lemma Confirm_unknown:
  assumes "Confirm (system_clock out) (runtime_thresholds out lib cfg) user i w = (r, w')"
    and "i \<notin> cr_id ` set (db_confirmations (wd_db w))"
  shows "\<exists>e. r = Inl e \<and> \<not> errors_Is e ErrUnauthorizedTelegramCommand" "wd_db w' = wd_db w"
proof -
  have repos: "tp_repos (runtime_thresholds out lib cfg) = sql_driver out" by (simp add: runtime_thresholds_def)
  have "select_confirmation i (wd_db w) = None" using assms(2) by (simp add: select_confirmation_None)
  then have "(\<exists>e. r = Inl e \<and> \<not> errors_Is e ErrUnauthorizedTelegramCommand) \<and> wd_db w' = wd_db w"
    using assms(1) unfolding Confirm_def runtime_thresholds_simps
    by (cases "out_Sql out (wd_log w @ [RqClock]) ''begin''";
        cases "out_Sql out (wd_log w @ [RqClock, RqSql ''begin'']) ''select pending_confirmations''")
      (auto simp: ConsumePendingConfirmationForUser_def consumePendingConfirmation_def
        selectPendingConfirmation_def query_stmt_def repos sql_driver_def system_clock_def ask_def io_simps)
  then show "\<exists>e. r = Inl e \<and> \<not> errors_Is e ErrUnauthorizedTelegramCommand" "wd_db w' = wd_db w" by blast+
qed


text \<open>The demo bot with one update waiting.\<close>

definition chat_outside :: "Message option \<Rightarrow> Outside" where
  "chat_outside msg = demo_outside\<lparr>out_Updates := (\<lambda>l offset.
     if offset = 0 then Inr [\<lparr>up_UpdateID = 5, up_Message = msg\<rparr>] else Inr [])\<rparr>"

definition chat_bot :: "Message option \<Rightarrow> unit BotDeployment" where
  "chat_bot msg = deployment (chat_outside msg) demo_libraries bot_config demo_secrets
     \<lparr>pk_key = (), pk_address = 48\<rparr> 16 32"

definition confirm_message :: Message where
  "confirm_message = \<lparr>um_Chat = Some 7, um_From = Some 42, um_Text = ''/confirm zz''\<rparr>"

lemma chat_service: "\<exists>svc. dp_service (bd_Parts (chat_bot msg)) = Inr svc"
  by (simp add: dp_service_def buildWithdrawService_def chat_bot_def demo_config_def demo_timeout demo_gwei)

lemma confirm_text: "isCommandText ''/confirm zz''"
  "ParseCommand ''/confirm zz'' = \<lparr>cmd_Name = CommandConfirm, cmd_Args = [''zz'']\<rparr>"
  by (simp_all add: isCommandText_def ParseCommand_def Fields_def trim_eval name_defs)


theorem updates_are_acknowledged_witness:
  "\<exists>svc r w'. bd_daemon (chat_bot None) svc 60 0 [TelegramTurn None, TelegramTurn None]
      (fmempty, None, fresh_process emptyDatabase) = (r, (fmempty, None, w')) \<and>
    wd_log w' = [RqUpdates 0, RqUpdates 6] \<and> sint (5 :: int64) < sint (6 :: int64)"
proof -
  obtain svc where svc: "dp_service (bd_Parts (chat_bot None)) = Inr svc" using chat_service by blast
  have "small_ids (bd_out (chat_bot None))"
    by (auto simp: small_ids_def chat_bot_def chat_outside_def split: if_splits)
  moreover obtain r w' where run: "bd_daemon (chat_bot None) svc 60 0 [TelegramTurn None, TelegramTurn None]
      (fmempty, None, fresh_process emptyDatabase) = (r, (fmempty, None, w'))"
    "wd_log w' = [RqUpdates 0, RqUpdates 6]"
    by (simp add: bd_daemon_def bindIO_eq pollRound_def lift_bot_def bd_api_def telegram_bot_def envIO_def ask_def
        chat_bot_def chat_outside_def io_simps Let_def handleUpdate_def next_offset_def)
  moreover have "out_Updates (bd_out (chat_bot None)) (take 0 (wd_log w')) 0 =
      Inr [\<lparr>up_UpdateID = 5, up_Message = None\<rparr>]"
    by (simp add: chat_bot_def chat_outside_def)
  ultimately have "sint (up_UpdateID \<lparr>up_UpdateID = 5, up_Message = None\<rparr>) < sint (6 :: int64)"
    by (intro updates_are_acknowledged [OF svc _ _ run(1), where i = 0 and j = 1 and first = 0
        and batch = "[\<lparr>up_UpdateID = 5, up_Message = None\<rparr>]"]) simp_all
  with run show ?thesis by auto
qed



lemma demo_price:
  "CurrentSharePrice demo_reader_of_bot w = (Inr (Some 1000000), log_more w [demo_read, demo_read])"
proof -
  have c: "vaultCall demo_reader_of_bot m args v = (Inr [ABig 1], log_more v [demo_read])"
    if "(m, inputs, [TUint 256]) \<in> set vaultABIJSON" for m inputs args v
    by (simp add: vaultCall_def demo_reader_of_bot_def vault_reader_def demo_deployment_def demo_pack
        demo_unpack [OF that] io_simps CallContract_def demo_bot_def demo_secrets_def rpc_eval demo_read_def)
  show ?thesis
    by (simp add: CurrentSharePrice_def vaultUint256_def bindE_eq c [OF demo_methods(3)] c [OF demo_methods(4)]
        ret_eq parseUint256Output_def)
      (simp add: demo_reader_of_bot_def vault_reader_def demo_config_def)
qed

lemma demo_effective:
  assumes "wd_db w = emptyDatabase"
  shows "effective (sql_driver demo_outside) dec (SharePriceValue demo_share_module) w =
    (Inr (SharePriceValue demo_share_module),
     log_more w [RqSql ''select threshold_overrides'', RqSql ''rows threshold_overrides''])"
  using assms
  by (simp add: effective_def ListThresholdOverrides_def io_simps Let_def query_stmt_def sql_driver_def ask_more
      demo_outside_def select_overrides_def emptyDatabase_def sort_by_def applySharePriceOverrides_def
      overridesForModule_def toThresholdOverrides_def)

lemma demo_module_valid: "SharePrice_ValidateConfig demo_share_module = None"
  by (simp add: SharePrice_ValidateConfig_def demo_share_module_def)

definition demo_finding :: Finding where
  "demo_finding = \<lparr>f_Key = FindingSharePriceLoss, f_Severity = SeverityUrgent,
     f_Message = ''share price loss crossed urgent threshold'', f_Evidence = share_price_evidence 5000 0\<rparr>"

definition demo_observation :: "Time \<Rightarrow> MonitorResult" where
  "demo_observation now = \<lparr>mr_ModuleID = ModuleSharePriceLoss, mr_Status = MonitorStatusUrgent, mr_ObservedAt = now,
     mr_Metrics = Some [\<lparr>m_Key = ''share_price_asset_units'', m_Value = dec_int 1000000, m_Unit = ''asset_units''\<rparr>],
     mr_Findings = Some [demo_finding]\<rparr>"

lemma demo_verdict:
  "share_price_verdict demo_share_module (fst (share_price_loss_pair demo_share_module 1000000))
     (snd (share_price_loss_pair demo_share_module 1000000)) = (MonitorStatusUrgent, [demo_finding])"
  by (simp add: share_price_verdict_def share_price_loss_pair_def demo_share_module_def lossBPS_def demo_finding_def)

lemma demo_monitor:
  "\<exists>now. SharePrice_Monitor sys demo_share_module w =
     (Inr (demo_observation now), log_more w [demo_read, demo_read, RqClock])"
proof -
  have "the (sp_Reader demo_share_module) = CurrentSharePrice demo_reader_of_bot"
    "sp_Clock demo_share_module = Some (system_clock demo_outside)"
    by (simp_all add: demo_share_module_def)
  then show ?thesis
    using demo_verdict
    by (auto simp: SharePrice_Monitor_def demo_module_valid bindE_eq bindIO_eq ret_eq demo_observation_def
        clock_now_def demo_clock demo_price case_prod_unfold)
qed

text \<open>The bot's service is that of \<open>Example\<close>: the configuration of the modules is no part of it.\<close>

lemma demo_bot_service_eq: "bot_service = demo_service" "dp_platform (bd_Parts demo_bot) = dp_platform demo_deployment"
proof -
  let ?d = "demo_deployment\<lparr>dp_Config := bot_config\<rparr>"
  have "dp_morpho ?d = dp_morpho demo_deployment" "dp_platform ?d = dp_platform demo_deployment"
    "dp_pool ?d = dp_pool demo_deployment"
    by (simp_all add: dp_morpho_def buildMorphoAdapter_def dp_pool_def dp_platform_def)
  then have "dp_adapter ?d = dp_adapter demo_deployment" "dp_signer ?d = dp_signer demo_deployment"
    "dp_submitter ?d = dp_submitter demo_deployment" "dp_repository ?d = dp_repository demo_deployment"
    by (simp_all add: dp_adapter_def dp_signer_def dp_submitter_def dp_repository_def)
  then have "dp_service ?d = dp_service demo_deployment"
    by (simp add: dp_service_def buildWithdrawService_def cong: sum.case_cong)
  then show "bot_service = demo_service"
    by (simp add: bot_service_def demo_service_def demo_bot_parts)
qed (simp add: demo_bot_parts dp_platform_def)

lemma demo_urgent:
  "urgent_findings [(demo_observation now)\<lparr>mr_ModuleID := ModuleSharePriceLoss\<rparr>] =
     [((demo_observation now)\<lparr>mr_ModuleID := ModuleSharePriceLoss\<rparr>, demo_finding)]"
proof -
  have "SeverityUrgent = f_Severity demo_finding" by (simp add: demo_finding_def)
  then show ?thesis by (simp add: urgent_findings_def demo_observation_def)
qed

lemma demo_alert:
  assumes "api = lift_bot (bd_api demo_bot)"
  shows "SendAlert (alert_sender cfg api) msg (p, w) =
     (None, (p, log_more w [RqMessage (tg_ChatID (cfg_Telegram cfg)) (boundResponse (alert_sender cfg api) (am_Text msg))]))"
  by (simp add: assms SendAlert_def sendText_def Let_def alert_sender_def runtime_authorization_def bindIO_eq ret_eq
      lift_bot_def bd_api_def telegram_bot_def envIO_def ask_more sanitizeTelegramError_def demo_bot_def
      deployment_def demo_outside_def)

lemma demo_handled:
  assumes "db_attempts (wd_db w) = []"
  shows "\<exists>q w'. HandleMonitorResults (build_alerts (dp_platform (bd_Parts demo_bot)) (bd_cfg demo_bot) bot_service
      (bd_api demo_bot)) [(demo_observation now)\<lparr>mr_ModuleID := ModuleSharePriceLoss\<rparr>] (None, w) =
    (None, (Some q, w')) \<and> world_sent w' = world_sent w @ [demo_tx]"
proof -
  obtain m where alert: "SendAlert (alert_sender (bd_cfg demo_bot) (lift_bot (bd_api demo_bot)))
      \<lparr>am_Text = f_Message demo_finding\<rparr> (None, w) =
    (None, ((None :: pendingWithdrawal option), log_more w [RqMessage (tg_ChatID (cfg_Telegram (bd_cfg demo_bot))) m]))"
    by (rule that, rule demo_alert [OF refl])
  let ?w = "log_more w [RqMessage (tg_ChatID (cfg_Telegram (bd_cfg demo_bot))) m]"
  obtain r q w' where run: "ExecuteFullExit (dp_platform demo_deployment) demo_service
      \<lparr>tr_Kind = TriggerKindUrgent, tr_ModuleID = ModuleSharePriceLoss, tr_FindingKey = f_Key demo_finding\<rparr>
      (None, ?w) = ((r, None), (Some q, w'))" "world_sent w' = world_sent ?w @ [demo_tx]"
    using demo_run [of ?w] assms by fastforce
  have "world_sent ?w = world_sent w" by (simp add: world_sent_def sends_of_def)
  then show ?thesis
    using run unfolding HandleMonitorResults_alert_each demo_urgent
    by (simp add: build_alerts_def telegramAlertNotifier_def alert urgentWithdrawer_def demo_bot_service_eq
        bindIO_eq ret_eq)
qed

lemma demo_RunOnce:
  "\<exists>now latest q w'. RunOnce (bd_monitor demo_bot bot_service) (fmempty, None, fresh_process emptyDatabase)
     = (([(demo_observation now)\<lparr>mr_ModuleID := ModuleSharePriceLoss\<rparr>], None), (latest, Some q, w')) \<and>
     world_sent w' = [demo_tx]"
proof -
  let ?sys = "system_clock demo_outside" and ?mv = "SharePriceValue demo_share_module"
  let ?reads = "[RqSql ''select threshold_overrides'', RqSql ''rows threshold_overrides'']"
  have ops: "ops_of ?sys ?mv = share_price_ops ?sys demo_share_module" by (simp add: ops_of_def)
  have out: "bd_out demo_bot = demo_outside" by (simp add: demo_bot_def)
  let ?module = "lift_module (thresholdOverrideModule ?sys (sql_driver demo_outside)
    (ec_AssetDecimals (cfg_Ethereum (bd_cfg demo_bot))) ?mv) :: world wstate Module"
  have v: "mod_ValidateConfig ?module (p, w) = (None, (p, log_more w ?reads))"
    if "wd_db w = emptyDatabase" for p w
    using that by (simp add: lift_module_def thresholdOverrideModule_def override_ValidateConfig_def envIO_def
        tryE_eq demo_effective ops share_price_ops_def demo_module_valid ret_eq)
  let ?l = "?reads @ [demo_read, demo_read, RqClock]"
  have m: "\<exists>now. mod_Monitor ?module (p, w) = (Inr (demo_observation now), (p, log_more w ?l))"
    if "wd_db w = emptyDatabase" for p w
  proof -
    obtain now where "SharePrice_Monitor ?sys demo_share_module (log_more w ?reads)
      = (Inr (demo_observation now), log_more (log_more w ?reads) [demo_read, demo_read, RqClock])"
      using demo_monitor by blast
    then show ?thesis
      using that by (auto simp: lift_module_def thresholdOverrideModule_def override_Monitor_def envIO_def
          bindE_eq demo_effective ops share_price_ops_def)
  qed
  have insert0: "\<exists>w'. InsertMonitorResult (sql_driver demo_outside) r t w = (None, w') \<and>
      db_attempts (wd_db w') = [] \<and> world_sent w' = world_sent w"
    if "wd_db w = emptyDatabase" for r t w
    using that by (simp add: InsertMonitorResult_def exec_stmt_def sql_driver_def ask_def demo_outside_def
        insert_snapshot_def emptyDatabase_def onErr_eq ret_eq world_sent_def sends_of_def)
  have insert: "\<exists>w'. InsertMonitorResult (lift_driver (sql_driver demo_outside)) r t (p, w) = (None, (p, w')) \<and>
      db_attempts (wd_db w') = [] \<and> world_sent w' = world_sent w"
    if "wd_db w = emptyDatabase" for r t w and p :: "pendingWithdrawal option"
    using insert0 [OF that, of r t] by (auto simp: lift_InsertMonitorResult envIO_def)
  have id: "mod_ID ?module = ModuleSharePriceLoss"
    by (simp add: lift_module_def thresholdOverrideModule_def ops share_price_ops_def)
  let ?w = "log_more (fresh_process emptyDatabase) ?reads"
  obtain now where m1: "mod_Monitor ?module (None, ?w) = (Inr (demo_observation now), (None, log_more ?w ?l))"
    using m [of ?w None] by auto
  obtain w' where i1: "InsertMonitorResult (lift_driver (sql_driver demo_outside))
      ((demo_observation now)\<lparr>mr_ModuleID := ModuleSharePriceLoss\<rparr>) (fst (system_clock demo_outside (log_more ?w ?l)))
      ((None :: pendingWithdrawal option), log_more (log_more ?w ?l) [RqClock]) = (None, (None, w'))"
    "db_attempts (wd_db w') = []" "world_sent w' = []"
    using insert [of "log_more (log_more ?w ?l) [RqClock]"] by (force simp: world_sent_def sends_of_def demo_read_def)
  have "\<exists>latest. runModules (bd_monitor demo_bot bot_service) [Some ?module] [] None
      (fmempty, None, fresh_process emptyDatabase) =
      (([(demo_observation now)\<lparr>mr_ModuleID := ModuleSharePriceLoss\<rparr>], None, True), (latest, None, w'))"
    using v [of "fresh_process emptyDatabase" None] m1 i1(1)
    by (simp add: id name_defs io_simps envIO_def observeModule_def setLatest_def out demo_clock Let_def)
  moreover obtain q w2 where "HandleMonitorResults (build_alerts (dp_platform (bd_Parts demo_bot)) (bd_cfg demo_bot)
      bot_service (bd_api demo_bot)) [(demo_observation now)\<lparr>mr_ModuleID := ModuleSharePriceLoss\<rparr>] (None, w') =
      (None, (Some q, w2))" "world_sent w2 = [demo_tx]"
    using demo_handled [OF i1(2), of now] i1(3) by auto
  ultimately show ?thesis
    by (auto simp: RunOnce_def bindIO_eq out demo_bot_modules ret_eq onErr_eq envIO_def
        shouldHandleMonitorResults_def)
qed


lemma demo_responsive: "responsive demo_bot"
proof -
  let ?d = "demo_deployment\<lparr>dp_Config := bot_config\<rparr>"
  have d: "ma_VaultClient (dp_morpho ?d) = ma_VaultClient (dp_morpho demo_deployment)"
    "dp_VaultABI ?d = demo_codec vaultABIJSON" "dp_VaultABI demo_deployment = demo_codec vaultABIJSON"
    "dp_Outside ?d = demo_outside" "pk_address (dp_Key ?d) = 48"
    by (simp_all add: demo_deployment_def)
  have s: "serves methods (demo_codec methods) (rpc_pool demo_outside n) v" if "distinct (map fst methods)"
    for methods n v
    using that by (auto simp: serves_def CallContract_def rpc_eval demo_codec_def)
  have "answering_client (dp_VaultABI ?d) (ma_VaultClient (dp_morpho ?d))"
    unfolding answering_client_def d using demo_follows(1) s [OF demo_documents(1)] by simp
  moreover have "yields (BalanceOf (dp_VaultABI ?d) (ma_VaultClient (dp_morpho ?d)) (pk_address (dp_Key ?d))) (\<lambda>s. 0 < s)"
    using demo_vault_call [OF demo_methods(1)]
    by (auto simp: yields_def BalanceOf_def vaultMethodBalanceOf_def d bindE_eq ret_eq uint256Output_def
        simp del: dp_morpho_simps)
  moreover have "cr_SignTx (dp_Crypto ?d) tx c k = Inr (tx\<lparr>tx_Signature := [1]\<rparr>)" for tx c k
    by (simp add: demo_deployment_def)
  ultimately show ?thesis
    by (simp add: responsive_def Let_def demo_bot_parts d pool_answers_def)
      (auto simp: demo_outside_def)
qed


end
