(* ===== verification/Spec2Isabelle.thy ===== *)
theory Spec2Isabelle
  imports Core_Clone Vault_Reads Daemon_Properties
begin

text \<open>
  withdraw-bot watches a position in a Morpho vault and withdraws it in full when a monitor finds
  something urgent. This development models the Go program below \<open>src/\<close> from \<open>main\<close> to the
  statements it sends to SQLite, and proves what it guarantees.

  The program. \<open>main\<close> (\<open>cmd/withdraw-bot\<close>) parses a mode and a configuration path and calls \<open>Run\<close>
  (\<open>internal/app\<close>), which loads the configuration and the secrets, dials the RPC endpoints and
  builds the monitor modules. \<open>config-check\<close> compares the runtime with the chain, \<open>bootstrap\<close>
  prints what the modules read, and \<open>monitor\<close> opens the log and the database, wires the services
  and runs two loops: one runs every module at each tick, stores the results and hands them to
  the alerts, which notify Telegram and execute a full exit for each urgent finding; the other
  polls Telegram and serves the commands, among them changes of thresholds that are proposed,
  confirmed, stored and applied by the next run of a module.

  The theories, from the bottom up, and the sources they translate.
    \<open>Prelude\<close>: errors as values, operations over an abstract world (\<open>io\<close>), their rules.
    \<open>Go_Strings\<close>, \<open>Go_Time\<close>, \<open>Json\<close>: what the program uses of strings, strconv, utf8, time and
      encoding/json, with their round trips.
    \<open>Core_Types\<close> (\<open>core/ids, status, types, time, protocol\<close>) and \<open>Core_Clone\<close> (\<open>core/clone\<close>, and
      \<open>cloneMonitorResults\<close> of \<open>monitor/service\<close>): values, and clones over an explicit heap.
    \<open>Gas_Policy\<close> (\<open>withdraw/gas\<close>), \<open>Withdraw_Service\<close> (\<open>withdraw/service\<close>), \<open>Withdraw_Machine\<close>
      (its abstract machine and the simulation), \<open>Withdraw_Env\<close> (the contract with its
      collaborators), \<open>Signer\<close> (\<open>signer\<close>), \<open>Ethereum_Client\<close> (\<open>ethereum/client\<close>),
      \<open>Morpho_Client\<close> (\<open>morpho/abi, vault_client\<close>, \<open>withdraw/morpho_adapter\<close>).
    \<open>Storage\<close> (\<open>storage/repositories\<close> over the tables of \<open>storage/migrations\<close>).
    \<open>Share_Price\<close>, \<open>Vault_State\<close>, \<open>Vault_Baseline\<close>, \<open>Withdraw_Liquidity\<close> (the modules of
      \<open>monitor/modules/morpho\<close>), \<open>Monitor_Service\<close> (\<open>monitor/service\<close>), \<open>App_Alerts\<close>
      (\<open>app/alerts\<close>).
    \<open>Config\<close> (\<open>config\<close>), \<open>Morpho_Factory\<close> (\<open>morpho/factory\<close>), \<open>Vault_Reads\<close> (its reads and the
      adapter's against the documents of \<open>morpho/abi\<close>), \<open>Morpho_Overrides\<close> (\<open>morpho/overrides\<close>),
      \<open>App_Overrides\<close> (\<open>app/overrides\<close>), \<open>App_Providers\<close>
      (\<open>app/providers\<close>), \<open>Telegram_Commands\<close> and \<open>Telegram_Service\<close> (\<open>interactions/telegram\<close>),
      \<open>Reports\<close> (\<open>reports\<close>), \<open>Logging\<close> (\<open>logging\<close>).
    \<open>World\<close>: the one state behind all of them, the log of everything that was asked of the outside
      and the database; an \<open>Outside\<close> answers each request from the log so far, however it likes.
    \<open>App_Runtime\<close>, \<open>App_Bot\<close>, \<open>App_Daemon\<close>, \<open>App_Modes\<close>, \<open>App_Start\<close> (\<open>app/runtime, app, mode,
      bootstrap, config_check\<close>, \<open>storage/db\<close>, \<open>cmd/withdraw-bot/main\<close>): the services wired
      together, the daemon's loops, the modes and \<open>main\<close>.
    \<open>Bot_Frame\<close>, \<open>Module_Errors\<close>, \<open>Daemon_Invariants\<close>, \<open>Start_Laws\<close>: the rules from which the
      properties of whole runs follow. \<open>Bot_Liveness\<close>: when the outside responds, an urgent finding
      gets a withdrawal under way. \<open>Example\<close>, \<open>Example_Bot\<close>: a concrete deployment, run.
      \<open>Daemon_Properties\<close> and this theory: properties that span components.

  The correspondence. Structs are records, enumerations are datatypes or named strings, int64 is
  a 64-bit word, \<open>*big.Int\<close> an optional integer. A Go interface is a record of operations, a nil
  field is \<open>None\<close>, a result (value, error) is a sum, or a pair where Go uses both. An operation is
  a function from the world to its result and the world it leaves. A run-time panic and a loop
  that still waits are \<open>None\<close>. The order in which Go ranges over a map is an argument, and what does
  not depend on it is proved for all orders.

  Contracts. The locales \<open>withdraw_env\<close> and \<open>withdraw_ledger\<close> (what the withdrawal service needs of
  its collaborators), \<open>driver\<close> (statements change their own tables), \<open>dialer\<close>, \<open>provider_env\<close>,
  \<open>monitor_env\<close>, \<open>clone_of\<close> and \<open>scoped\<close> (what an acquisition opens its release closes) are each
  interpreted on the model's own definitions, and the properties rest on those facts.

  What is proved. Of whole runs: only full exits of the configured position are sent, everything
  opened is closed, the program ends when the context of a loop is done, its errors show no
  secret, the modules keep accepting their thresholds, updates are acknowledged, strangers change
  nothing, urgent findings reach the executor, and when the world responds they leave a full exit
  under way. Of the components: the withdrawal service refines an abstract machine whose
  transactions of one nonce have growing fees, and submits when its environment obliges; the
  modules compute exactly the verdicts stated; alerts are the urgent findings; confirmations are
  used once and apply what was proposed; rows, baselines and confirmations are read back as they
  were written. Some theorems state behaviour that is a
  defect: what they show is listed among the findings of the manifest.

  Loops and schedules. Every recursion is structural or has a measure; no fuel is used. An endless
  loop runs over the list of what its \<open>select\<close> receives, and \<open>None\<close> is the result when the list is
  used up. The daemon's schedule is the order in which its two goroutines take turns; a turn (one
  run of the monitor with its alerts, one batch of updates) is atomic, which is coarser than the
  program: there the withdrawal service and the results are locked per execution and per access,
  and the database has one connection. That \<open>runMonitor\<close> returns without waiting for the other
  goroutine is seen only in that this one takes no further turn.

  Third-party code is a parameter: the ABI codec, the cryptography, addresses, transaction hashes
  and YAML are the fields of \<open>Libraries\<close>; the RPC endpoints, Telegram, SQLite, goose, files and
  clocks answer through \<open>Outside\<close>, and any of their calls may fail. The one hypothesis about them
  that whole runs need is \<open>signs_only\<close>: signing a transaction leaves its content as it is. The
  two properties of \<open>Vault_Reads\<close> ask more: that a codec follows its document and a vault answers;
  that an urgent finding starts a withdrawal asks for a \<open>responsive\<close> world, as the example's is.

  Not modelled: the log lines and the default logger as a global (the settings of the logger and
  the opening and closing of its file are), the SQL of the migrations, the text that YAML makes of a value, contexts as values
  (deadlines; their end is an event of a schedule), mutexes, memory other than that of the clones,
  and the replacement of \<open>runtimeDeps\<close> by tests.
\<close>

section \<open>The deployed program\<close>

text \<open>C6: What the deployed bot sends and what it writes down agree: an execution either does
  neither, or records one attempt with its trigger and the status it returns (the hash of the
  transaction it sent when that is submitted), or has sent a transaction that it failed to record
  or whose sending was refused, and then it returns an error.\<close>

theorem bot_audits_what_it_sends:
  assumes "dp_service d = Inr svc"
  shows "case ExecuteFullExit (dp_platform d) svc trigger (p, w) of (r, (p', w')) \<Rightarrow>
    \<exists>txs rows. world_sent w' = world_sent w @ txs \<and>
      db_attempts (wd_db w') =
        db_attempts (wd_db w) @ map (attempt_row (sql_driver (dp_Outside d))) rows \<and>
      audited (dp_platform d) trigger txs rows r"
proof -
  obtain r p' w' where run: "ExecuteFullExit (dp_platform d) svc trigger (p, w) = (r, (p', w'))"
    by (metis surj_pair)
  with bot.ExecuteFullExit_audit [OF dp_service_wired(1,2) [OF assms] run] show ?thesis by auto
qed

theorem bot_audits_what_it_sends_witness:
  "case ExecuteFullExit (dp_platform demo_deployment) demo_service demo_trigger (None, demo_world) of
     (r, (p', w')) \<Rightarrow> \<exists>txs rows. world_sent w' = world_sent demo_world @ txs \<and>
      db_attempts (wd_db w') = db_attempts (wd_db demo_world) @
        map (attempt_row (sql_driver (dp_Outside demo_deployment))) rows \<and>
      audited (dp_platform demo_deployment) demo_trigger txs rows r"
  by (rule bot_audits_what_it_sends [OF demo_service_eq(1)])

theorem validated_config_builds_service_witness:
  "\<exists>svc. buildWithdrawService demo_config (system_clock demo_outside) (Some (dp_adapter demo_deployment))
      (Some (dp_signer demo_deployment)) (dp_submitter demo_deployment) (dp_repository demo_deployment) = Inr svc
    \<and> 0 < svc_ReplacementTimeout svc"
  using validated_config_builds_service [OF demo_config_valid] by blast


end
